(* ===== verification/Prelude.thy ===== *)
theory Prelude
  imports Complex_Main "HOL-Library.Word" "HOL-Library.AList" "HOL-Library.Multiset"
begin

text \<open>
  Shared vocabulary of the development: the C++ library behaviour the sources rely on
  (\<open>std::string::rfind(p, 0) == 0\<close> as a prefix test, \<open>std::string::find\<close> over
  \<open>size_t\<close> with its \<open>npos\<close>, \<open>substr\<close>, \<open>std::to_string\<close>, truncating integer
  division), the names of the model's types, and generic lemmas on lists that the
  component theories share. Component proofs use the collection \<open>model_simps\<close>.
\<close>

named_theorems model_simps "unfolding rules of the model's helper operations"

type_synonym token = int     \<comment> \<open>\<open>int token_ed\<close>, \<open>int token_ec\<close>\<close>

type_synonym msec = int      \<comment> \<open>\<open>long\<close> milliseconds\<close>

type_synonym conn_id = nat   \<comment> \<open>one accepted socket of the broker\<close>

type_synonym size_t = "64 word"

text \<open>Exceptions of the C++ standard library that the sources can raise and never catch.\<close>

datatype cpp_exc = OutOfRange | InvalidArgument

subsection \<open>Integer division as C++ computes it\<close>

text \<open>C++ \<open>/\<close> on \<open>long\<close> truncates towards zero; HOL's \<open>div\<close> rounds down.\<close>

definition cpp_div :: "int \<Rightarrow> int \<Rightarrow> int" where
  "cpp_div a b = sgn a * sgn b * (\<bar>a\<bar> div \<bar>b\<bar>)"

subsection \<open>Strings\<close>

text \<open>\<open>s.rfind(p, 0) == 0\<close>: the only match position allowed is 0, a prefix test.\<close>

definition starts_with :: "string \<Rightarrow> string \<Rightarrow> bool" where
  "starts_with p s \<longleftrightarrow> take (length p) s = p"

text \<open>Index of the first \<open>c\<close> at or after position \<open>i\<close>.\<close>

fun find_idx :: "char \<Rightarrow> string \<Rightarrow> nat \<Rightarrow> nat option" where
  "find_idx c [] i = None"
| "find_idx c (x # xs) i =
     (if i = 0 then (if x = c then Some 0 else map_option Suc (find_idx c xs 0))
      else map_option Suc (find_idx c xs (i - 1)))"

definition npos :: size_t where
  "npos = - 1"

text \<open>\<open>s.find(c, pos)\<close> with \<open>size_t\<close> positions: \<open>npos\<close> when there is no match.\<close>

definition cpp_find :: "char \<Rightarrow> string \<Rightarrow> size_t \<Rightarrow> size_t" where
  "cpp_find c s pos = (case find_idx c s (unat pos) of None \<Rightarrow> npos | Some i \<Rightarrow> word_of_nat i)"

text \<open>\<open>s.substr(pos, n)\<close>: \<open>std::out_of_range\<close> when \<open>pos > s.size()\<close>.\<close>

definition cpp_substr :: "string \<Rightarrow> nat \<Rightarrow> nat \<Rightarrow> cpp_exc + string" where
  "cpp_substr s pos n = (if length s < pos then Inl OutOfRange else Inr (take n (drop pos s)))"

subsection \<open>Decimal printing: \<open>std::to_string\<close>\<close>

definition decimal_digits :: string where
  "decimal_digits = ''0123456789''"

definition digit_char :: "nat \<Rightarrow> char" where
  "digit_char d = decimal_digits ! d"

fun show_nat :: "nat \<Rightarrow> string" where
  "show_nat n = (if n < 10 then [digit_char n] else show_nat (n div 10) @ [digit_char (n mod 10)])"

declare show_nat.simps [simp del]

definition show_int :: "int \<Rightarrow> string" where
  "show_int i = (if i < 0 then CHR ''-'' # show_nat (nat (- i)) else show_nat (nat i))"

subsection \<open>Lists ranked by position\<close>

text \<open>
  A list of (owner, position) pairs in which the entry at index \<open>i\<close> holds a position of
  at least \<open>k + i\<close>: the shape of a counter that hands out positions in arrival order
  while earlier entries leave.
\<close>

fun ranked_from :: "int \<Rightarrow> ('a \<times> int) list \<Rightarrow> bool" where
  "ranked_from k [] = True"
| "ranked_from k (x # xs) = (k \<le> snd x \<and> ranked_from (k + 1) xs)"

subsection \<open>Decimal parsing: \<open>std::stoi\<close>, \<open>std::stol\<close>\<close>

text \<open>
  Both call \<open>strtol\<close>: leading white space (\<open>isspace\<close>) is skipped, one sign is
  read, then the longest run of decimal digits; trailing characters are ignored. No digit
  raises \<open>std::invalid_argument\<close>, a value outside the target type raises
  \<open>std::out_of_range\<close>.
\<close>

definition is_digit :: "char \<Rightarrow> bool" where
  "is_digit c \<longleftrightarrow> c \<in> set decimal_digits"

definition is_space :: "char \<Rightarrow> bool" where
  "is_space c \<longleftrightarrow> c \<in> set [CHR 0x20, CHR 0x09, CHR 0x0A, CHR 0x0B, CHR 0x0C, CHR 0x0D]"

definition digit_val :: "char \<Rightarrow> nat" where
  "digit_val c = length (takeWhile (\<lambda>x. x \<noteq> c) decimal_digits)"

definition dec_val :: "string \<Rightarrow> nat" where
  "dec_val ds = foldl (\<lambda>acc c. 10 * acc + digit_val c) 0 ds"

fun strip_sign :: "string \<Rightarrow> bool \<times> string" where
  "strip_sign (c # r) =
     (if c = CHR ''-'' then (True, r) else if c = CHR ''+'' then (False, r) else (False, c # r))"
| "strip_sign [] = (False, [])"

definition cpp_strtol :: "int \<Rightarrow> int \<Rightarrow> string \<Rightarrow> cpp_exc + int" where
  "cpp_strtol lo hi s =
     (case strip_sign (dropWhile is_space s) of
        (neg, s2) \<Rightarrow>
          let ds = takeWhile is_digit s2;
              v = (if neg then - int (dec_val ds) else int (dec_val ds))
          in if ds = [] then Inl InvalidArgument
             else if v < lo \<or> hi < v then Inl OutOfRange else Inr v)"

definition cpp_stoi :: "string \<Rightarrow> cpp_exc + int" where
  "cpp_stoi = cpp_strtol (- (2 ^ 31)) (2 ^ 31 - 1)"

definition cpp_stol :: "string \<Rightarrow> cpp_exc + int" where
  "cpp_stol = cpp_strtol (- (2 ^ 63)) (2 ^ 63 - 1)"

text \<open>
  \<open>std::stod\<close> on the decimal forms the sources read: optional white space and sign,
  digits, and an optional fraction after a point, at least one digit in all. The value is
  the exact rational the digits denote; exponents, hexadecimal forms, \<open>inf\<close> and
  \<open>nan\<close> are not modelled, and no decimal of this form is out of the range of
  \<open>double\<close> unless it has more than 308 integer digits.
\<close>

definition cpp_stod :: "string \<Rightarrow> cpp_exc + rat" where
  "cpp_stod s =
     (case strip_sign (dropWhile is_space s) of
        (neg, s2) \<Rightarrow>
          let ip = takeWhile is_digit s2;
              fp = (case dropWhile is_digit s2 of
                      c # r \<Rightarrow> if c = CHR ''.'' then takeWhile is_digit r else []
                    | [] \<Rightarrow> []);
              v = of_nat (dec_val ip) + of_nat (dec_val fp) / 10 ^ length fp
          in if ip = [] \<and> fp = [] then Inl InvalidArgument else Inr (if neg then - v else v))"

subsection \<open>Lemmas\<close>

lemma unat_npos: "unat npos = 2 ^ 64 - 1"
  unfolding npos_def by transfer (simp add: mask_eq_exp_minus_1 nat_diff_distrib)

lemma cpp_div_nonneg [model_simps]: "0 \<le> a \<Longrightarrow> 0 \<le> b \<Longrightarrow> cpp_div a b = a div b"
  by (cases "a = 0"; cases "b = 0") (auto simp: cpp_div_def sgn_if)

lemma cpp_div_neg [model_simps]: "a < 0 \<Longrightarrow> 0 < b \<Longrightarrow> cpp_div a b = - ((- a) div b)"
  by (simp add: cpp_div_def sgn_if)

lemma starts_with_append [simp]: "starts_with p (p @ s)"
  by (simp add: starts_with_def)

lemma starts_with_Cons_Nil [simp]: "starts_with [] s"
  by (simp add: starts_with_def)

lemma starts_with_Cons:
  "starts_with (a # p) s \<longleftrightarrow> (\<exists>s'. s = a # s' \<and> starts_with p s')"
  by (cases s) (auto simp: starts_with_def)

lemma starts_with_iff: "starts_with p s \<longleftrightarrow> (\<exists>r. s = p @ r)"
  by (metis append_take_drop_id starts_with_append starts_with_def)

lemma show_nat_nonempty [simp]: "show_nat n \<noteq> []"
  by (subst show_nat.simps) simp

lemma digit_char_mem: "d < 10 \<Longrightarrow> digit_char d \<in> set decimal_digits"
  unfolding digit_char_def by (rule nth_mem) (simp add: decimal_digits_def)

lemma set_show_nat: "set (show_nat n) \<subseteq> set decimal_digits"
proof (induction n rule: show_nat.induct)
  case (1 n)
  then show ?case by (subst show_nat.simps) (auto intro: digit_char_mem)
qed

lemma show_nat_no_char:
  "c \<notin> set decimal_digits \<Longrightarrow> c \<notin> set (show_nat n)"
  using set_show_nat [of n] by blast

lemma show_int_no_sep [simp]:
  "CHR '':'' \<notin> set (show_int i)" "CHR '','' \<notin> set (show_int i)" "CHR 0x00 \<notin> set (show_int i)"
  by (simp_all add: show_int_def show_nat_no_char decimal_digits_def)

lemma ranked_from_mono: "ranked_from k xs \<Longrightarrow> k' \<le> k \<Longrightarrow> ranked_from k' xs"
  by (induction xs arbitrary: k k') fastforce+

lemma ranked_from_snoc:
  "ranked_from k xs \<Longrightarrow> k + int (length xs) \<le> p \<Longrightarrow> ranked_from k (xs @ [(c, p)])"
  by (induction xs arbitrary: k) (auto simp: algebra_simps)

lemma ranked_from_remove1: "ranked_from k xs \<Longrightarrow> ranked_from k (remove1 y xs)"
  by (induction xs arbitrary: k) (auto intro: ranked_from_mono)

lemma ranked_from_count:
  "ranked_from k xs \<Longrightarrow> int (length (filter (\<lambda>x. snd x \<le> b) xs)) \<le> max 0 (b - k + 1)"
  by (induction xs arbitrary: k) fastforce+

lemma distinct_fst_remove1: "distinct (map fst xs) \<Longrightarrow> distinct (map fst (remove1 x xs))"
  by (induction xs) (auto dest: subsetD [OF set_remove1_subset])

lemma set_remove1_distinct_fst:
  "distinct (map fst xs) \<Longrightarrow> x \<in> set xs \<Longrightarrow> set (remove1 x xs) = set xs - {x}"
  by (simp add: distinct_map set_remove1_eq)

lemma length_remove1_int: "x \<in> set xs \<Longrightarrow> int (length (remove1 x xs)) = int (length xs) - 1"
proof -
  assume "x \<in> set xs"
  then have "0 < length xs" by (rule length_pos_if_in_set)
  then obtain n where "length xs = Suc n" by (cases "length xs") auto
  with \<open>x \<in> set xs\<close> show ?thesis by (simp add: length_remove1)
qed

lemma remove1_key_gone:
  "distinct (map fst xs) \<Longrightarrow> (k, v) \<in> set xs \<Longrightarrow> (k, w) \<notin> set (remove1 (k, v) xs)"
  by (auto simp: set_remove1_distinct_fst dest: eq_key_imp_eq_value)

lemma length_filter_mono_on:
  "(\<And>x. x \<in> set xs \<Longrightarrow> P x \<Longrightarrow> Q x) \<Longrightarrow> length (filter P xs) \<le> length (filter Q xs)"
  by (induction xs) auto

lemma filter_remove1_neg: "\<not> P y \<Longrightarrow> filter P (remove1 y xs) = filter P xs"
  by (induction xs) auto

lemma takeWhile_ne_nth_distinct:
  "distinct xs \<Longrightarrow> d < length xs \<Longrightarrow> length (takeWhile (\<lambda>x. x \<noteq> xs ! d) xs) = d"
proof (induction xs arbitrary: d)
  case Nil
  then show ?case by simp
next
  case (Cons x xs)
  show ?case
  proof (cases d)
    case 0
    then show ?thesis by simp
  next
    case (Suc d')
    with Cons.prems have "xs ! d' \<noteq> x" by (auto dest: nth_mem)
    with Cons Suc show ?thesis by simp
  qed
qed

lemma digit_val_char [simp]: "d < 10 \<Longrightarrow> digit_val (digit_char d) = d"
  unfolding digit_val_def digit_char_def
  by (rule takeWhile_ne_nth_distinct) (simp_all add: decimal_digits_def)

lemma is_digit_char [simp]: "d < 10 \<Longrightarrow> is_digit (digit_char d)"
  by (simp add: is_digit_def digit_char_mem)

lemma dec_val_snoc: "dec_val (xs @ [c]) = 10 * dec_val xs + digit_val c"
  by (simp add: dec_val_def)

lemma dec_val_show_nat [simp]: "dec_val (show_nat n) = n"
proof (induction n rule: show_nat.induct)
  case (1 n)
  show ?case
  proof (cases "n < 10")
    case True
    then show ?thesis by (subst show_nat.simps) (simp add: dec_val_def)
  next
    case False
    with "1.IH" have "dec_val (show_nat (n div 10)) = n div 10" by simp
    with False show ?thesis by (subst show_nat.simps) (simp add: dec_val_snoc)
  qed
qed

lemma all_digits_show_nat: "\<forall>c \<in> set (show_nat n). is_digit c"
  using set_show_nat by (auto simp: is_digit_def)

lemma takeWhile_digits_show_nat:
  "(r = [] \<or> \<not> is_digit (hd r)) \<Longrightarrow> takeWhile is_digit (show_nat n @ r) = show_nat n"
  using all_digits_show_nat [of n] by (cases r) (auto simp: takeWhile_append2)

lemma show_nat_hd: "\<exists>d < 10. \<exists>r. show_nat n = digit_char d # r"
proof (induction n rule: show_nat.induct)
  case (1 n)
  then show ?case by (subst show_nat.simps) (cases "n < 10"; force)
qed

lemma digit_char_plain:
  "d < 10 \<Longrightarrow> \<not> is_space (digit_char d) \<and> digit_char d \<noteq> CHR ''-'' \<and> digit_char d \<noteq> CHR ''+''"
  by (auto simp: is_space_def digit_char_def decimal_digits_def less_Suc_eq numeral_eq_Suc)

lemma show_nat_plain:
  "dropWhile is_space (show_nat m @ r) = show_nat m @ r \<and> strip_sign (show_nat m @ r) = (False, show_nat m @ r)"
proof -
  obtain d t where "d < 10" "show_nat m = digit_char d # t"
    using show_nat_hd by blast
  then show ?thesis using digit_char_plain [of d] by simp
qed

lemma cpp_strtol_show_int:
  assumes "lo \<le> n" "n \<le> hi" "r = [] \<or> \<not> is_digit (hd r)"
  shows "cpp_strtol lo hi (show_int n @ r) = Inr n"
proof (cases "n < 0")
  case True
  have "\<not> is_space CHR ''-''" by (simp add: is_space_def)
  with True assms show ?thesis
    by (simp add: cpp_strtol_def show_int_def takeWhile_digits_show_nat)
next
  case False
  with assms show ?thesis
    by (simp add: cpp_strtol_def show_int_def takeWhile_digits_show_nat show_nat_plain)
qed

subsection \<open>Locating separators with \<open>find\<close>\<close>

lemma find_idx_skip:
  "length xs \<le> i \<Longrightarrow> find_idx c (xs @ ys) i = map_option (\<lambda>j. j + length xs) (find_idx c ys (i - length xs))"
  by (induction xs arbitrary: i) (auto simp: option.map_comp o_def option.map_ident)

lemma find_idx_append_miss:
  "c \<notin> set xs \<Longrightarrow> find_idx c (xs @ ys) i =
     map_option (\<lambda>j. j + length xs) (find_idx c ys (i - length xs))"
  by (induction xs arbitrary: i) (auto simp: option.map_comp o_def option.map_ident)

lemma find_idx_skip_hit:
  "c \<notin> set xs \<Longrightarrow> i \<le> length xs \<Longrightarrow> find_idx c (xs @ c # ys) i = Some (length xs)"
  by (simp add: find_idx_append_miss)

lemma unat_word_of_small: "n < 2 ^ 64 \<Longrightarrow> unat (word_of_nat n :: size_t) = n"
  by (simp add: unat_of_nat)

text \<open>A \<open>size_t\<close> below \<open>2\<^sup>3\<^sup>1\<close> keeps its value when converted to \<open>int\<close>.\<close>

lemma int_to_32_small:
  "m < 2 ^ 31 \<Longrightarrow> sint (ucast (word_of_nat m :: size_t) :: 32 word) = int m"
  by (simp add: unsigned_of_nat take_bit_nat_eq_self signed_of_nat signed_take_bit_int_eq_self)

lemma word_of_small_ne_npos: "n < 2 ^ 64 - 1 \<Longrightarrow> (word_of_nat n :: size_t) \<noteq> npos"
proof
  assume n: "n < 2 ^ 64 - 1" and eq: "(word_of_nat n :: size_t) = npos"
  then have "unat (word_of_nat n :: size_t) = unat npos" by simp
  with n show False by (simp add: unat_of_nat unat_npos)
qed

text \<open>The two \<open>find\<close> calls that split \<open>a c b c r\<close> at its first two separators.\<close>

lemma cpp_find_first:
  assumes "c \<notin> set a" "length a < 2 ^ 64"
  shows "cpp_find c (a @ c # r) 0 = word_of_nat (length a)"
  using assms by (simp add: cpp_find_def find_idx_skip_hit)

lemma cpp_find_second:
  assumes "c \<notin> set b" "Suc (length a + length b) < 2 ^ 64"
  shows "cpp_find c (a @ c # b @ c # r) (word_of_nat (length a) + 1) = word_of_nat (Suc (length a + length b))"
proof -
  have "find_idx c ((a @ [c]) @ (b @ c # r)) (Suc (length a)) =
      map_option (\<lambda>j. j + length (a @ [c])) (find_idx c (b @ c # r) (Suc (length a) - length (a @ [c])))"
    by (rule find_idx_skip) simp
  also have "\<dots> = Some (Suc (length a + length b))"
    using assms(1) by (simp add: find_idx_skip_hit)
  finally have f: "find_idx c (a @ c # b @ c # r) (Suc (length a)) = Some (Suc (length a + length b))"
    by simp
  have "word_of_nat (length a) + (1 :: size_t) = word_of_nat (Suc (length a))" by simp
  moreover have "Suc (length a) < 2 ^ 64" using assms(2) by simp
  ultimately show ?thesis using f by (simp add: cpp_find_def unat_word_of_small del: of_nat_Suc)
qed

subsection \<open>Counting and summing over permutations\<close>

lemma length_filter_mset:
  "mset xs = mset ys \<Longrightarrow> length (filter P xs) = length (filter P ys)"
proof -
  assume eq: "mset xs = mset ys"
  have "length (filter P xs) = size (filter_mset P (mset xs))" by (simp flip: mset_filter)
  also have "\<dots> = size (filter_mset P (mset ys))" by (simp only: eq)
  also have "\<dots> = length (filter P ys)" by (simp flip: mset_filter)
  finally show ?thesis .
qed

lemma sum_list_filter_mset:
  fixes f :: "'a \<Rightarrow> 'b::comm_monoid_add"
  shows "mset xs = mset ys \<Longrightarrow> sum_list (map f (filter P xs)) = sum_list (map f (filter P ys))"
proof -
  assume eq: "mset xs = mset ys"
  have "sum_list (map f (filter P xs)) = sum_mset (image_mset f (filter_mset P (mset xs)))"
    by (simp flip: sum_mset_sum_list mset_filter)
  also have "\<dots> = sum_mset (image_mset f (filter_mset P (mset ys)))" by (simp only: eq)
  also have "\<dots> = sum_list (map f (filter P ys))"
    by (simp flip: sum_mset_sum_list mset_filter)
  finally show ?thesis .
qed

lemma int_length_filter_update:
  "i < length xs \<Longrightarrow> int (length (filter P (xs[i := y]))) =
     int (length (filter P xs)) - (if P (xs ! i) then 1 else 0) + (if P y then 1 else 0)"
proof (induction xs arbitrary: i)
  case Nil
  then show ?case by simp
next
  case (Cons a xs)
  show ?case
  proof (cases i)
    case 0
    then show ?thesis by simp
  next
    case (Suc j)
    with Cons.prems have "j < length xs" by simp
    from Cons.IH [OF this] Suc show ?thesis by (cases "P (xs ! j)"; cases "P y"; simp)
  qed
qed

end
