(* ===== verification/Wire.thy ===== *)
theory Wire
  imports Prelude
begin

text \<open>
  The colon-delimited text frames of the offload protocol, as the sources build and read
  them: the request the ED client sends (\<open>run_request\<close>), the broker's replies
  (\<open>handle_request\<close>), the client's acknowledgment, and how each side turns the bytes
  of one \<open>recv\<close> into a \<open>std::string\<close>. The broker reads into a zeroed 256-byte buffer
  and builds the string from the C string (up to the first NUL); the client builds it
  from exactly the bytes received.
\<close>

subsection \<open>Frames\<close>

definition req_msg :: "token \<Rightarrow> string \<Rightarrow> string \<Rightarrow> string" where
  "req_msg token_ed model dev = ''REQ:'' @ show_int token_ed @ '':'' @ model @ '':'' @ dev"

definition grant_msg :: "int \<Rightarrow> string" where
  "grant_msg token_ec = ''GRANT:'' @ show_int token_ec"

definition drop_msg :: string where
  "drop_msg = ''DROP''"

definition ok_msg :: "string \<Rightarrow> token \<Rightarrow> string" where
  "ok_msg token_ec token_ed = ''OK:'' @ token_ec @ '':'' @ show_int token_ed"

definition done_msg :: string where
  "done_msg = ''DONE''"

subsection \<open>Receiving\<close>

text \<open>
  \<open>char buffer[256] = {0}; recv(sock, buffer, 255, 0); std::string request(buffer);\<close>:
  at most 255 bytes, cut at the first NUL. A failed \<open>recv\<close> leaves the buffer zeroed,
  which is the empty byte list here.
\<close>

definition cstr_of_buf :: "string \<Rightarrow> string" where
  "cstr_of_buf bytes = takeWhile (\<lambda>ch. ch \<noteq> CHR 0x00) (take 255 bytes)"

text \<open>
  The broker's reading of \<open>token_ed\<close>: \<open>pos1 = find(':')\<close>,
  \<open>pos2 = find(':', pos1 + 1)\<close>, \<open>substr(pos1 + 1, pos2 - pos1 - 1)\<close>, all in
  \<open>size_t\<close>, so \<open>pos2 - pos1 - 1\<close> wraps when \<open>pos2\<close> is \<open>npos\<close>.
\<close>

definition ec_token_ed :: "string \<Rightarrow> cpp_exc + string" where
  "ec_token_ed request =
     (let pos1 = cpp_find CHR '':'' request 0;
          pos2 = cpp_find CHR '':'' request (pos1 + 1)
      in cpp_substr request (unat (pos1 + 1)) (unat (pos2 - pos1 - 1)))"

subsection \<open>Facts about frames\<close>

lemma frames_no_nul [simp]:
  "CHR 0x00 \<notin> set (req_msg t m d) \<longleftrightarrow> CHR 0x00 \<notin> set m \<and> CHR 0x00 \<notin> set d"
  "CHR 0x00 \<notin> set (grant_msg p)"
  "CHR 0x00 \<notin> set (ok_msg e t) \<longleftrightarrow> CHR 0x00 \<notin> set e"
  by (auto simp: req_msg_def grant_msg_def ok_msg_def)

lemma cstr_of_buf_plain: "CHR 0x00 \<notin> set s \<Longrightarrow> length s \<le> 255 \<Longrightarrow> cstr_of_buf s = s"
  by (auto simp: cstr_of_buf_def takeWhile_eq_all_conv)

lemma ec_token_ed_split:
  assumes "CHR '':'' \<notin> set a" "CHR '':'' \<notin> set b" "length (a @ b) < 2 ^ 63"
  shows "ec_token_ed (a @ CHR '':'' # b @ CHR '':'' # r) = Inr b"
proof -
  let ?req = "a @ CHR '':'' # b @ CHR '':'' # r"
  have p1: "cpp_find CHR '':'' ?req 0 = word_of_nat (length a)"
    using assms by (intro cpp_find_first) simp_all
  have p2: "cpp_find CHR '':'' ?req (word_of_nat (length a) + 1) = word_of_nat (Suc (length a + length b))"
    using assms by (intro cpp_find_second) simp_all
  have len: "word_of_nat (Suc (length a + length b)) - word_of_nat (length a) - 1 = (word_of_nat (length b) :: size_t)"
    by simp
  have "unat (word_of_nat (length a) + 1 :: size_t) = Suc (length a)"
  proof -
    have e: "(word_of_nat (length a) + 1 :: size_t) = word_of_nat (Suc (length a))" by simp
    have "unat (word_of_nat (Suc (length a)) :: size_t) = Suc (length a)"
      using assms(3) by (intro unat_word_of_small) simp
    then show ?thesis by (simp only: e)
  qed
  moreover have "unat (word_of_nat (length b) :: size_t) = length b"
    using assms(3) by (simp add: unat_word_of_small)
  ultimately show ?thesis
    unfolding ec_token_ed_def Let_def p1 p2 len by (simp add: cpp_substr_def)
qed

text \<open>
  C16: the broker reads back the device's token. For a request frame that fits the
  broker's 255-byte read and whose model and device fields have no NUL byte,
  \<open>handle_request\<close>'s two \<open>find\<close>s and \<open>substr\<close> yield exactly the decimal text
  of the token the client put in it.
\<close>

theorem ec_reads_client_token:
  assumes "CHR 0x00 \<notin> set m" "CHR 0x00 \<notin> set d" "length (req_msg t m d) \<le> 255"
  shows "ec_token_ed (cstr_of_buf (req_msg t m d)) = Inr (show_int t)"
proof -
  have "cstr_of_buf (req_msg t m d) = req_msg t m d"
    using assms by (intro cstr_of_buf_plain) simp_all
  moreover have "req_msg t m d = ''REQ'' @ CHR '':'' # show_int t @ CHR '':'' # (m @ '':'' @ d)"
    by (simp add: req_msg_def)
  moreover have "ec_token_ed (''REQ'' @ CHR '':'' # show_int t @ CHR '':'' # (m @ '':'' @ d)) = Inr (show_int t)"
    using assms(3) by (intro ec_token_ed_split) (simp_all add: req_msg_def)
  ultimately show ?thesis by simp
qed

theorem ec_reads_client_token_witness:
  "ec_token_ed (cstr_of_buf (req_msg 42 ''yolov5s6'' ''PI5'')) = Inr ''42''"
  using ec_reads_client_token [of "''yolov5s6''" "''PI5''" 42]
  by (simp add: req_msg_def show_int_def show_nat.simps digit_char_def decimal_digits_def)

end
