(* ===== verification/Broker.thy ===== *)
theory Broker
  imports Wire
begin

text \<open>
  The EC-side offload broker, \<open>src/Experiment_May15/EC_OMS_May15_YOLOv5s6.cpp\<close>.
  \<open>main\<close> accepts connections and starts one detached thread per connection running
  \<open>handle_request\<close>; the threads share \<open>queue_size\<close>, \<open>tasks_on_ec\<close> and
  \<open>tasks_dropped\<close> under \<open>queue_mutex\<close>. Each thread is a connection of
  \<open>conns\<close> whose phase records how far \<open>handle_request\<close> has run; each event is one
  step of one thread between two shared-state accesses, so a list of events is one
  interleaving of the threads. The field \<open>slots\<close> is ghost state for the proofs: the
  connections whose \<open>queue_size++\<close> has not been matched by a \<open>queue_size--\<close>, in
  the order of their increments, each with the position it read. No operation reads it.
\<close>

subsection \<open>State\<close>

datatype conn_phase =
    AwaitRequest      \<comment> \<open>accepted; \<open>recv\<close> of the request pending\<close>
  | Counted int       \<comment> \<open>\<open>local_queue = queue_size++\<close> done; decision pending\<close>
  | AwaitAck int      \<comment> \<open>\<open>GRANT:<token_ec>\<close> sent; \<open>recv\<close> of the ack pending\<close>
  | Running int       \<comment> \<open>ack starts with \<open>OK:\<close>; inference, \<open>DONE\<close> and release pending\<close>
  | Dropping int      \<comment> \<open>\<open>DROP\<close> sent; release pending\<close>
  | Closed            \<comment> \<open>\<open>close(client_socket)\<close> done\<close>

record ec_state =
  queue_size :: int
  tasks_on_ec :: int
  tasks_dropped :: int
  conns :: "conn_phase list"
  sent :: "(conn_id \<times> string) list"
  slots :: "(conn_id \<times> int) list"

definition ec_init :: ec_state where
  "ec_init = \<lparr>queue_size = 0, tasks_on_ec = 0, tasks_dropped = 0, conns = [],
              sent = [], slots = []\<rparr>"

datatype ec_event =
    Accept
  | RecvRequest conn_id string
  | Decide conn_id
  | RecvAck conn_id string
  | FinishTask conn_id
  | FinishDrop conn_id

subsection \<open>Operations\<close>

text \<open>\<open>wait_ms = static_cast<int>(local_queue * 68.71)\<close>: truncation towards zero,
  computed with the decimal value of the constant.\<close>

definition ec_wait_ms :: "int \<Rightarrow> int" where
  "ec_wait_ms local_queue = cpp_div (local_queue * 6871) 100"

definition ec_admits :: "int \<Rightarrow> bool" where
  "ec_admits local_queue \<longleftrightarrow> ec_wait_ms local_queue \<le> 550"

definition set_conn :: "conn_id \<Rightarrow> conn_phase \<Rightarrow> ec_state \<Rightarrow> ec_state" where
  "set_conn c ph s = s\<lparr>conns := (conns s)[c := ph]\<rparr>"

definition ec_send :: "conn_id \<Rightarrow> string \<Rightarrow> ec_state \<Rightarrow> ec_state" where
  "ec_send c m s = s\<lparr>sent := sent s @ [(c, m)]\<rparr>"

definition ec_accept :: "ec_state \<Rightarrow> ec_state" where
  "ec_accept s = s\<lparr>conns := conns s @ [AwaitRequest]\<rparr>"

definition ec_recv_request :: "conn_id \<Rightarrow> string \<Rightarrow> ec_state \<Rightarrow> ec_state" where
  "ec_recv_request c buf s =
     (if starts_with ''REQ:'' (cstr_of_buf buf)
      then set_conn c (Counted (queue_size s))
             (s\<lparr>queue_size := queue_size s + 1, slots := slots s @ [(c, queue_size s)]\<rparr>)
      else set_conn c Closed s)"

definition ec_decide :: "conn_id \<Rightarrow> int \<Rightarrow> ec_state \<Rightarrow> ec_state" where
  "ec_decide c local_queue s =
     (if ec_admits local_queue
      then set_conn c (AwaitAck local_queue) (ec_send c (grant_msg local_queue) s)
      else set_conn c (Dropping local_queue) (ec_send c drop_msg s))"

definition ec_recv_ack :: "conn_id \<Rightarrow> int \<Rightarrow> string \<Rightarrow> ec_state \<Rightarrow> ec_state" where
  "ec_recv_ack c token_ec buf s =
     (if starts_with ''OK:'' (cstr_of_buf buf) then set_conn c (Running token_ec) s
      else set_conn c Closed s)"

text \<open>The release under \<open>queue_mutex\<close> shared by both completions, then \<open>close\<close>.\<close>

definition ec_release :: "conn_id \<Rightarrow> int \<Rightarrow> ec_state \<Rightarrow> ec_state" where
  "ec_release c p s =
     set_conn c Closed (s\<lparr>queue_size := queue_size s - 1, slots := remove1 (c, p) (slots s)\<rparr>)"

definition ec_finish_task :: "conn_id \<Rightarrow> int \<Rightarrow> ec_state \<Rightarrow> ec_state" where
  "ec_finish_task c token_ec s =
     ec_release c token_ec ((ec_send c done_msg s)\<lparr>tasks_on_ec := tasks_on_ec s + 1\<rparr>)"

definition ec_finish_drop :: "conn_id \<Rightarrow> int \<Rightarrow> ec_state \<Rightarrow> ec_state" where
  "ec_finish_drop c local_queue s =
     ec_release c local_queue (s\<lparr>tasks_dropped := tasks_dropped s + 1\<rparr>)"

definition conn_at :: "ec_state \<Rightarrow> conn_id \<Rightarrow> conn_phase option" where
  "conn_at s c = (if c < length (conns s) then Some (conns s ! c) else None)"

fun ec_step :: "ec_state \<Rightarrow> ec_event \<Rightarrow> ec_state option" where
  "ec_step s Accept = Some (ec_accept s)"
| "ec_step s (RecvRequest c buf) =
     (case conn_at s c of Some AwaitRequest \<Rightarrow> Some (ec_recv_request c buf s) | _ \<Rightarrow> None)"
| "ec_step s (Decide c) =
     (case conn_at s c of Some (Counted p) \<Rightarrow> Some (ec_decide c p s) | _ \<Rightarrow> None)"
| "ec_step s (RecvAck c buf) =
     (case conn_at s c of Some (AwaitAck p) \<Rightarrow> Some (ec_recv_ack c p buf s) | _ \<Rightarrow> None)"
| "ec_step s (FinishTask c) =
     (case conn_at s c of Some (Running p) \<Rightarrow> Some (ec_finish_task c p s) | _ \<Rightarrow> None)"
| "ec_step s (FinishDrop c) =
     (case conn_at s c of Some (Dropping p) \<Rightarrow> Some (ec_finish_drop c p s) | _ \<Rightarrow> None)"

fun ec_run :: "ec_state \<Rightarrow> ec_event list \<Rightarrow> ec_state option" where
  "ec_run s [] = Some s"
| "ec_run s (e # es) = (case ec_step s e of None \<Rightarrow> None | Some s' \<Rightarrow> ec_run s' es)"

inductive ec_reachable :: "ec_state \<Rightarrow> bool" where
  init: "ec_reachable ec_init"
| step: "ec_reachable s \<Longrightarrow> ec_step s e = Some s' \<Longrightarrow> ec_reachable s'"

subsection \<open>Invariant\<close>

fun slot_of :: "conn_phase \<Rightarrow> int option" where
  "slot_of (Counted p) = Some p"
| "slot_of (AwaitAck p) = Some p"
| "slot_of (Running p) = Some p"
| "slot_of (Dropping p) = Some p"
| "slot_of _ = None"

fun admitted_phase :: "conn_phase \<Rightarrow> bool" where
  "admitted_phase (AwaitAck p) = True"
| "admitted_phase (Running p) = True"
| "admitted_phase _ = False"

definition admitted_count :: "ec_state \<Rightarrow> nat" where
  "admitted_count s = length (filter admitted_phase (conns s))"

definition ec_inv :: "ec_state \<Rightarrow> bool" where
  "ec_inv s \<longleftrightarrow>
     queue_size s = int (length (slots s)) \<and>
     ranked_from 0 (slots s) \<and>
     distinct (map fst (slots s)) \<and>
     (\<forall>c < length (conns s). \<forall>p. slot_of (conns s ! c) = Some p \<longrightarrow> (c, p) \<in> set (slots s)) \<and>
     (\<forall>x \<in> set (slots s). fst x < length (conns s) \<and> conns s ! fst x \<noteq> AwaitRequest) \<and>
     (\<forall>c < length (conns s). admitted_phase (conns s ! c) \<longrightarrow>
        (\<exists>p. slot_of (conns s ! c) = Some p \<and> ec_admits p))"

definition holder_count :: "ec_state \<Rightarrow> nat" where
  "holder_count s = length (filter (\<lambda>ph. slot_of ph \<noteq> None) (conns s))"

text \<open>A schedule in which one client connects and sends its request.\<close>

definition count_round :: "conn_id \<Rightarrow> ec_event list" where
  "count_round i = [Accept, RecvRequest i (req_msg (int i) ''yolov5s6'' ''PI5'')]"

text \<open>Slots whose connection closed without releasing them.\<close>

definition leaked_count :: "ec_state \<Rightarrow> nat" where
  "leaked_count s = length (filter (\<lambda>x. conns s ! fst x = Closed) (slots s))"

definition late_rejected :: "nat \<Rightarrow> ec_state \<Rightarrow> bool" where
  "late_rejected n0 s \<longleftrightarrow>
     (\<forall>c. n0 \<le> c \<longrightarrow> c < length (conns s) \<longrightarrow>
        (\<forall>p. slot_of (conns s ! c) = Some p \<longrightarrow> 9 \<le> p) \<and> \<not> admitted_phase (conns s ! c))"

text \<open>A schedule in which one client is granted a slot and its acknowledgment never arrives.\<close>

definition leak_round :: "conn_id \<Rightarrow> ec_event list" where
  "leak_round i = [Accept, RecvRequest i (req_msg (int i) ''yolov5s6'' ''PI5''), Decide i, RecvAck i []]"

subsection \<open>Lemmas\<close>

lemma ec_inv_init: "ec_inv ec_init"
  by (simp add: ec_inv_def ec_init_def)

lemma conn_at_Some: "conn_at s c = Some ph \<longleftrightarrow> c < length (conns s) \<and> conns s ! c = ph"
  by (auto simp: conn_at_def)


lemma ec_wait_ms_mono: "0 \<le> a \<Longrightarrow> a \<le> b \<Longrightarrow> ec_wait_ms a \<le> ec_wait_ms b"
  unfolding ec_wait_ms_def by (auto simp: cpp_div_nonneg intro!: zdiv_mono1 mult_right_mono)

lemma ec_admits_le8: "ec_admits p \<Longrightarrow> p \<le> 8"
proof (rule ccontr)
  assume adm: "ec_admits p" and "\<not> p \<le> 8"
  then have "9 \<le> p" by simp
  then have "ec_wait_ms 9 \<le> ec_wait_ms p" by (simp add: ec_wait_ms_mono)
  moreover have "618 \<le> ec_wait_ms 9" by (simp add: ec_wait_ms_def cpp_div_nonneg)
  ultimately show False using adm by (simp add: ec_admits_def)
qed

lemma inv_accept: "ec_inv s \<Longrightarrow> ec_inv (ec_accept s)"
  unfolding ec_inv_def ec_accept_def by (auto simp: nth_append)

lemma inv_recv_request:
  assumes "ec_inv s" "conn_at s c = Some AwaitRequest"
  shows "ec_inv (ec_recv_request c buf s)"
proof -
  from assms have c: "c < length (conns s)" "conns s ! c = AwaitRequest"
    by (auto simp: conn_at_Some)
  from assms(1) c have fresh: "c \<notin> fst ` set (slots s)"
    by (fastforce simp: ec_inv_def)
  show ?thesis
    using assms(1) c fresh
    unfolding ec_inv_def ec_recv_request_def set_conn_def
    by (auto simp: nth_list_update ranked_from_snoc split: if_splits)
qed

lemma inv_decide:
  assumes "ec_inv s" "conn_at s c = Some (Counted p)"
  shows "ec_inv (ec_decide c p s)"
proof -
  from assms have c: "c < length (conns s)" "conns s ! c = Counted p"
    by (auto simp: conn_at_Some)
  with assms(1) have "(c, p) \<in> set (slots s)"
    by (fastforce simp: ec_inv_def)
  with assms(1) c show ?thesis
    unfolding ec_inv_def ec_decide_def set_conn_def ec_send_def
    by (auto simp: nth_list_update split: if_splits)
qed

lemma inv_recv_ack:
  assumes "ec_inv s" "conn_at s c = Some (AwaitAck p)"
  shows "ec_inv (ec_recv_ack c p buf s)"
proof -
  from assms have c: "c < length (conns s)" "conns s ! c = AwaitAck p"
    by (auto simp: conn_at_Some)
  with assms(1) have "(c, p) \<in> set (slots s)" "ec_admits p"
    by (fastforce simp: ec_inv_def)+
  with assms(1) c show ?thesis
    unfolding ec_inv_def ec_recv_ack_def set_conn_def
    by (auto simp: nth_list_update split: if_splits)
qed


lemma inv_release:
  assumes inv: "ec_inv s" and c: "c < length (conns s)" "slot_of (conns s ! c) = Some p"
  shows "ec_inv (ec_release c p s)"
proof -
  from inv c have mem: "(c, p) \<in> set (slots s)"
    by (fastforce simp: ec_inv_def)
  from inv have d: "distinct (map fst (slots s))"
    by (simp add: ec_inv_def)
  have gone: "(c, q) \<notin> set (remove1 (c, p) (slots s))" for q
    using d mem by (rule remove1_key_gone)
  show ?thesis
    using inv c mem d gone
    unfolding ec_inv_def ec_release_def set_conn_def
    by (auto simp: nth_list_update length_remove1_int ranked_from_remove1 distinct_fst_remove1
                   set_remove1_distinct_fst dest: subsetD [OF set_remove1_subset] split: if_splits)
qed

lemma inv_finish_task:
  "ec_inv s \<Longrightarrow> conn_at s c = Some (Running p) \<Longrightarrow> ec_inv (ec_finish_task c p s)"
  unfolding ec_finish_task_def
  by (rule inv_release) (auto simp: ec_inv_def ec_send_def conn_at_Some)

lemma inv_finish_drop:
  "ec_inv s \<Longrightarrow> conn_at s c = Some (Dropping p) \<Longrightarrow> ec_inv (ec_finish_drop c p s)"
  unfolding ec_finish_drop_def
  by (rule inv_release) (auto simp: ec_inv_def conn_at_Some)


lemma ec_inv_step: "ec_inv s \<Longrightarrow> ec_step s e = Some s' \<Longrightarrow> ec_inv s'"
proof (cases e)
  case Accept
  then show "ec_inv s \<Longrightarrow> ec_step s e = Some s' \<Longrightarrow> ec_inv s'"
    by (auto intro: inv_accept)
qed (auto split: option.splits conn_phase.splits
          intro: inv_recv_request inv_decide inv_recv_ack inv_finish_task inv_finish_drop)

lemma ec_reachable_inv: "ec_reachable s \<Longrightarrow> ec_inv s"
  by (induction rule: ec_reachable.induct) (auto intro: ec_inv_init ec_inv_step)

lemma ec_run_reachable: "ec_reachable s \<Longrightarrow> ec_run s es = Some s' \<Longrightarrow> ec_reachable s'"
  by (induction es arbitrary: s) (auto split: option.splits intro: ec_reachable.step)

lemma ec_inv_filter_le:
  assumes inv: "ec_inv s"
    and held: "\<And>c. c < length (conns s) \<Longrightarrow> P (conns s ! c) \<Longrightarrow> slot_of (conns s ! c) \<noteq> None"
    and q: "\<And>c p. c < length (conns s) \<Longrightarrow> P (conns s ! c) \<Longrightarrow> slot_of (conns s ! c) = Some p \<Longrightarrow> Q p"
  shows "length (filter P (conns s)) \<le> length (filter (\<lambda>x. Q (snd x)) (slots s))"
proof -
  let ?A = "{c. c < length (conns s) \<and> P (conns s ! c)}"
  let ?f = "\<lambda>c. (c, the (slot_of (conns s ! c)))"
  let ?B = "set (filter (\<lambda>x. Q (snd x)) (slots s))"
  have "?f ` ?A \<subseteq> ?B"
  proof
    fix x assume "x \<in> ?f ` ?A"
    then obtain c where c: "c < length (conns s)" "P (conns s ! c)" and x: "x = ?f c"
      by blast
    with held obtain p where p: "slot_of (conns s ! c) = Some p"
      by blast
    with inv c have "(c, p) \<in> set (slots s)"
      by (auto simp: ec_inv_def)
    with q [OF c p] p x show "x \<in> ?B"
      by simp
  qed
  moreover have "inj_on ?f ?A"
    by (auto simp: inj_on_def)
  ultimately have "card ?A \<le> card ?B"
    by (simp add: card_inj_on_le)
  also have "\<dots> \<le> length (filter (\<lambda>x. Q (snd x)) (slots s))"
    by (rule card_length)
  finally show ?thesis
    by (simp add: length_filter_conv_card)
qed

lemma ec_inv_admitted_count: "ec_inv s \<Longrightarrow> admitted_count s \<le> 9"
proof -
  assume inv: "ec_inv s"
  have "admitted_count s \<le> length (filter (\<lambda>x. snd x \<le> 8) (slots s))"
    unfolding admitted_count_def
  proof (rule ec_inv_filter_le [OF inv])
    fix c p assume "c < length (conns s)" "admitted_phase (conns s ! c)"
      "slot_of (conns s ! c) = Some p"
    moreover from inv calculation(1,2) obtain p' where
      "slot_of (conns s ! c) = Some p'" "ec_admits p'"
      by (auto simp: ec_inv_def)
    ultimately show "p \<le> 8"
      by (auto dest: ec_admits_le8)
  next
    fix c assume "c < length (conns s)" "admitted_phase (conns s ! c)"
    then show "slot_of (conns s ! c) \<noteq> None"
      by (cases "conns s ! c") auto
  qed
  also have "int \<dots> \<le> 9"
    using ranked_from_count [of 0 "slots s" 8] inv by (simp add: ec_inv_def)
  finally show ?thesis by simp
qed

lemma ec_inv_holder_count: "ec_inv s \<Longrightarrow> int (holder_count s) \<le> queue_size s"
proof -
  assume inv: "ec_inv s"
  have "holder_count s \<le> length (filter (\<lambda>x. True) (slots s))"
    unfolding holder_count_def by (rule ec_inv_filter_le [OF inv]) auto
  with inv show ?thesis by (simp add: ec_inv_def)
qed

lemma leaked_le_queue: "ec_inv s \<Longrightarrow> int (leaked_count s) \<le> queue_size s"
  by (simp add: ec_inv_def leaked_count_def)

lemma leaked_release:
  assumes inv: "ec_inv s" and c: "c < length (conns s)" "slot_of (conns s ! c) = Some p"
  shows "leaked_count s \<le> leaked_count (ec_release c p s)"
proof -
  let ?P = "\<lambda>x. conns s ! fst x = Closed"
  let ?Q = "\<lambda>x. (conns s)[c := Closed] ! fst x = Closed"
  from inv c have mem: "(c, p) \<in> set (slots s)" and d: "distinct (map fst (slots s))"
    by (fastforce simp: ec_inv_def)+
  have notc: "fst x \<noteq> c" if "x \<in> set (remove1 (c, p) (slots s))" for x
    using that remove1_key_gone [OF d mem] by (metis prod.collapse)
  have "\<not> ?P (c, p)" using c by auto
  then have "filter ?P (slots s) = filter ?P (remove1 (c, p) (slots s))"
    by (simp add: filter_remove1_neg)
  also have "\<dots> = filter ?Q (remove1 (c, p) (slots s))"
    by (rule filter_cong) (auto dest: notc)
  finally show ?thesis
    by (simp add: leaked_count_def ec_release_def set_conn_def)
qed

lemma leaked_step:
  assumes inv: "ec_inv s" and st: "ec_step s e = Some s'"
  shows "leaked_count s \<le> leaked_count s'"
proof (cases e)
  case Accept
  with inv st show ?thesis
    by (auto simp: leaked_count_def ec_accept_def ec_inv_def nth_append
             intro!: length_filter_mono_on)
next
  case (RecvRequest c buf)
  with st have c: "c < length (conns s)" "conns s ! c = AwaitRequest"
    and s': "s' = ec_recv_request c buf s"
    by (auto simp: conn_at_Some split: option.splits conn_phase.splits)
  have "leaked_count s \<le> length (filter (\<lambda>x. conns s' ! fst x = Closed) (slots s))"
    using inv c s' by (auto simp: leaked_count_def ec_inv_def ec_recv_request_def set_conn_def
                             nth_list_update intro!: length_filter_mono_on)
  also have "\<dots> \<le> leaked_count s'"
    using s' by (auto simp: leaked_count_def ec_recv_request_def set_conn_def)
  finally show ?thesis .
next
  case (Decide c)
  with inv st show ?thesis
    by (auto simp: leaked_count_def ec_inv_def ec_decide_def set_conn_def ec_send_def conn_at_Some
             nth_list_update split: option.splits conn_phase.splits intro!: length_filter_mono_on)
next
  case (RecvAck c buf)
  with inv st show ?thesis
    by (auto simp: leaked_count_def ec_inv_def ec_recv_ack_def set_conn_def conn_at_Some
             nth_list_update split: option.splits conn_phase.splits intro!: length_filter_mono_on)
next
  case (FinishTask c)
  with st obtain p where "c < length (conns s)" "conns s ! c = Running p"
    "s' = ec_finish_task c p s"
    by (auto simp: conn_at_Some split: option.splits conn_phase.splits)
  with leaked_release [of "(ec_send c done_msg s)\<lparr>tasks_on_ec := tasks_on_ec s + 1\<rparr>" c p] inv
  show ?thesis
    by (simp add: ec_finish_task_def leaked_count_def ec_inv_def ec_send_def)
next
  case (FinishDrop c)
  with st obtain p where "c < length (conns s)" "conns s ! c = Dropping p"
    "s' = ec_finish_drop c p s"
    by (auto simp: conn_at_Some split: option.splits conn_phase.splits)
  with leaked_release [of "s\<lparr>tasks_dropped := tasks_dropped s + 1\<rparr>" c p] inv
  show ?thesis
    by (simp add: ec_finish_drop_def leaked_count_def ec_inv_def)
qed


lemma late_rejected_step:
  assumes inv: "ec_inv s" and lk: "9 \<le> leaked_count s" and lr: "late_rejected n0 s"
    and st: "ec_step s e = Some s'"
  shows "late_rejected n0 s'"
proof (cases e)
  case Accept
  with lr st show ?thesis
    by (auto simp: late_rejected_def ec_accept_def nth_append less_Suc_eq)
next
  case (RecvRequest c buf)
  from inv lk have "9 \<le> queue_size s"
    using leaked_le_queue [OF inv] by linarith
  with RecvRequest lr st show ?thesis
    by (auto simp: late_rejected_def ec_recv_request_def set_conn_def conn_at_Some nth_list_update
             split: option.splits conn_phase.splits if_splits)
next
  case (Decide c)
  with st obtain p where c: "c < length (conns s)" "conns s ! c = Counted p"
    and s': "s' = ec_decide c p s"
    by (auto simp: conn_at_Some split: option.splits conn_phase.splits)
  have "\<not> ec_admits p" if "n0 \<le> c"
    using lr c that by (force simp: late_rejected_def dest: ec_admits_le8)
  with lr c s' show ?thesis
    by (auto simp: late_rejected_def ec_decide_def set_conn_def ec_send_def nth_list_update
             split: if_splits)
next
  case (RecvAck c buf)
  with lr st show ?thesis
    by (auto simp: late_rejected_def ec_recv_ack_def set_conn_def conn_at_Some nth_list_update
             split: option.splits conn_phase.splits if_splits)
next
  case (FinishTask c)
  with lr st show ?thesis
    by (auto simp: late_rejected_def ec_finish_task_def ec_release_def set_conn_def ec_send_def
             conn_at_Some nth_list_update split: option.splits conn_phase.splits if_splits)
next
  case (FinishDrop c)
  with lr st show ?thesis
    by (auto simp: late_rejected_def ec_finish_drop_def ec_release_def set_conn_def
             conn_at_Some nth_list_update split: option.splits conn_phase.splits if_splits)
qed

lemma late_rejected_run:
  "ec_inv s \<Longrightarrow> 9 \<le> leaked_count s \<Longrightarrow> late_rejected n0 s \<Longrightarrow> ec_run s es = Some s' \<Longrightarrow>
   late_rejected n0 s'"
proof (induction es arbitrary: s)
  case Nil
  then show ?case by simp
next
  case (Cons e es)
  from Cons.prems(4) obtain t where t: "ec_step s e = Some t" "ec_run t es = Some s'"
    by (auto split: option.splits)
  from Cons.prems(1) t(1) have "ec_inv t" by (rule ec_inv_step)
  moreover from Cons.prems(1,2) t(1) have "9 \<le> leaked_count t"
    using leaked_step by fastforce
  moreover from Cons.prems(1-3) t(1) have "late_rejected n0 t"
    by (rule late_rejected_step)
  ultimately show ?case using t(2) by (rule Cons.IH)
qed

subsection \<open>Properties\<close>

text \<open>
  C1. The admission decision of \<open>handle_request\<close>: a connection that read position
  \<open>p\<close> from \<open>queue_size\<close> is answered \<open>GRANT:p\<close> and waits for the acknowledgment
  when \<open>p \<le> 8\<close> (\<open>(int)(8 * 68.71) = 549 \<le> 550\<close>), and is answered \<open>DROP\<close> when
  \<open>p \<ge> 9\<close> (\<open>(int)(9 * 68.71) = 618\<close>).
\<close>

theorem ec_decide_admission:
  assumes "conn_at s c = Some (Counted p)" "ec_step s (Decide c) = Some s'"
  shows "conns s' ! c = (if p \<le> 8 then AwaitAck p else Dropping p) \<and>
         sent s' = sent s @ [(c, if p \<le> 8 then grant_msg p else drop_msg)]"
proof -
  have adm: "ec_admits p \<longleftrightarrow> p \<le> 8"
  proof
    assume "ec_admits p"
    then show "p \<le> 8" by (rule ec_admits_le8)
  next
    assume p8: "p \<le> 8"
    show "ec_admits p"
    proof (cases "0 \<le> p")
      case True
      from True p8 have "ec_wait_ms p \<le> ec_wait_ms 8" by (rule ec_wait_ms_mono)
      moreover have "ec_wait_ms 8 \<le> 550" by (simp add: ec_wait_ms_def cpp_div_nonneg)
      ultimately show ?thesis by (simp add: ec_admits_def)
    next
      case False
      then have "p * 6871 < 0" by (simp add: mult_less_0_iff)
      then have "ec_wait_ms p \<le> 0" by (simp add: ec_wait_ms_def cpp_div_neg)
      then show ?thesis by (simp add: ec_admits_def)
    qed
  qed
  from assms(1) have "c < length (conns s)" by (simp add: conn_at_Some)
  moreover from assms(2) have "s' = ec_decide c p s" by (simp add: assms(1))
  ultimately
  show ?thesis using adm
    by (simp add: ec_decide_def set_conn_def ec_send_def)
qed

theorem ec_decide_admission_witness:
  "conns (the (ec_step (the (ec_run ec_init (concat (map count_round [0..<10])))) (Decide 9))) ! 9
     = Dropping 9"
proof -
  let ?s = "the (ec_run ec_init (concat (map count_round [0..<10])))"
  have c: "conn_at ?s 9 = Some (Counted 9)" by code_simp
  have st: "ec_step ?s (Decide 9) = Some (the (ec_step ?s (Decide 9)))" by code_simp
  from ec_decide_admission [OF c st] show ?thesis by simp
qed

text \<open>
  C2. \<open>queue_size\<close> is never negative, and it never undercounts: it is at least the
  number of connections that have taken a position and not yet given it back.
\<close>

theorem queue_size_bounds:
  "ec_reachable s \<Longrightarrow> 0 \<le> queue_size s \<and> int (holder_count s) \<le> queue_size s"
  using ec_inv_holder_count [OF ec_reachable_inv] by fastforce

theorem queue_size_bounds_witness:
  "0 \<le> queue_size (the (ec_run ec_init (concat (map count_round [0..<10]))))
   \<and> int (holder_count (the (ec_run ec_init (concat (map count_round [0..<10]))))) \<le>
     queue_size (the (ec_run ec_init (concat (map count_round [0..<10]))))"
proof -
  let ?s = "the (ec_run ec_init (concat (map count_round [0..<10])))"
  have "ec_run ec_init (concat (map count_round [0..<10])) = Some ?s" by code_simp
  then have "ec_reachable ?s" by (rule ec_run_reachable [OF ec_reachable.init])
  then show ?thesis by (rule queue_size_bounds)
qed

text \<open>
  C3. However the threads interleave, at most nine connections are admitted at once
  (granted and not yet finished): the read-and-increment of \<open>queue_size\<close> under
  \<open>queue_mutex\<close> gives every admitted connection a position no smaller than the number
  of earlier holders, and positions above 8 are refused.
\<close>

theorem admitted_at_most_nine: "ec_reachable s \<Longrightarrow> admitted_count s \<le> 9"
  by (rule ec_inv_admitted_count [OF ec_reachable_inv])

theorem admitted_at_most_nine_witness:
  "admitted_count (the (ec_run ec_init (concat (map count_round [0..<10]) @ map Decide [0..<10])))
     \<le> 9"
proof -
  let ?es = "concat (map count_round [0..<10]) @ map Decide [0..<10]"
  have "ec_run ec_init ?es = Some (the (ec_run ec_init ?es))" by code_simp
  then have "ec_reachable (the (ec_run ec_init ?es))"
    by (rule ec_run_reachable [OF ec_reachable.init])
  then show ?thesis by (rule admitted_at_most_nine)
qed

text \<open>
  C4. The acknowledgment path leaks: a granted connection whose acknowledgment does not
  start with \<open>OK:\<close> is closed without \<open>queue_size--\<close>. Once nine positions have
  leaked, no connection accepted afterwards is ever admitted.
\<close>

theorem leak_blocks_admission:
  assumes "ec_reachable s" "9 \<le> leaked_count s" "ec_run s es = Some s'"
    and "length (conns s) \<le> c" "c < length (conns s')"
  shows "\<not> admitted_phase (conns s' ! c)"
proof -
  have inv: "ec_inv s" using assms(1) by (rule ec_reachable_inv)
  have "late_rejected (length (conns s)) s"
    by (simp add: late_rejected_def)
  from inv assms(2) this assms(3) have "late_rejected (length (conns s)) s'"
    by (rule late_rejected_run)
  with assms(4,5) show ?thesis
    by (simp add: late_rejected_def)
qed

theorem leak_blocks_admission_witness:
  "\<not> admitted_phase (conns (the (ec_run (the (ec_run ec_init (concat (map leak_round [0..<9]))))
                                  (count_round 9 @ [Decide 9]))) ! 9)"
proof -
  let ?s = "the (ec_run ec_init (concat (map leak_round [0..<9])))"
  let ?es = "count_round 9 @ [Decide 9]"
  have "ec_run ec_init (concat (map leak_round [0..<9])) = Some ?s" by code_simp
  then have r: "ec_reachable ?s" by (rule ec_run_reachable [OF ec_reachable.init])
  have l: "9 \<le> leaked_count ?s" by code_simp
  have e: "ec_run ?s ?es = Some (the (ec_run ?s ?es))" by code_simp
  have n: "length (conns ?s) \<le> 9" "9 < length (conns (the (ec_run ?s ?es)))" by code_simp+
  from leak_blocks_admission [OF r l e n] show ?thesis .
qed

end
