(* ===== verification/LocalExec.thy ===== *)
theory LocalExec
  imports Wire
begin

text \<open>
  The ED process's shared state and its local fallback path, as in
  \<open>src/Experiment_May15/ed_oms_parallel_rn50_fallback_sequencial.cpp\<close>: the counters
  guarded by \<open>stats_mutex\<close>, the submission queue \<open>local_queue\<close> with \<open>stop_local\<close>
  guarded by \<open>queue_mutex\<close>, and the two \<open>std::unordered_map\<close>s of start and end times
  guarded by \<open>time_map_mutex\<close> (association lists here: \<open>operator[]\<close> assignment is
  \<open>AList.update\<close>). \<open>enqueue_local_run\<close> queues one task line and records its start
  time; \<open>local_run_dispatch\<close> is the single consumer that writes each line to the Python
  helper's stdin; \<open>start_done_listener\<close> reads the helper's completion records from the
  FIFO and records end times. An exception the listener does not catch ends the process,
  which is the \<open>Inl\<close> of its result.
\<close>

record ed_state =
  completed_tasks :: int
  ran_on_ed :: int
  sent_to_ec :: int
  total_latency_ms :: int
  local_queue :: "string list"
  stop_local :: bool
  local_task_start_ms :: "(token \<times> msec) list"
  local_task_end_ms :: "(token \<times> msec) list"
  py_stdin :: "string list"

definition ed_init :: ed_state where
  "ed_init = \<lparr>completed_tasks = 0, ran_on_ed = 0, sent_to_ec = 0, total_latency_ms = 0,
              local_queue = [], stop_local = False, local_task_start_ms = [],
              local_task_end_ms = [], py_stdin = []\<rparr>"

definition image_path :: string where
  "image_path = ''COCO_test_1220/000000006321.jpg''"

subsection \<open>Submission\<close>

definition enqueue_local_run :: "token \<Rightarrow> msec \<Rightarrow> ed_state \<Rightarrow> ed_state" where
  "enqueue_local_run token_ed start_ms s =
     s\<lparr>local_queue := local_queue s @ [show_int token_ed @ '':'' @ image_path],
       local_task_start_ms := AList.update token_ed start_ms (local_task_start_ms s)\<rparr>"

text \<open>One pass of the consumer loop after it woke up with a task: pop the front,
  write it and a newline to the helper.\<close>

definition dispatch_one :: "ed_state \<Rightarrow> ed_state" where
  "dispatch_one s = s\<lparr>local_queue := tl (local_queue s), py_stdin := py_stdin s @ [hd (local_queue s)]\<rparr>"

text \<open>
  The consumer loop once no producer is left: it waits for \<open>!local_queue.empty() ||
  stop_local\<close>, leaves when the queue is empty and \<open>stop_local\<close> is set, and otherwise
  dispatches the front. Waiting with nobody left to notify never returns: \<open>None\<close>.
\<close>

partial_function (option) local_run_dispatch :: "ed_state \<Rightarrow> ed_state option" where
  "local_run_dispatch s =
     (if local_queue s = [] \<and> \<not> stop_local s then None
      else if stop_local s \<and> local_queue s = [] then Some s
      else local_run_dispatch (dispatch_one s))"

text \<open>\<open>main\<close> after the workers joined: set \<open>stop_local\<close> and let the consumer finish.\<close>

definition stop_and_drain :: "ed_state \<Rightarrow> ed_state option" where
  "stop_and_drain s = local_run_dispatch (s\<lparr>stop_local := True\<rparr>)"

subsection \<open>Completion listener\<close>

definition sum_bind :: "'e + 'a \<Rightarrow> ('a \<Rightarrow> 'e + 'b) \<Rightarrow> 'e + 'b" where
  "sum_bind r f = (case r of Inl e \<Rightarrow> Inl e | Inr a \<Rightarrow> f a)"

text \<open>
  One line from \<open>fgets\<close>: all newlines erased, the two commas located with \<open>size_t\<close>
  positions (\<open>first + 1\<close> wraps to 0 when \<open>first\<close> is \<open>npos\<close>), lines without two
  commas skipped, then \<open>stoi\<close> of the first field and \<open>stol\<close> of the third. The middle
  field is only logged.
\<close>

definition done_listener_line :: "string \<Rightarrow> (token \<times> msec) list \<Rightarrow> cpp_exc + (token \<times> msec) list" where
  "done_listener_line buffer end_ms =
     (let line = filter (\<lambda>ch. ch \<noteq> CHR 0x0A) buffer;
          first = cpp_find CHR '','' line 0;
          second = cpp_find CHR '','' line (first + 1)
      in if first = npos \<or> second = npos then Inr end_ms
         else sum_bind (cpp_substr line 0 (unat first)) (\<lambda>tok_str.
              sum_bind (cpp_stoi tok_str) (\<lambda>token.
              sum_bind (cpp_substr line (unat (second + 1)) (unat npos)) (\<lambda>done_str.
              sum_bind (cpp_stol done_str) (\<lambda>done_time.
                Inr (AList.update token done_time end_ms))))))"

fun done_listener :: "string list \<Rightarrow> (token \<times> msec) list \<Rightarrow> cpp_exc + (token \<times> msec) list" where
  "done_listener [] end_ms = Inr end_ms"
| "done_listener (b # bs) end_ms = sum_bind (done_listener_line b end_ms) (done_listener bs)"

text \<open>
  The listener thread writes nothing but \<open>local_task_end_ms\<close>. \<open>fopen\<close> of the FIFO
  may fail (\<open>None\<close>); the listener then returns at once.
\<close>

definition start_done_listener :: "string list option \<Rightarrow> ed_state \<Rightarrow> cpp_exc + ed_state" where
  "start_done_listener fifo s =
     (case fifo of None \<Rightarrow> Inr s
      | Some lines \<Rightarrow> sum_bind (done_listener lines (local_task_end_ms s))
                       (\<lambda>end_ms. Inr (s\<lparr>local_task_end_ms := end_ms\<rparr>)))"

subsection \<open>Lemmas\<close>

lemma local_run_dispatch_stop:
  "stop_local s \<Longrightarrow> local_run_dispatch s = Some (s\<lparr>local_queue := [], py_stdin := py_stdin s @ local_queue s\<rparr>)"
proof (induction "local_queue s" arbitrary: s)
  case Nil
  then show ?case by (subst local_run_dispatch.simps) simp
next
  case (Cons x xs)
  from Cons.hyps(2) Cons.prems have "local_queue (dispatch_one s) = xs" "stop_local (dispatch_one s)"
    by (simp_all add: dispatch_one_def flip: Cons.hyps(2))
  then have "local_run_dispatch (dispatch_one s) =
          Some ((dispatch_one s)\<lparr>local_queue := [], py_stdin := py_stdin (dispatch_one s) @ xs\<rparr>)"
    by (metis Cons.hyps(1))
  with Cons.hyps(2) Cons.prems show ?case
    by (subst local_run_dispatch.simps) (simp add: dispatch_one_def flip: Cons.hyps(2))
qed

lemma show_int_no_newline [simp]: "CHR 0x0A \<notin> set (show_int i)"
  by (simp add: show_int_def show_nat_no_char decimal_digits_def)

lemma filter_no_newline: "CHR 0x0A \<notin> set xs \<Longrightarrow> filter (\<lambda>ch. ch \<noteq> CHR 0x0A) xs = xs"
  by (induction xs) auto

lemma done_listener_line_fields:
  assumes sep: "CHR '','' \<notin> set f" "CHR '','' \<notin> set m"
    and nl: "CHR 0x0A \<notin> set (f @ m @ r)" "set n \<subseteq> {CHR 0x0A}"
    and fits: "length (f @ m @ r) < 509"
  shows "done_listener_line (f @ CHR '','' # m @ CHR '','' # r @ n) end_ms =
           sum_bind (cpp_stoi f) (\<lambda>tok. sum_bind (cpp_stol r) (\<lambda>done_time.
             Inr (AList.update tok done_time end_ms)))"
proof -
  let ?line = "f @ CHR '','' # m @ CHR '','' # r"
  have "filter (\<lambda>ch. ch \<noteq> CHR 0x0A) n = []"
    using nl(2) by (induction n) auto
  then have line: "filter (\<lambda>ch. ch \<noteq> CHR 0x0A) (f @ CHR '','' # m @ CHR '','' # r @ n) = ?line"
    using nl(1) by (simp add: filter_no_newline)
  have first: "cpp_find CHR '','' ?line 0 = word_of_nat (length f)"
    using sep fits by (intro cpp_find_first) simp_all
  have second: "cpp_find CHR '','' ?line (word_of_nat (length f) + 1) = word_of_nat (Suc (length f + length m))"
    using sep fits by (intro cpp_find_second) simp_all
  have ne: "word_of_nat (length f) \<noteq> npos" "word_of_nat (Suc (length f + length m)) \<noteq> npos"
    using fits by (intro word_of_small_ne_npos; simp)+
  have s1: "cpp_substr ?line 0 (unat (word_of_nat (length f) :: size_t)) = Inr f"
    using fits by (simp add: cpp_substr_def unat_word_of_small)
  have s2: "cpp_substr ?line (unat (word_of_nat (Suc (length f + length m)) + (1 :: size_t))) (unat npos) = Inr r"
  proof -
    have e: "word_of_nat (Suc (length f + length m)) + (1 :: size_t) = word_of_nat (Suc (Suc (length f + length m)))"
      by simp
    have "unat (word_of_nat (Suc (Suc (length f + length m))) :: size_t) = Suc (Suc (length f + length m))"
      using fits by (intro unat_word_of_small) simp
    moreover have "unat npos \<ge> length r" using fits by (simp add: unat_npos)
    ultimately show ?thesis by (simp add: e cpp_substr_def)
  qed
  show ?thesis
    unfolding done_listener_line_def Let_def line first second
    using ne s1 s2 by (simp add: sum_bind_def)
qed

text \<open>
  C8: the completion listener records what the helper reports. A line
  \<open>token,infer_ms,done_time\<close> as the Python helper writes it (decimal integers in the
  range of \<open>int\<close> and \<open>long\<close>, an inference time without commas, at most 511 bytes)
  sets \<open>local_task_end_ms[token] = done_time\<close> and changes nothing else.
\<close>

theorem done_listener_line_record:
  assumes sep: "CHR '','' \<notin> set infer" "CHR 0x0A \<notin> set infer"
    and tok: "- (2 ^ 31) \<le> tok" "tok \<le> 2 ^ 31 - 1"
    and dn: "- (2 ^ 63) \<le> done_time" "done_time \<le> 2 ^ 63 - 1"
    and fits: "length (show_int tok @ '','' @ infer @ '','' @ show_int done_time) < 511"
  shows "done_listener_line (show_int tok @ '','' @ infer @ '','' @ show_int done_time @ [CHR 0x0A]) end_ms
           = Inr (AList.update tok done_time end_ms)"
proof -
  have p1: "cpp_stoi (show_int tok) = Inr tok"
    using cpp_strtol_show_int [of "- (2 ^ 31)" tok "2 ^ 31 - 1" "[]"] tok by (simp add: cpp_stoi_def)
  have p2: "cpp_stol (show_int done_time) = Inr done_time"
    using cpp_strtol_show_int [of "- (2 ^ 63)" done_time "2 ^ 63 - 1" "[]"] dn by (simp add: cpp_stol_def)
  have "done_listener_line (show_int tok @ CHR '','' # infer @ CHR '','' # show_int done_time @ [CHR 0x0A]) end_ms =
          sum_bind (cpp_stoi (show_int tok)) (\<lambda>tok. sum_bind (cpp_stol (show_int done_time)) (\<lambda>done_time.
             Inr (AList.update tok done_time end_ms)))"
    using sep fits by (intro done_listener_line_fields) simp_all
  then show ?thesis using p1 p2 by (simp add: sum_bind_def)
qed

theorem done_listener_line_record_witness:
  "done_listener_line (''7,12.5,1000'' @ [CHR 0x0A]) [(3, 900)] = Inr [(3, 900), (7, 1000)]"
proof -
  have "done_listener_line (show_int 7 @ '','' @ ''12.5'' @ '','' @ show_int 1000 @ [CHR 0x0A]) [(3, 900)]
          = Inr (AList.update 7 1000 [(3, 900)])"
    by (rule done_listener_line_record) (simp_all add: show_int_def show_nat.simps digit_char_def decimal_digits_def)
  then show ?thesis by (simp add: show_int_def show_nat.simps digit_char_def decimal_digits_def)
qed

text \<open>
  C9: a malformed completion record ends the program. When the first field of a line with
  two commas is not a number in the range of \<open>int\<close>, \<open>std::stoi\<close> throws; the listener
  does not catch it, so it never reads the remaining lines and the exception escapes the
  listener thread (which terminates the process).
\<close>

theorem done_listener_aborts:
  assumes sep: "CHR '','' \<notin> set f" "CHR '','' \<notin> set m"
    and nl: "CHR 0x0A \<notin> set (f @ m @ r)"
    and fits: "length (f @ m @ r) < 509"
    and bad: "cpp_stoi f = Inl e"
  shows "done_listener ((f @ CHR '','' # m @ CHR '','' # r @ [CHR 0x0A]) # rest) end_ms = Inl e"
proof -
  have "done_listener_line (f @ CHR '','' # m @ CHR '','' # r @ [CHR 0x0A]) end_ms =
          sum_bind (cpp_stoi f) (\<lambda>tok. sum_bind (cpp_stol r) (\<lambda>done_time.
             Inr (AList.update tok done_time end_ms)))"
    using sep nl fits by (intro done_listener_line_fields) simp_all
  with bad show ?thesis by (simp add: sum_bind_def)
qed

theorem done_listener_aborts_witness:
  "done_listener [''abc,12.5,1000'' @ [CHR 0x0A], ''7,12.5,1000'' @ [CHR 0x0A]] [] = Inl InvalidArgument"
proof -
  have "cpp_stoi ''abc'' = Inl InvalidArgument"
    by (simp add: cpp_stoi_def cpp_strtol_def is_space_def is_digit_def decimal_digits_def)
  then have "done_listener ((''abc'' @ CHR '','' # ''12.5'' @ CHR '','' # ''1000'' @ [CHR 0x0A]) #
               [''7,12.5,1000'' @ [CHR 0x0A]]) [] = Inl InvalidArgument"
    by (intro done_listener_aborts) simp_all
  then show ?thesis by simp
qed

text \<open>
  C7: stopping the consumer drains it. Once \<open>main\<close> sets \<open>stop_local\<close>, the consumer
  loop terminates, having written every queued task line to the helper in queue order
  and left the queue empty.
\<close>

theorem stop_and_drain_delivers_all:
  "stop_and_drain s = Some (s\<lparr>stop_local := True, local_queue := [], py_stdin := py_stdin s @ local_queue s\<rparr>)"
  unfolding stop_and_drain_def by (subst local_run_dispatch_stop) simp_all

end
