(* ===== verification/Client.thy ===== *)
theory Client
  imports LocalExec
begin

text \<open>
  The ED-side offload client: \<open>run_request\<close> of
  \<open>src/Experiment_May15/ed_oms_parallel_rn50_fallback_sequencial.cpp\<close>. Its
  environment (the results of \<open>socket\<close>, \<open>connect\<close>, the two \<open>recv\<close>s, opening the
  image file, and the clock readings) is a record \<open>net_env\<close>; the function returns the
  new process state and the frames written to the socket. Each critical section of
  \<open>run_request\<close> either increments counters or writes at the task's own key, so any
  interleaving of the worker threads ends in the state of some sequential order of the
  calls; \<open>run_all\<close> runs a list of tasks in one such order.
\<close>

datatype frame = Text string | Data string | ShutWr

record net_env =
  sock_ok :: bool
  connect_ok :: bool
  response :: "string option"
  image :: "string option"
  done_reply :: "string option"
  t_start :: msec
  t_end :: msec
  t_wall :: msec

text \<open>\<open>while (file.read(img_buf, 4096)) send(...); if (file.gcount() > 0) send(...)\<close>:
  full 4096-byte blocks, then the remainder if there is one.\<close>

fun send_chunks :: "string \<Rightarrow> string list" where
  "send_chunks bytes =
     (if length bytes < 4096 then (if bytes = [] then [] else [bytes])
      else take 4096 bytes # send_chunks (drop 4096 bytes))"

declare send_chunks.simps [simp del]

definition record_remote :: "msec \<Rightarrow> ed_state \<Rightarrow> ed_state" where
  "record_remote duration s =
     s\<lparr>completed_tasks := completed_tasks s + 1, total_latency_ms := total_latency_ms s + duration,
       sent_to_ec := sent_to_ec s + 1\<rparr>"

definition record_fallback :: "ed_state \<Rightarrow> ed_state" where
  "record_fallback s = s\<lparr>completed_tasks := completed_tasks s + 1, ran_on_ed := ran_on_ed s + 1\<rparr>"

definition run_request :: "token \<Rightarrow> net_env \<Rightarrow> ed_state \<Rightarrow> ed_state \<times> frame list" where
  "run_request token_ed env s =
     (if \<not> sock_ok env then (enqueue_local_run token_ed (t_wall env) s, [])
      else if \<not> connect_ok env then (enqueue_local_run token_ed (t_wall env) s, [])
      else
        (let req = req_msg token_ed ''resnet_50'' ''PI5'' in
         (case response env of
            None \<Rightarrow> (enqueue_local_run token_ed (t_wall env) s, [Text req])
          | Some resp \<Rightarrow>
              (if starts_with ''GRANT:'' resp then
                 (let token_ec = drop 6 resp;
                      ok = ok_msg token_ec token_ed
                  in (case image env of
                        None \<Rightarrow> (s, [Text req, Text ok])
                      | Some bytes \<Rightarrow>
                          (let sent = [Text req, Text ok] @ map Data (send_chunks bytes) @ [ShutWr] in
                           (case done_reply env of
                              None \<Rightarrow> (s, sent)
                            | Some _ \<Rightarrow> (record_remote (t_end env - t_start env) s, sent)))))
               else if resp = drop_msg then
                 (record_fallback (enqueue_local_run token_ed (t_wall env) s), [Text req])
               else (s, [Text req])))))"

fun run_all :: "(token \<times> net_env) list \<Rightarrow> ed_state \<Rightarrow> ed_state" where
  "run_all [] s = s"
| "run_all ((t, env) # ts) s = run_all ts (fst (run_request t env s))"

text \<open>How \<open>run_request\<close> ends, read off its branches.\<close>

datatype outcome = RemoteDone | DropFallback | ErrorFallback | PayloadError | DoneLost | Unrecognised

definition client_outcome :: "net_env \<Rightarrow> outcome" where
  "client_outcome env =
     (if \<not> sock_ok env \<or> \<not> connect_ok env then ErrorFallback
      else case response env of
        None \<Rightarrow> ErrorFallback
      | Some resp \<Rightarrow>
          if starts_with ''GRANT:'' resp then
            (case image env of None \<Rightarrow> PayloadError
             | Some _ \<Rightarrow> (case done_reply env of None \<Rightarrow> DoneLost | Some _ \<Rightarrow> RemoteDone))
          else if resp = drop_msg then DropFallback else Unrecognised)"

definition task_line :: "token \<Rightarrow> string" where
  "task_line token_ed = show_int token_ed @ '':'' @ image_path"

definition count_outcome :: "outcome \<Rightarrow> (token \<times> net_env) list \<Rightarrow> int" where
  "count_outcome oc ts = int (length (filter (\<lambda>x. client_outcome (snd x) = oc) ts))"

text \<open>A connection on which the broker answers \<open>DROP\<close>.\<close>

definition drop_env :: net_env where
  "drop_env = \<lparr>sock_ok = True, connect_ok = True, response = Some drop_msg, image = None,
               done_reply = None, t_start = 0, t_end = 0, t_wall = 1000\<rparr>"

subsection \<open>Lemmas\<close>

lemma concat_send_chunks: "concat (send_chunks bytes) = bytes"
proof (induction bytes rule: send_chunks.induct)
  case (1 bytes)
  then show ?case by (subst send_chunks.simps) auto
qed

lemma run_request_state:
  "fst (run_request t env s) =
     (case client_outcome env of
        RemoteDone \<Rightarrow> record_remote (t_end env - t_start env) s
      | DropFallback \<Rightarrow> record_fallback (enqueue_local_run t (t_wall env) s)
      | ErrorFallback \<Rightarrow> enqueue_local_run t (t_wall env) s
      | _ \<Rightarrow> s)"
  by (auto simp: run_request_def client_outcome_def Let_def
           split: option.splits if_splits outcome.splits)

lemma send_chunks_bounded: "\<forall>c \<in> set (send_chunks bytes). length c \<le> 4096"
proof (induction bytes rule: send_chunks.induct)
  case (1 bytes)
  then show ?case by (subst send_chunks.simps) auto
qed

lemmas client_effects = run_request_state record_remote_def record_fallback_def enqueue_local_run_def

lemma count_outcome_Nil [simp]: "count_outcome oc [] = 0"
  by (simp add: count_outcome_def)

lemma count_outcome_Cons [simp]:
  "count_outcome oc ((t, e) # ts) = (if client_outcome e = oc then 1 else 0) + count_outcome oc ts"
  by (simp add: count_outcome_def)

lemma count_outcome_mset: "mset xs = mset ys \<Longrightarrow> count_outcome oc xs = count_outcome oc ys"
  unfolding count_outcome_def by (drule length_filter_mset) (rule arg_cong [where f = int])

lemma run_all_sent: "sent_to_ec (run_all ts s) = sent_to_ec s + count_outcome RemoteDone ts"
  by (induction ts arbitrary: s) (auto simp: client_effects split: outcome.splits)

lemma run_all_ran: "ran_on_ed (run_all ts s) = ran_on_ed s + count_outcome DropFallback ts"
  by (induction ts arbitrary: s) (auto simp: client_effects split: outcome.splits)

lemma run_all_completed:
  "completed_tasks (run_all ts s) = completed_tasks s + count_outcome RemoteDone ts + count_outcome DropFallback ts"
  by (induction ts arbitrary: s) (auto simp: client_effects split: outcome.splits)

lemma run_all_queue:
  "local_queue (run_all ts s) =
     local_queue s @ map (task_line \<circ> fst) (filter (\<lambda>x. client_outcome (snd x) \<in> {DropFallback, ErrorFallback}) ts)"
  by (induction ts arbitrary: s) (auto simp: client_effects task_line_def split: outcome.splits)

lemma run_all_end_ms: "local_task_end_ms (run_all ts s) = local_task_end_ms s"
  by (induction ts arbitrary: s) (auto simp: client_effects split: outcome.splits)

lemma run_all_latency:
  "total_latency_ms (run_all ts s) =
     total_latency_ms s + sum_list (map (\<lambda>x. t_end (snd x) - t_start (snd x))
                                     (filter (\<lambda>x. client_outcome (snd x) = RemoteDone) ts))"
  by (induction ts arbitrary: s) (auto simp: client_effects split: outcome.splits)

lemma run_request_start_ms:
  "map_of (local_task_start_ms (fst (run_request a env s))) =
     (if client_outcome env \<in> {DropFallback, ErrorFallback}
      then (map_of (local_task_start_ms s))(a \<mapsto> t_wall env) else map_of (local_task_start_ms s))"
  by (simp add: client_effects update_conv' split: outcome.split)

lemma run_all_start_ms:
  "map_of (local_task_start_ms (run_all (map (\<lambda>t. (t, envs t)) order) s)) t =
     (if t \<in> set order \<and> client_outcome (envs t) \<in> {DropFallback, ErrorFallback}
      then Some (t_wall (envs t)) else map_of (local_task_start_ms s) t)"
proof (induction order arbitrary: s)
  case Nil
  then show ?case by simp
next
  case (Cons a order)
  let ?s1 = "fst (run_request a (envs a) s)"
  have "map_of (local_task_start_ms (run_all (map (\<lambda>t. (t, envs t)) (a # order)) s)) t =
        map_of (local_task_start_ms (run_all (map (\<lambda>t. (t, envs t)) order) ?s1)) t"
    by simp
  also have "\<dots> = (if t \<in> set order \<and> client_outcome (envs t) \<in> {DropFallback, ErrorFallback}
      then Some (t_wall (envs t)) else map_of (local_task_start_ms ?s1) t)"
    by (rule Cons.IH)
  also have "\<dots> = (if t \<in> set (a # order) \<and> client_outcome (envs t) \<in> {DropFallback, ErrorFallback}
      then Some (t_wall (envs t)) else map_of (local_task_start_ms s) t)"
    by (cases "t = a") (auto simp: run_request_start_ms)
  finally show ?case .
qed

text \<open>
  C5: a \<open>DROP\<close> reply makes the task run locally, once. After connecting and sending
  its request, a client that receives exactly \<open>DROP\<close> enqueues the task's line for the
  local executor once, records its local start time, counts it as completed and as run
  on the device, leaves the offload counter alone, and writes nothing to the socket after
  the request: no \<open>OK\<close> and no payload.
\<close>

theorem run_request_drop:
  assumes "sock_ok env" "connect_ok env" "response env = Some drop_msg"
  shows "ran_on_ed (fst (run_request t env s)) = ran_on_ed s + 1
       \<and> completed_tasks (fst (run_request t env s)) = completed_tasks s + 1
       \<and> sent_to_ec (fst (run_request t env s)) = sent_to_ec s
       \<and> local_queue (fst (run_request t env s)) = local_queue s @ [task_line t]
       \<and> map_of (local_task_start_ms (fst (run_request t env s))) = (map_of (local_task_start_ms s))(t \<mapsto> t_wall env)
       \<and> snd (run_request t env s) = [Text (req_msg t ''resnet_50'' ''PI5'')]"
proof -
  have "\<not> starts_with ''GRANT:'' drop_msg" by (simp add: drop_msg_def starts_with_def)
  then have "run_request t env s =
      (record_fallback (enqueue_local_run t (t_wall env) s), [Text (req_msg t ''resnet_50'' ''PI5'')])"
    using assms by (simp add: run_request_def)
  then show ?thesis
    by (simp add: record_fallback_def enqueue_local_run_def task_line_def update_conv')
qed

theorem run_request_drop_witness:
  "ran_on_ed (fst (run_request 4 drop_env ed_init)) = 1
   \<and> local_queue (fst (run_request 4 drop_env ed_init)) = [task_line 4]
   \<and> snd (run_request 4 drop_env ed_init) = [Text (req_msg 4 ''resnet_50'' ''PI5'')]"
  using run_request_drop [of drop_env 4 ed_init] by (simp add: drop_env_def ed_init_def)

text \<open>
  C10: every counted task is counted on exactly one path. If the completed count equals
  the offloaded count plus the locally run count before a sequence of \<open>run_request\<close>
  calls, it does after them.
\<close>

theorem run_all_counters_balance:
  assumes "completed_tasks s = sent_to_ec s + ran_on_ed s"
  shows "completed_tasks (run_all ts s) = sent_to_ec (run_all ts s) + ran_on_ed (run_all ts s)"
  using assms by (simp add: run_all_completed run_all_sent run_all_ran)

theorem run_all_counters_balance_witness:
  "completed_tasks (run_all [(0, drop_env), (1, drop_env)] ed_init) =
     sent_to_ec (run_all [(0, drop_env), (1, drop_env)] ed_init) + ran_on_ed (run_all [(0, drop_env), (1, drop_env)] ed_init)"
  by (rule run_all_counters_balance) (simp add: ed_init_def)

text \<open>
  C11: some tasks vanish. When the broker's reply is neither \<open>GRANT:\<close> nor exactly
  \<open>DROP\<close>, when the image cannot be opened after a grant, or when no \<open>DONE\<close> arrives,
  \<open>run_request\<close> returns without changing any counter, queue or time record: the task
  is neither completed, nor offloaded, nor run locally.
\<close>

theorem run_request_vanishes:
  assumes "client_outcome env \<in> {PayloadError, DoneLost, Unrecognised}"
  shows "fst (run_request t env s) = s"
  using assms by (auto simp: run_request_state)

theorem run_request_vanishes_witness:
  "fst (run_request 2 (drop_env\<lparr>response := Some ''BUSY''\<rparr>) ed_init) = ed_init"
  by (rule run_request_vanishes) (simp add: client_outcome_def drop_env_def starts_with_def drop_msg_def)

text \<open>
  C12: a transport failure falls back without being counted. When \<open>socket\<close> or
  \<open>connect\<close> fails or no reply arrives, the task is queued for local execution with its
  start time, but neither \<open>completed_tasks\<close> nor \<open>ran_on_ed\<close> is incremented.
\<close>

theorem run_request_error_fallback:
  assumes "client_outcome env = ErrorFallback"
  shows "fst (run_request t env s) = enqueue_local_run t (t_wall env) s
       \<and> completed_tasks (fst (run_request t env s)) = completed_tasks s
       \<and> ran_on_ed (fst (run_request t env s)) = ran_on_ed s"
  using assms by (simp add: run_request_state enqueue_local_run_def)

theorem run_request_error_fallback_witness:
  "fst (run_request 2 (drop_env\<lparr>connect_ok := False\<rparr>) ed_init) = enqueue_local_run 2 1000 ed_init
   \<and> completed_tasks (fst (run_request 2 (drop_env\<lparr>connect_ok := False\<rparr>) ed_init)) = 0"
proof -
  have "client_outcome (drop_env\<lparr>connect_ok := False\<rparr>) = ErrorFallback"
    by (simp add: client_outcome_def drop_env_def)
  from run_request_error_fallback [OF this, of 2 ed_init] show ?thesis
    by (simp add: drop_env_def ed_init_def enqueue_local_run_def)
qed

text \<open>
  C13: the offload path sends what the protocol prescribes. On \<open>GRANT:p\<close> with the image
  readable, the client writes its request, then \<open>OK:p:token\<close> echoing the broker's token,
  then the image in blocks of at most 4096 bytes whose concatenation is the whole file,
  then shuts down its write side.
\<close>

theorem run_request_grant_frames:
  assumes "sock_ok env" "connect_ok env" "response env = Some (grant_msg p)" "image env = Some bytes"
  shows "\<exists>cs. snd (run_request t env s) =
                [Text (req_msg t ''resnet_50'' ''PI5''), Text (ok_msg (show_int p) t)] @ map Data cs @ [ShutWr]
            \<and> concat cs = bytes \<and> (\<forall>c \<in> set cs. length c \<le> 4096)"
proof -
  have "drop 6 (grant_msg p) = show_int p" "starts_with ''GRANT:'' (grant_msg p)"
    by (simp_all add: grant_msg_def starts_with_def)
  then have "snd (run_request t env s) =
      [Text (req_msg t ''resnet_50'' ''PI5''), Text (ok_msg (show_int p) t)] @ map Data (send_chunks bytes) @ [ShutWr]"
    using assms by (simp add: run_request_def Let_def split: option.split)
  then show ?thesis using concat_send_chunks send_chunks_bounded by blast
qed

theorem run_request_grant_frames_witness:
  "\<exists>cs. snd (run_request 5 (drop_env\<lparr>response := Some (grant_msg 3), image := Some ''JPEG''\<rparr>) ed_init) =
          [Text (req_msg 5 ''resnet_50'' ''PI5''), Text (ok_msg (show_int 3) 5)] @ map Data cs @ [ShutWr]
        \<and> concat cs = ''JPEG'' \<and> (\<forall>c \<in> set cs. length c \<le> 4096)"
  by (rule run_request_grant_frames) (simp_all add: drop_env_def)

end
