(* ===== verification/Stats.thy ===== *)
theory Stats
  imports Complex_Main Client "HOL-Library.Multiset"
begin

text \<open>
  The end of \<open>main\<close> in
  \<open>src/Experiment_May15/ed_oms_parallel_rn50_fallback_sequencial.cpp\<close>: the run is
  folded into the final report. The latency total starts from the synchronously measured
  remote latencies and adds, for every end time the listener recorded whose task also has
  a start time, the difference of the two (\<open>local_latency_sum\<close>, a loop over the
  \<open>unordered_map\<close> in its unspecified order); the average divides by
  \<open>completed_tasks\<close> with C++'s truncating division. The percentages are doubles in the
  source and exact rationals here. \<open>ed_main\<close> composes the whole program: argument
  parsing, the generator's tokens, the workers' calls of \<open>run_request\<close> in the order
  their critical sections took effect, the shutdown of the local consumer, the listener,
  and the report.
\<close>

definition local_latency_sum :: "(token \<times> msec) list \<Rightarrow> (token \<times> msec) list \<Rightarrow> int" where
  "local_latency_sum starts ends =
     foldl (\<lambda>acc (token, end_time).
              case map_of starts token of None \<Rightarrow> acc | Some st \<Rightarrow> acc + (end_time - st)) 0 ends"

record final_report =
  rep_completed :: int
  rep_sent :: int
  rep_ran :: int
  rep_pct_ed :: rat
  rep_pct_ec :: rat
  rep_avg_latency :: int

definition final_stats :: "ed_state \<Rightarrow> final_report" where
  "final_stats s =
     (let corrected = total_latency_ms s + local_latency_sum (local_task_start_ms s) (local_task_end_ms s);
          total_count = completed_tasks s
      in \<lparr>rep_completed = completed_tasks s, rep_sent = sent_to_ec s, rep_ran = ran_on_ed s,
          rep_pct_ed = (if completed_tasks s = 0 then 0
                        else 100 * of_int (ran_on_ed s) / of_int (completed_tasks s)),
          rep_pct_ec = (if completed_tasks s = 0 then 0
                        else 100 * of_int (sent_to_ec s) / of_int (completed_tasks s)),
          rep_avg_latency = (if total_count = 0 then 0 else cpp_div corrected total_count)\<rparr>)"

text \<open>The generator pushes the tokens \<open>0 .. total_requests - 1\<close> in order.\<close>

definition generated_tokens :: "int \<Rightarrow> token list" where
  "generated_tokens total_requests = map int [0..<nat total_requests]"

datatype main_exit =
    Usage
  | Aborted cpp_exc
  | DivisionByZero
  | Hangs
  | Finished final_report

text \<open>
  \<open>main\<close>: \<open>argc < 3\<close> prints the usage; \<open>std::stoi\<close> of either argument may throw;
  \<open>1000 / tasks_per_second\<close> divides by zero when the rate is 0. Then the 32 workers
  take the generated tokens from \<open>task_queue\<close> and run them; \<open>sched\<close> gives the order in
  which their calls of \<open>run_request\<close> took effect, \<open>envs\<close> what the network, the file
  system and the clocks return to each task. The consumer is stopped and drained, the
  listener's lines (\<open>fifo\<close>; \<open>None\<close> when \<open>fopen\<close> fails) are folded in, and the
  report is made.
\<close>

definition ed_main ::
  "string list \<Rightarrow> (token \<Rightarrow> net_env) \<Rightarrow> (token list \<Rightarrow> token list) \<Rightarrow> string list option \<Rightarrow> main_exit" where
  "ed_main argv envs sched fifo =
     (if length argv < 3 then Usage
      else (case cpp_stoi (argv ! 1) of
        Inl e \<Rightarrow> Aborted e
      | Inr tasks_per_second \<Rightarrow> (case cpp_stoi (argv ! 2) of
          Inl e \<Rightarrow> Aborted e
        | Inr total_requests \<Rightarrow>
            (if tasks_per_second = 0 then DivisionByZero
             else (case stop_and_drain (run_all (map (\<lambda>t. (t, envs t)) (sched (generated_tokens total_requests))) ed_init) of
                     None \<Rightarrow> Hangs
                   | Some s \<Rightarrow> (case start_done_listener fifo s of
                                 Inl e \<Rightarrow> Aborted e
                               | Inr s' \<Rightarrow> Finished (final_stats s')))))))"

subsection \<open>Lemmas\<close>

lemma foldl_latency_acc:
  fixes a :: int
  shows "foldl (\<lambda>acc (token, end_time). case map_of starts token of None \<Rightarrow> acc | Some st \<Rightarrow> acc + (end_time - st)) a ends
   = a + foldl (\<lambda>acc (token, end_time). case map_of starts token of None \<Rightarrow> acc | Some st \<Rightarrow> acc + (end_time - st)) 0 ends"
proof (induction ends arbitrary: a)
  case Nil
  then show ?case by simp
next
  case (Cons x ends)
  obtain k e where x: "x = (k, e)" by fastforce
  show ?case
    using Cons.IH [of "case map_of starts k of None \<Rightarrow> a | Some st \<Rightarrow> a + (e - st)"]
          Cons.IH [of "case map_of starts k of None \<Rightarrow> 0 | Some st \<Rightarrow> e - st"]
    by (simp add: x split: option.splits)
qed

lemma local_latency_sum_Cons:
  "local_latency_sum starts ((k, e) # ends) =
     (case map_of starts k of None \<Rightarrow> 0 | Some st \<Rightarrow> e - st) + local_latency_sum starts ends"
proof (cases "map_of starts k")
  case (Some st)
  then show ?thesis
    using foldl_latency_acc [of starts "e - st" ends] by (simp add: local_latency_sum_def)
qed (simp add: local_latency_sum_def)

text \<open>
  C14: the latency loop computes the reconciled sum. When the end-time map has one entry
  per token (as an \<open>unordered_map\<close> has), the loop over it adds, for exactly the tokens
  that have both a start and an end time, the difference of the two; tokens with only one
  half contribute nothing.
\<close>

theorem local_latency_sum_eq:
  "distinct (map fst ends) \<Longrightarrow>
   local_latency_sum starts ends =
     (\<Sum>t \<in> fst ` set ends \<inter> dom (map_of starts). the (map_of ends t) - the (map_of starts t))"
proof (induction ends)
  case Nil
  then show ?case by (simp add: local_latency_sum_def)
next
  case (Cons x ends)
  obtain k e where x: "x = (k, e)" by fastforce
  with Cons.prems have k: "k \<notin> fst ` set ends" and d: "distinct (map fst ends)" by auto
  let ?f = "\<lambda>t. the (map_of ((k, e) # ends) t) - the (map_of starts t)"
  let ?g = "\<lambda>t. the (map_of ends t) - the (map_of starts t)"
  let ?A = "fst ` set ends \<inter> dom (map_of starts)"
  have fin: "finite ?A" by simp
  have cong: "sum ?f ?A = sum ?g ?A"
    using k by (intro sum.cong) auto
  show ?case
  proof (cases "map_of starts k")
    case None
    then have "fst ` set ((k, e) # ends) \<inter> dom (map_of starts) = ?A" by auto
    with None Cons.IH d cong x show ?thesis by (simp add: local_latency_sum_Cons)
  next
    case (Some st)
    then have "fst ` set ((k, e) # ends) \<inter> dom (map_of starts) = insert k ?A" by auto
    moreover have "k \<notin> ?A" using k by blast
    ultimately show ?thesis
      using Some Cons.IH d cong x fin by (simp add: local_latency_sum_Cons)
  qed
qed

theorem local_latency_sum_eq_witness:
  "local_latency_sum [(1, 100), (2, 200), (4, 400)] [(2, 260), (3, 390), (4, 410)] = 70"
proof -
  have "local_latency_sum [(1, 100), (2, 200), (4, 400)] [(2, 260), (3, 390), (4, 410)] =
          (\<Sum>t \<in> fst ` set [(2::token, 260::msec), (3, 390), (4, 410)] \<inter> dom (map_of [(1::token, 100::msec), (2, 200), (4, 400)]).
              the (map_of [(2::token, 260::msec), (3, 390), (4, 410)] t) - the (map_of [(1::token, 100::msec), (2, 200), (4, 400)] t))"
    by (rule local_latency_sum_eq) simp
  also have "\<dots> = 70"
    by (simp add: dom_map_of_conv_image_fst)
  finally show ?thesis .
qed

lemma final_stats_cong:
  assumes "completed_tasks s1 = completed_tasks s2" "sent_to_ec s1 = sent_to_ec s2"
    "ran_on_ed s1 = ran_on_ed s2" "total_latency_ms s1 = total_latency_ms s2"
    "map_of (local_task_start_ms s1) = map_of (local_task_start_ms s2)"
    "local_task_end_ms s1 = local_task_end_ms s2"
  shows "final_stats s1 = final_stats s2"
proof -
  have "local_latency_sum (local_task_start_ms s1) (local_task_end_ms s1) =
        local_latency_sum (local_task_start_ms s2) (local_task_end_ms s2)"
    by (simp only: local_latency_sum_def assms(5,6))
  then show ?thesis by (simp only: final_stats_def Let_def assms(1-4))
qed

lemma start_done_listener_eq:
  "start_done_listener fifo s =
     sum_bind (case fifo of None \<Rightarrow> Inr (local_task_end_ms s) | Some lines \<Rightarrow> done_listener lines (local_task_end_ms s))
       (\<lambda>e. Inr (s\<lparr>local_task_end_ms := e\<rparr>))"
  by (simp add: start_done_listener_def sum_bind_def split: option.split)

end
