(* ===== verification/Yolo.thy ===== *)
theory Yolo
  imports Stats
begin

text \<open>
  The ED variant \<open>src/ed_oms_parallel_yolov5s_bwaj.cpp\<close>. Its globals, consumer loop,
  listener (without the unused middle field) and latency reconciliation are those of
  \<open>LocalExec\<close> and \<open>Stats\<close>; it differs in \<open>run_request\<close> and \<open>main\<close>. Its
  \<open>run_request\<close> asks for model \<open>yolov5s\<close>, falls back on every reply that does not
  begin with \<open>GRANT:\<close> and counts that fallback, and after sending the image does not
  look at the result of the \<open>recv\<close> of \<open>DONE\<close>. Its generator produces tokens for a
  given duration; how many it produces depends on the random arrivals and is an input
  (\<open>n_generated\<close>) here.
\<close>

definition yl_image :: string where
  "yl_image = ''000000006321.jpg''"

definition yl_enqueue_local_run :: "token \<Rightarrow> msec \<Rightarrow> ed_state \<Rightarrow> ed_state" where
  "yl_enqueue_local_run token_ed start_ms s =
     s\<lparr>local_queue := local_queue s @ [show_int token_ed @ '':'' @ yl_image],
       local_task_start_ms := AList.update token_ed start_ms (local_task_start_ms s)\<rparr>"

definition yl_run_request :: "token \<Rightarrow> net_env \<Rightarrow> ed_state \<Rightarrow> ed_state \<times> frame list" where
  "yl_run_request token_ed env s =
     (if \<not> sock_ok env then (yl_enqueue_local_run token_ed (t_wall env) s, [])
      else if \<not> connect_ok env then (yl_enqueue_local_run token_ed (t_wall env) s, [])
      else
        (let req = req_msg token_ed ''yolov5s'' ''PI5'' in
         (case response env of
            None \<Rightarrow> (yl_enqueue_local_run token_ed (t_wall env) s, [Text req])
          | Some resp \<Rightarrow>
              (if starts_with ''GRANT:'' resp then
                 (let token_ec = drop 6 resp;
                      ok = ok_msg token_ec token_ed
                  in (case image env of
                        None \<Rightarrow> (s, [Text req, Text ok])
                      | Some bytes \<Rightarrow>
                          (record_remote (t_end env - t_start env) s,
                           [Text req, Text ok] @ map Data (send_chunks bytes) @ [ShutWr])))
               else (record_fallback (yl_enqueue_local_run token_ed (t_wall env) s), [Text req])))))"

fun yl_run_all :: "(token \<times> net_env) list \<Rightarrow> ed_state \<Rightarrow> ed_state" where
  "yl_run_all [] s = s"
| "yl_run_all ((t, env) # ts) s = yl_run_all ts (fst (yl_run_request t env s))"

text \<open>
  \<open>main\<close>: \<open>std::stod\<close> of the rate and \<open>std::stoi\<close> of the duration may throw; the
  generator's tokens \<open>0 .. n_generated - 1\<close> are run by the workers in the order
  \<open>sched\<close>; then as in \<open>ed_main\<close>. The report prints the same counts, percentages
  and average as \<open>final_stats\<close>.
\<close>

definition yl_main ::
  "string list \<Rightarrow> nat \<Rightarrow> (token \<Rightarrow> net_env) \<Rightarrow> (token list \<Rightarrow> token list) \<Rightarrow> string list option \<Rightarrow> main_exit" where
  "yl_main argv n_generated envs sched fifo =
     (if length argv < 3 then Usage
      else (case cpp_stod (argv ! 1) of
        Inl e \<Rightarrow> Aborted e
      | Inr lambda_rate \<Rightarrow> (case cpp_stoi (argv ! 2) of
          Inl e \<Rightarrow> Aborted e
        | Inr duration_sec \<Rightarrow>
            (case stop_and_drain (yl_run_all (map (\<lambda>t. (t, envs t)) (sched (map int [0..<n_generated]))) ed_init) of
               None \<Rightarrow> Hangs
             | Some s \<Rightarrow> (case start_done_listener fifo s of
                           Inl e \<Rightarrow> Aborted e
                         | Inr s' \<Rightarrow> Finished (final_stats s'))))))"

subsection \<open>Lemmas\<close>

lemma yl_run_request_state:
  "fst (yl_run_request t env s) =
     (case client_outcome env of
        RemoteDone \<Rightarrow> record_remote (t_end env - t_start env) s
      | DoneLost \<Rightarrow> record_remote (t_end env - t_start env) s
      | ErrorFallback \<Rightarrow> yl_enqueue_local_run t (t_wall env) s
      | PayloadError \<Rightarrow> s
      | _ \<Rightarrow> record_fallback (yl_enqueue_local_run t (t_wall env) s))"
  by (auto simp: yl_run_request_def client_outcome_def Let_def
           split: option.splits if_splits outcome.splits)

text \<open>
  C26: the accounting of the yolov5s variant, branch by branch. Every call of
  \<open>run_request\<close> keeps \<open>completed = sent + ran\<close> balanced. A granted task whose image
  opened is counted as offloaded with its latency, even when no \<open>DONE\<close> arrives; every
  reply other than \<open>GRANT:\<close> (a \<open>DROP\<close> or an unrecognised one) queues the task for a
  local run and counts it as completed and run on the ED; a transport failure queues it
  without counting it; a granted task whose image cannot be opened changes nothing.
\<close>

theorem yl_run_request_accounts:
  assumes "yl_run_request t env s = (s', frames)"
  shows "completed_tasks s' - sent_to_ec s' - ran_on_ed s' = completed_tasks s - sent_to_ec s - ran_on_ed s
   \<and> completed_tasks s' = completed_tasks s + (if client_outcome env \<in> {ErrorFallback, PayloadError} then 0 else 1)
   \<and> sent_to_ec s' = sent_to_ec s + (if client_outcome env \<in> {RemoteDone, DoneLost} then 1 else 0)
   \<and> ran_on_ed s' = ran_on_ed s + (if client_outcome env \<in> {DropFallback, Unrecognised} then 1 else 0)
   \<and> total_latency_ms s' = total_latency_ms s
       + (if client_outcome env \<in> {RemoteDone, DoneLost} then t_end env - t_start env else 0)
   \<and> local_queue s' = local_queue s
       @ (if client_outcome env \<in> {RemoteDone, DoneLost, PayloadError} then [] else [show_int t @ '':'' @ yl_image])"
proof -
  have "s' = fst (yl_run_request t env s)" using assms by simp
  then show ?thesis
    by (simp add: yl_run_request_state record_remote_def record_fallback_def yl_enqueue_local_run_def
        split: outcome.split)
qed

theorem yl_run_request_accounts_witness:
  "sent_to_ec (fst (yl_run_request 0 (drop_env\<lparr>response := Some (grant_msg 0), image := Some ''JPEG''\<rparr>) ed_init)) = 1
   \<and> ran_on_ed (fst (yl_run_request 0 (drop_env\<lparr>response := Some (grant_msg 0), image := Some ''JPEG''\<rparr>) ed_init)) = 0
   \<and> local_queue (fst (yl_run_request 0 (drop_env\<lparr>response := Some (grant_msg 0), image := Some ''JPEG''\<rparr>) ed_init)) = []
   \<and> ran_on_ed (fst (yl_run_request 0 (drop_env\<lparr>response := Some ''BUSY''\<rparr>) ed_init)) = 1
   \<and> local_queue (fst (yl_run_request 0 (drop_env\<lparr>response := Some ''BUSY''\<rparr>) ed_init)) = [''0:'' @ yl_image]"
proof -
  have o1: "client_outcome (drop_env\<lparr>response := Some (grant_msg 0), image := Some ''JPEG''\<rparr>) = DoneLost"
    by (simp add: client_outcome_def drop_env_def grant_msg_def starts_with_def)
  have o2: "client_outcome (drop_env\<lparr>response := Some ''BUSY''\<rparr>) = Unrecognised"
    by (simp add: client_outcome_def drop_env_def drop_msg_def starts_with_def)
  have "show_int 0 = ''0''" by (simp add: show_int_def show_nat.simps digit_char_def decimal_digits_def)
  then show ?thesis
    using yl_run_request_accounts [OF prod.collapse [symmetric],
        of 0 "drop_env\<lparr>response := Some (grant_msg 0), image := Some ''JPEG''\<rparr>" ed_init]
      yl_run_request_accounts [OF prod.collapse [symmetric], of 0 "drop_env\<lparr>response := Some ''BUSY''\<rparr>" ed_init] o1 o2
    by (simp add: ed_init_def)
qed

end
