(* ===== verification/Pressure.thy ===== *)
theory Pressure
  imports Client
begin

text \<open>
  The ED variant \<open>src/Experiment_May15/ed_oms_parallel_rn50_fallabck_pressure.cpp\<close>.
  \<open>main\<close> starts one thread per task, each running \<open>run_request\<close>, and a feeder
  thread that writes queued image paths to a long-lived Python helper. Unlike the
  variant of \<open>Client\<close>, a granted task is counted by \<open>sent_to_ec++\<close> outside
  \<open>stats_mutex\<close> and nothing more is sent on its socket; connection failures and
  \<open>DROP\<close> both run locally and are counted. The globals of the file are the record
  \<open>pr_state\<close>, with one phase per request thread. \<open>pr_run_request\<close> is the part of a
  thread that runs under locks or touches only its own socket, which commutes with every
  other thread's; the unsynchronised increment is split into its load and its store
  (\<open>PrLoad\<close>, \<open>PrStore\<close>), which other threads' steps may separate.
\<close>

datatype pr_phase =
    PrStart          \<comment> \<open>thread created, \<open>run_request\<close> not yet run\<close>
  | PrGranted        \<comment> \<open>reply began with \<open>GRANT:\<close>; \<open>sent_to_ec++\<close> pending\<close>
  | PrLoaded int     \<comment> \<open>the increment has read \<open>sent_to_ec\<close>\<close>
  | PrStored         \<comment> \<open>the increment has written back; thread finished\<close>
  | PrDone           \<comment> \<open>finished on any other path\<close>

record pr_state =
  pr_completed_tasks :: int
  pr_ran_on_ed :: int
  pr_sent_to_ec :: int
  pr_total_latency_ms :: int
  pr_local_queue :: "string list"
  pr_stop_local :: bool
  pr_py_stdin :: "string list"
  pr_threads :: "pr_phase list"

definition pr_init :: pr_state where
  "pr_init = \<lparr>pr_completed_tasks = 0, pr_ran_on_ed = 0, pr_sent_to_ec = 0, pr_total_latency_ms = 0,
              pr_local_queue = [], pr_stop_local = False, pr_py_stdin = [], pr_threads = []\<rparr>"

definition pr_image :: string where
  "pr_image = ''COCO_test_1220/000000006321.jpg''"

definition pr_enqueue_local_run :: "string \<Rightarrow> pr_state \<Rightarrow> pr_state" where
  "pr_enqueue_local_run img s = s\<lparr>pr_local_queue := pr_local_queue s @ [img]\<rparr>"

text \<open>The locked update after a local fallback: \<open>completed_tasks++\<close>, the latency, \<open>ran_on_ed++\<close>.\<close>

definition pr_record_local :: "msec \<Rightarrow> pr_state \<Rightarrow> pr_state" where
  "pr_record_local dur s =
     s\<lparr>pr_completed_tasks := pr_completed_tasks s + 1, pr_total_latency_ms := pr_total_latency_ms s + dur,
       pr_ran_on_ed := pr_ran_on_ed s + 1\<rparr>"

text \<open>
  \<open>run_request\<close> up to the unsynchronised increment: the new state, the frames written,
  and whether the thread goes on to \<open>sent_to_ec++\<close>. A \<open>recv\<close> of at most zero bytes is
  \<open>response env = None\<close>; the latency is \<open>t_end env - t_start env\<close>.
\<close>

definition pr_run_request :: "token \<Rightarrow> net_env \<Rightarrow> pr_state \<Rightarrow> pr_state \<times> frame list \<times> bool" where
  "pr_run_request token_ed env s =
     (let dur = t_end env - t_start env in
      if \<not> sock_ok env then (s, [], False)
      else if \<not> connect_ok env then (pr_record_local dur (pr_enqueue_local_run pr_image s), [], False)
      else
        (let req = req_msg token_ed ''resnet_50'' ''PI5'' in
         (case response env of
            None \<Rightarrow> (s, [Text req], False)
          | Some resp \<Rightarrow>
              (if starts_with ''GRANT:'' resp then (s, [Text req], True)
               else if resp = drop_msg then
                 (pr_record_local dur (pr_enqueue_local_run pr_image s), [Text req], False)
               else (s, [Text req], False)))))"

definition pr_set_thread :: "nat \<Rightarrow> pr_phase \<Rightarrow> pr_state \<Rightarrow> pr_state" where
  "pr_set_thread i ph s = s\<lparr>pr_threads := (pr_threads s)[i := ph]\<rparr>"

definition pr_thread_at :: "pr_state \<Rightarrow> nat \<Rightarrow> pr_phase option" where
  "pr_thread_at s i = (if i < length (pr_threads s) then Some (pr_threads s ! i) else None)"

datatype pr_event = PrRun nat | PrLoad nat | PrStore nat

text \<open>One step of request thread \<open>i\<close>, whose task is token \<open>i\<close> with environment \<open>envs i\<close>.\<close>

fun pr_step :: "(nat \<Rightarrow> net_env) \<Rightarrow> pr_state \<Rightarrow> pr_event \<Rightarrow> pr_state option" where
  "pr_step envs s (PrRun i) =
     (case pr_thread_at s i of
        Some PrStart \<Rightarrow>
          (case pr_run_request (int i) (envs i) s of
             (s', _, granted) \<Rightarrow> Some (pr_set_thread i (if granted then PrGranted else PrDone) s'))
      | _ \<Rightarrow> None)"
| "pr_step envs s (PrLoad i) =
     (case pr_thread_at s i of
        Some PrGranted \<Rightarrow> Some (pr_set_thread i (PrLoaded (pr_sent_to_ec s)) s)
      | _ \<Rightarrow> None)"
| "pr_step envs s (PrStore i) =
     (case pr_thread_at s i of
        Some (PrLoaded r) \<Rightarrow> Some (pr_set_thread i PrStored (s\<lparr>pr_sent_to_ec := r + 1\<rparr>))
      | _ \<Rightarrow> None)"

fun pr_run :: "(nat \<Rightarrow> net_env) \<Rightarrow> pr_state \<Rightarrow> pr_event list \<Rightarrow> pr_state option" where
  "pr_run envs s [] = Some s"
| "pr_run envs s (e # es) = (case pr_step envs s e of None \<Rightarrow> None | Some s' \<Rightarrow> pr_run envs s' es)"

text \<open>\<open>threads.emplace_back(run_request, i)\<close> for \<open>i = 0 .. total_requests - 1\<close>.\<close>

definition pr_spawn :: "int \<Rightarrow> pr_state \<Rightarrow> pr_state" where
  "pr_spawn total_requests s = s\<lparr>pr_threads := replicate (nat total_requests) PrStart\<rparr>"

inductive pr_reachable :: "(nat \<Rightarrow> net_env) \<Rightarrow> int \<Rightarrow> pr_state \<Rightarrow> bool" for envs n where
  spawn: "pr_reachable envs n (pr_spawn n pr_init)"
| step: "pr_reachable envs n s \<Longrightarrow> pr_step envs s e = Some s' \<Longrightarrow> pr_reachable envs n s'"

text \<open>The feeder thread once \<open>stop_local\<close> is set, as in \<open>LocalExec\<close>.\<close>

partial_function (option) pr_feed :: "pr_state \<Rightarrow> pr_state option" where
  "pr_feed s =
     (if pr_local_queue s = [] \<and> \<not> pr_stop_local s then None
      else if pr_stop_local s \<and> pr_local_queue s = [] then Some s
      else pr_feed (s\<lparr>pr_local_queue := tl (pr_local_queue s),
                      pr_py_stdin := pr_py_stdin s @ [hd (pr_local_queue s)]\<rparr>))"

record pr_report =
  prr_completed :: int
  prr_ran :: int
  prr_offloaded :: int
  prr_avg_latency :: int

definition pr_final_stats :: "pr_state \<Rightarrow> pr_report" where
  "pr_final_stats s =
     \<lparr>prr_completed = pr_completed_tasks s, prr_ran = pr_ran_on_ed s, prr_offloaded = pr_sent_to_ec s,
      prr_avg_latency = (if pr_completed_tasks s = 0 then 0
                         else cpp_div (pr_total_latency_ms s) (pr_completed_tasks s))\<rparr>"

datatype pr_exit = PrUsage | PrAborted cpp_exc | PrHangs | PrFinished pr_report

text \<open>
  \<open>main\<close> for one interleaving \<open>events\<close> of the request threads: \<open>None\<close> when the
  events are not a complete execution of the threads that \<open>main\<close> starts.
  \<open>std::stod\<close> parses the arrival rate, which only sets the delays between spawns.
\<close>

definition pr_main :: "string list \<Rightarrow> (nat \<Rightarrow> net_env) \<Rightarrow> pr_event list \<Rightarrow> pr_exit option" where
  "pr_main argv envs events =
     (if length argv < 3 then Some PrUsage
      else (case cpp_stod (argv ! 1) of
        Inl e \<Rightarrow> Some (PrAborted e)
      | Inr lambda \<Rightarrow> (case cpp_stoi (argv ! 2) of
          Inl e \<Rightarrow> Some (PrAborted e)
        | Inr total_requests \<Rightarrow>
            (case pr_run envs (pr_spawn total_requests pr_init) events of
               None \<Rightarrow> None
             | Some s \<Rightarrow>
                 (if \<not> list_all (\<lambda>ph. ph = PrStored \<or> ph = PrDone) (pr_threads s) then None
                  else (case pr_feed (s\<lparr>pr_stop_local := True\<rparr>) of
                          None \<Rightarrow> Some PrHangs
                        | Some s' \<Rightarrow> Some (PrFinished (pr_final_stats s'))))))))"

subsection \<open>Invariant\<close>

definition stored_count :: "pr_state \<Rightarrow> nat" where
  "stored_count s = length (filter (\<lambda>ph. ph = PrStored) (pr_threads s))"

definition pr_inv :: "pr_state \<Rightarrow> bool" where
  "pr_inv s \<longleftrightarrow>
     pr_completed_tasks s = pr_ran_on_ed s
     \<and> 0 \<le> pr_sent_to_ec s \<and> pr_sent_to_ec s \<le> int (stored_count s)
     \<and> (\<forall>r. PrLoaded r \<in> set (pr_threads s) \<longrightarrow> 0 \<le> r \<and> r \<le> int (stored_count s))"

text \<open>A connection that the broker grants.\<close>

definition grant_env :: net_env where
  "grant_env = \<lparr>sock_ok = True, connect_ok = True, response = Some (grant_msg 0), image = None,
                done_reply = None, t_start = 0, t_end = 0, t_wall = 0\<rparr>"

subsection \<open>Lemmas\<close>

lemma pr_thread_at_Some: "pr_thread_at s i = Some ph \<longleftrightarrow> i < length (pr_threads s) \<and> pr_threads s ! i = ph"
  by (auto simp: pr_thread_at_def)

lemma pr_run_request_counters:
  "pr_run_request t env s = (s', fs, g) \<Longrightarrow>
     pr_sent_to_ec s' = pr_sent_to_ec s \<and> pr_threads s' = pr_threads s
     \<and> pr_completed_tasks s' - pr_ran_on_ed s' = pr_completed_tasks s - pr_ran_on_ed s"
  by (auto simp: pr_run_request_def pr_record_local_def pr_enqueue_local_run_def Let_def
           split: if_splits option.splits)

lemma stored_count_set:
  assumes "i < length (pr_threads s)"
  shows "int (stored_count (pr_set_thread i ph s)) =
           int (stored_count s) - (if pr_threads s ! i = PrStored then 1 else 0) + (if ph = PrStored then 1 else 0)"
  using assms by (simp add: stored_count_def pr_set_thread_def int_length_filter_update)

lemma set_update_loaded:
  "PrLoaded r \<in> set (xs[i := ph]) \<Longrightarrow> PrLoaded r \<in> set xs \<or> ph = PrLoaded r"
  using set_update_subset_insert [of xs i ph] by blast

lemma pr_inv_step:
  assumes inv: "pr_inv s" and st: "pr_step envs s e = Some s'"
  shows "pr_inv s'"
proof (cases e)
  case (PrRun i)
  with st obtain s1 fs g where run: "pr_run_request (int i) (envs i) s = (s1, fs, g)"
    and i: "i < length (pr_threads s)" "pr_threads s ! i = PrStart"
    and s': "s' = pr_set_thread i (if g then PrGranted else PrDone) s1"
    by (auto simp: pr_thread_at_Some split: option.splits pr_phase.splits prod.splits)
  from pr_run_request_counters [OF run] have c: "pr_sent_to_ec s1 = pr_sent_to_ec s"
    "pr_threads s1 = pr_threads s" "pr_completed_tasks s1 - pr_ran_on_ed s1 = pr_completed_tasks s - pr_ran_on_ed s"
    by auto
  have "int (stored_count s') = int (stored_count s1)"
    using stored_count_set [of i s1 "if g then PrGranted else PrDone"] i c(2) by (simp add: s')
  then have sc: "stored_count s' = stored_count s"
    using c(2) by (simp add: stored_count_def)
  show ?thesis
    using inv c sc i unfolding pr_inv_def s'
    by (auto simp: pr_set_thread_def dest!: set_update_loaded)
next
  case (PrLoad i)
  with st have i: "i < length (pr_threads s)" "pr_threads s ! i = PrGranted"
    and s': "s' = pr_set_thread i (PrLoaded (pr_sent_to_ec s)) s"
    by (auto simp: pr_thread_at_Some split: option.splits pr_phase.splits)
  have sc: "stored_count s' = stored_count s"
    using stored_count_set [of i s "PrLoaded (pr_sent_to_ec s)"] i by (simp add: s')
  show ?thesis
    using inv sc unfolding pr_inv_def s'
    by (auto simp: pr_set_thread_def dest!: set_update_loaded)
next
  case (PrStore i)
  with st obtain r where i: "i < length (pr_threads s)" "pr_threads s ! i = PrLoaded r"
    and s': "s' = pr_set_thread i PrStored (s\<lparr>pr_sent_to_ec := r + 1\<rparr>)"
    by (auto simp: pr_thread_at_Some split: option.splits pr_phase.splits)
  have "PrLoaded r \<in> set (pr_threads s)" using i by (metis nth_mem)
  with inv have r: "0 \<le> r" "r \<le> int (stored_count s)" by (auto simp: pr_inv_def)
  have sc: "int (stored_count s') = int (stored_count s) + 1"
    using stored_count_set [of i "s\<lparr>pr_sent_to_ec := r + 1\<rparr>" PrStored] i
    by (simp add: s' stored_count_def)
  show ?thesis
    using inv sc r unfolding pr_inv_def s'
    by (fastforce simp: pr_set_thread_def dest!: set_update_loaded)
qed

lemma pr_inv_spawn: "pr_inv (pr_spawn n pr_init)"
  by (simp add: pr_inv_def pr_spawn_def pr_init_def stored_count_def)

lemma pr_reachable_inv: "pr_reachable envs n s \<Longrightarrow> pr_inv s"
  by (induction rule: pr_reachable.induct) (auto intro: pr_inv_spawn pr_inv_step)

lemma pr_run_reachable:
  "pr_reachable envs n s \<Longrightarrow> pr_run envs s es = Some s' \<Longrightarrow> pr_reachable envs n s'"
  by (induction es arbitrary: s) (auto split: option.splits intro: pr_reachable.step)

lemma pr_feed_stop:
  "pr_stop_local s \<Longrightarrow> pr_feed s = Some (s\<lparr>pr_local_queue := [], pr_py_stdin := pr_py_stdin s @ pr_local_queue s\<rparr>)"
proof (induction "pr_local_queue s" arbitrary: s)
  case Nil
  then show ?case by (subst pr_feed.simps) simp
next
  case (Cons x xs)
  let ?t = "s\<lparr>pr_local_queue := tl (pr_local_queue s), pr_py_stdin := pr_py_stdin s @ [hd (pr_local_queue s)]\<rparr>"
  have "pr_local_queue ?t = xs" "pr_stop_local ?t"
    using Cons.hyps(2) Cons.prems by (simp_all flip: Cons.hyps(2))
  then have "pr_feed ?t = Some (?t\<lparr>pr_local_queue := [], pr_py_stdin := pr_py_stdin ?t @ xs\<rparr>)"
    by (metis Cons.hyps(1))
  with Cons.hyps(2) Cons.prems show ?case
    by (subst pr_feed.simps) (simp flip: Cons.hyps(2))
qed

text \<open>
  C17: in the pressure variant the offload counter never over-counts, and offloaded
  tasks are never counted as completed. In every state some interleaving of the request
  threads reaches, \<open>completed_tasks\<close> equals \<open>ran_on_ed\<close> and \<open>sent_to_ec\<close> lies between
  0 and the number of threads whose unsynchronised increment has written back.
\<close>

theorem pr_counters_bounded:
  assumes "pr_reachable envs n s"
  shows "pr_completed_tasks s = pr_ran_on_ed s \<and> 0 \<le> pr_sent_to_ec s \<and> pr_sent_to_ec s \<le> int (stored_count s)"
  using pr_reachable_inv [OF assms] by (simp add: pr_inv_def)

theorem pr_counters_bounded_witness:
  "pr_completed_tasks (the (pr_run (\<lambda>i. grant_env) (pr_spawn 2 pr_init) [PrRun 0, PrLoad 0, PrStore 0])) =
     pr_ran_on_ed (the (pr_run (\<lambda>i. grant_env) (pr_spawn 2 pr_init) [PrRun 0, PrLoad 0, PrStore 0]))
   \<and> 0 \<le> pr_sent_to_ec (the (pr_run (\<lambda>i. grant_env) (pr_spawn 2 pr_init) [PrRun 0, PrLoad 0, PrStore 0]))
   \<and> pr_sent_to_ec (the (pr_run (\<lambda>i. grant_env) (pr_spawn 2 pr_init) [PrRun 0, PrLoad 0, PrStore 0]))
       \<le> int (stored_count (the (pr_run (\<lambda>i. grant_env) (pr_spawn 2 pr_init) [PrRun 0, PrLoad 0, PrStore 0])))"
proof -
  let ?es = "[PrRun 0, PrLoad 0, PrStore 0]"
  have "pr_run (\<lambda>i. grant_env) (pr_spawn 2 pr_init) ?es = Some (the (pr_run (\<lambda>i. grant_env) (pr_spawn 2 pr_init) ?es))"
    by code_simp
  then have "pr_reachable (\<lambda>i. grant_env) 2 (the (pr_run (\<lambda>i. grant_env) (pr_spawn 2 pr_init) ?es))"
    by (rule pr_run_reachable [OF pr_reachable.spawn])
  then show ?thesis by (rule pr_counters_bounded)
qed

text \<open>Two threads that store different slots move two more threads to \<open>PrStored\<close>.\<close>

lemma pr_store_pair:
  assumes "i \<noteq> j" "i < length ts" "j < length ts" "ts ! i \<noteq> PrStored" "ts ! j \<noteq> PrStored"
  shows "length (filter (\<lambda>ph. ph = PrStored) (ts[i := PrStored, j := PrStored]))
           = length (filter (\<lambda>ph. ph = PrStored) ts) + 2"
proof -
  have "int (length (filter (\<lambda>ph. ph = PrStored) (ts[i := PrStored])))
          = int (length (filter (\<lambda>ph. ph = PrStored) ts)) + 1"
    using assms(2,4) by (simp add: int_length_filter_update)
  moreover have "int (length (filter (\<lambda>ph. ph = PrStored) (ts[i := PrStored, j := PrStored])))
          = int (length (filter (\<lambda>ph. ph = PrStored) (ts[i := PrStored]))) + 1"
    using assms(1,3,5) by (simp add: int_length_filter_update nth_list_update)
  ultimately show ?thesis by simp
qed

text \<open>
  C18: the unsynchronised \<open>sent_to_ec++\<close> loses updates. From any state in which two
  request threads have been granted, the interleaving in which both read \<open>sent_to_ec\<close>
  before either writes it back finishes both increments but adds one to the counter;
  the interleaving in which each increment runs alone adds two.
\<close>

theorem pr_lost_update:
  assumes "i \<noteq> j" "pr_thread_at s i = Some PrGranted" "pr_thread_at s j = Some PrGranted"
  shows "map_option (\<lambda>s'. (pr_sent_to_ec s', stored_count s'))
           (pr_run envs s [PrLoad i, PrLoad j, PrStore i, PrStore j]) = Some (pr_sent_to_ec s + 1, stored_count s + 2)
         \<and> map_option (\<lambda>s'. (pr_sent_to_ec s', stored_count s'))
           (pr_run envs s [PrLoad i, PrStore i, PrLoad j, PrStore j]) = Some (pr_sent_to_ec s + 2, stored_count s + 2)"
proof -
  have ij: "i < length (pr_threads s)" "j < length (pr_threads s)"
    "pr_threads s ! i = PrGranted" "pr_threads s ! j = PrGranted"
    using assms(2,3) by (simp_all add: pr_thread_at_Some)
  have upd: "(pr_threads s)[i := a, j := b, i := PrStored, j := PrStored] = (pr_threads s)[i := PrStored, j := PrStored]"
    "(pr_threads s)[i := a, i := PrStored, j := b, j := PrStored] = (pr_threads s)[i := PrStored, j := PrStored]" for a b
    using assms(1) by (simp_all add: list_update_swap)
  have sc: "length (filter (\<lambda>ph. ph = PrStored) ((pr_threads s)[i := PrStored, j := PrStored]))
              = stored_count s + 2"
    using pr_store_pair [OF assms(1) ij(1,2)] ij(3,4) by (simp add: stored_count_def)
  show ?thesis
    using assms(1) ij sc
    by (simp add: pr_thread_at_def pr_set_thread_def nth_list_update upd stored_count_def)
qed

theorem pr_lost_update_witness:
  "map_option (\<lambda>s'. (pr_sent_to_ec s', stored_count s'))
     (pr_run (\<lambda>_. grant_env) (pr_init\<lparr>pr_threads := [PrGranted, PrGranted]\<rparr>) [PrLoad 0, PrLoad 1, PrStore 0, PrStore 1])
     = Some (pr_sent_to_ec (pr_init\<lparr>pr_threads := [PrGranted, PrGranted]\<rparr>) + 1,
             stored_count (pr_init\<lparr>pr_threads := [PrGranted, PrGranted]\<rparr>) + 2)
   \<and> map_option (\<lambda>s'. (pr_sent_to_ec s', stored_count s'))
     (pr_run (\<lambda>_. grant_env) (pr_init\<lparr>pr_threads := [PrGranted, PrGranted]\<rparr>) [PrLoad 0, PrStore 0, PrLoad 1, PrStore 1])
     = Some (pr_sent_to_ec (pr_init\<lparr>pr_threads := [PrGranted, PrGranted]\<rparr>) + 2,
             stored_count (pr_init\<lparr>pr_threads := [PrGranted, PrGranted]\<rparr>) + 2)"
  by (rule pr_lost_update) (simp_all add: pr_thread_at_def)

end
