(* ===== verification/Basic.thy ===== *)
theory Basic
  imports Client
begin

text \<open>
  The first, sequential ED variant \<open>src/Experiment_May15/ed_oms_parallel_basic_working.cpp\<close>.
  \<open>main\<close> calls \<open>run_request\<close> for the tokens \<open>0 .. total_requests - 1\<close> one after
  another (the vector of threads stays empty). Local execution is a synchronous
  \<open>std::system(LOCAL_CMD)\<close>, counted in \<open>bs_local_runs\<close>. The reply is read into a zeroed
  256-byte buffer and taken as a C string (\<open>cstr_of_buf\<close>); the result of \<open>recv\<close> is not
  checked, so a failed \<open>recv\<close> is the empty reply. The image is sent by
  \<open>while (file.read(img_buf, 4096)) send(...)\<close> alone: a final partial block is read but
  never sent.
\<close>

record bs_state =
  bs_completed_tasks :: int
  bs_ran_on_ed :: int
  bs_sent_to_ec :: int
  bs_total_latency_ms :: int
  bs_local_runs :: nat

definition bs_init :: bs_state where
  "bs_init = \<lparr>bs_completed_tasks = 0, bs_ran_on_ed = 0, bs_sent_to_ec = 0, bs_total_latency_ms = 0,
              bs_local_runs = 0\<rparr>"

text \<open>The blocks that \<open>file.read(img_buf, 4096)\<close> reads completely.\<close>

fun full_chunks :: "string \<Rightarrow> string list" where
  "full_chunks bytes =
     (if length bytes < 4096 then [] else take 4096 bytes # full_chunks (drop 4096 bytes))"

declare full_chunks.simps [simp del]

definition bs_run_request :: "token \<Rightarrow> net_env \<Rightarrow> bs_state \<Rightarrow> bs_state \<times> frame list" where
  "bs_run_request token_ed env s =
     (let duration = t_end env - t_start env in
      if \<not> sock_ok env then (s, [])
      else if \<not> connect_ok env then
        (s\<lparr>bs_local_runs := bs_local_runs s + 1, bs_completed_tasks := bs_completed_tasks s + 1,
           bs_total_latency_ms := bs_total_latency_ms s + duration\<rparr>, [])
      else
        (let req = req_msg token_ed ''resnet_50'' ''PI5'';
             resp = cstr_of_buf (case response env of None \<Rightarrow> [] | Some b \<Rightarrow> b)
         in if starts_with ''GRANT:'' resp then
              (let token_ec = drop 6 resp;
                   ok = ok_msg token_ec token_ed
               in (case image env of
                     None \<Rightarrow> (s, [Text req, Text ok])
                   | Some bytes \<Rightarrow>
                       (s\<lparr>bs_completed_tasks := bs_completed_tasks s + 1,
                          bs_total_latency_ms := bs_total_latency_ms s + duration,
                          bs_sent_to_ec := bs_sent_to_ec s + 1\<rparr>,
                        [Text req, Text ok] @ map Data (full_chunks bytes))))
            else if resp = drop_msg then
              (s\<lparr>bs_local_runs := bs_local_runs s + 1, bs_completed_tasks := bs_completed_tasks s + 1,
                 bs_total_latency_ms := bs_total_latency_ms s + duration, bs_ran_on_ed := bs_ran_on_ed s + 1\<rparr>,
               [Text req])
            else (s, [Text req])))"

fun bs_run_all :: "token list \<Rightarrow> (token \<Rightarrow> net_env) \<Rightarrow> bs_state \<Rightarrow> bs_state" where
  "bs_run_all [] envs s = s"
| "bs_run_all (t # ts) envs s = bs_run_all ts envs (fst (bs_run_request t (envs t) s))"

record bs_report =
  bsr_completed :: int
  bsr_sent :: int
  bsr_ran :: int
  bsr_avg_latency :: int

datatype bs_exit = BsUsage | BsAborted cpp_exc | BsFinished bs_report

definition bs_main :: "string list \<Rightarrow> (token \<Rightarrow> net_env) \<Rightarrow> bs_exit" where
  "bs_main argv envs =
     (if length argv < 3 then BsUsage
      else (case cpp_stod (argv ! 1) of
        Inl e \<Rightarrow> BsAborted e
      | Inr lambda \<Rightarrow> (case cpp_stoi (argv ! 2) of
          Inl e \<Rightarrow> BsAborted e
        | Inr total_requests \<Rightarrow>
            (let s = bs_run_all (map int [0..<nat total_requests]) envs bs_init
             in BsFinished \<lparr>bsr_completed = bs_completed_tasks s, bsr_sent = bs_sent_to_ec s,
                            bsr_ran = bs_ran_on_ed s,
                            bsr_avg_latency = (if bs_completed_tasks s = 0 then 0
                                               else cpp_div (bs_total_latency_ms s) (bs_completed_tasks s))\<rparr>))))"

text \<open>The bytes of the payload frames, in order.\<close>

definition payload_of :: "frame list \<Rightarrow> string" where
  "payload_of fs = concat (map (\<lambda>f. case f of Data d \<Rightarrow> d | _ \<Rightarrow> []) fs)"

subsection \<open>Lemmas\<close>

lemma concat_full_chunks: "concat (full_chunks bytes) = take (4096 * (length bytes div 4096)) bytes"
proof (induction bytes rule: full_chunks.induct)
  case (1 bytes)
  show ?case
  proof (cases "length bytes < 4096")
    case True
    then show ?thesis by (subst full_chunks.simps) simp
  next
    case False
    then have "length bytes div 4096 = Suc ((length bytes - 4096) div 4096)"
      by (simp add: le_div_geq)
    with False "1.IH" show ?thesis
      by (subst full_chunks.simps) (simp add: take_add [symmetric] drop_take)
  qed
qed

text \<open>
  C24: the basic variant truncates the image it offloads. After a grant, the bytes it
  writes as payload are the file's first \<open>4096 * (length div 4096)\<close> bytes: the last
  \<open>length mod 4096\<close> bytes are never sent, and an image shorter than 4096 bytes is sent
  as nothing at all, while the task is still counted as offloaded.
\<close>

theorem bs_payload_truncated:
  assumes "sock_ok env" "connect_ok env" "response env = Some (grant_msg p)"
    and "length (grant_msg p) \<le> 255" "image env = Some bytes"
  shows "payload_of (snd (bs_run_request t env s)) = take (4096 * (length bytes div 4096)) bytes
       \<and> bs_sent_to_ec (fst (bs_run_request t env s)) = bs_sent_to_ec s + 1"
proof -
  have "cstr_of_buf (grant_msg p) = grant_msg p"
    using assms(4) by (intro cstr_of_buf_plain) simp_all
  moreover have "starts_with ''GRANT:'' (grant_msg p)" by (simp add: grant_msg_def starts_with_def)
  ultimately have "bs_run_request t env s =
      (s\<lparr>bs_completed_tasks := bs_completed_tasks s + 1,
         bs_total_latency_ms := bs_total_latency_ms s + (t_end env - t_start env),
         bs_sent_to_ec := bs_sent_to_ec s + 1\<rparr>,
       [Text (req_msg t ''resnet_50'' ''PI5''), Text (ok_msg (drop 6 (grant_msg p)) t)] @ map Data (full_chunks bytes))"
    using assms by (simp add: bs_run_request_def Let_def)
  then show ?thesis
    by (simp add: payload_of_def o_def concat_full_chunks [symmetric])
qed

theorem bs_payload_truncated_witness:
  "payload_of (snd (bs_run_request 0 (drop_env\<lparr>response := Some (grant_msg 0),
       image := Some (replicate 5000 CHR ''x'')\<rparr>) bs_init)) = replicate 4096 CHR ''x''"
proof -
  have "payload_of (snd (bs_run_request 0 (drop_env\<lparr>response := Some (grant_msg 0),
       image := Some (replicate 5000 CHR ''x'')\<rparr>) bs_init)) =
        take (4096 * (length (replicate 5000 CHR ''x'') div 4096)) (replicate 5000 CHR ''x'')"
    using bs_payload_truncated [of "drop_env\<lparr>response := Some (grant_msg 0), image := Some (replicate 5000 CHR ''x'')\<rparr>"
        0 "replicate 5000 CHR ''x''" 0 bs_init]
    by (simp add: drop_env_def grant_msg_def show_int_def show_nat.simps digit_char_def decimal_digits_def)
  then show ?thesis by simp
qed

text \<open>
  C25: in the basic variant a connection failure is counted as completed but neither as
  offloaded nor as run locally, although it runs the task locally. Each call of
  \<open>run_request\<close> raises \<open>completed - sent - ran\<close> by one exactly when \<open>socket\<close> succeeds
  and \<open>connect\<close> fails, and the number of local runs by one on that path and on \<open>DROP\<close>.
\<close>

theorem bs_failover_uncounted:
  "bs_completed_tasks (fst (bs_run_request t env s)) - bs_sent_to_ec (fst (bs_run_request t env s))
     - bs_ran_on_ed (fst (bs_run_request t env s))
   = bs_completed_tasks s - bs_sent_to_ec s - bs_ran_on_ed s
     + (if sock_ok env \<and> \<not> connect_ok env then 1 else 0)
   \<and> int (bs_local_runs (fst (bs_run_request t env s))) - bs_ran_on_ed (fst (bs_run_request t env s))
   = int (bs_local_runs s) - bs_ran_on_ed s + (if sock_ok env \<and> \<not> connect_ok env then 1 else 0)"
  by (simp add: bs_run_request_def Let_def split: option.split)

end
