(* ===== verification/Retina.thy ===== *)
theory Retina
  imports Basic
begin

text \<open>
  The ED variant \<open>src/Experiment_May15/ed_oms_parallel_working_withdpu_retina.cpp\<close>.
  \<open>main\<close> starts one thread per task; each \<open>run_request\<close> first takes the counting
  semaphore \<open>thread_limit\<close> (class \<open>SimpleSemaphore\<close>, initial count 100) and gives it
  back on every path out. Local runs (after a connection failure or a \<open>DROP\<close>) first
  take one of \<open>MAX_LOCAL = 20\<close> slots by a locked test-and-increment of
  \<open>local_running\<close>, retried every 50 ms, run \<open>LOCAL_CMD\<close>, and free the slot.

  Each thread has a phase; the events are the thread's accesses to shared state:
  \<open>RtAcquire\<close> (\<open>thread_limit.acquire()\<close>, enabled when the count is positive),
  \<open>RtNet\<close> (the socket exchange up to the next shared access, with the locked update of
  the counters on the offload path), \<open>RtLocalEnter\<close> (the successful test-and-increment),
  \<open>RtLocalExit\<close> (the decrement and the locked counter update), \<open>RtRelease\<close>
  (\<open>thread_limit.release()\<close>). A failed \<open>recv\<close> of \<open>DONE\<close> returns -1, and
  \<open>std::string(done_buf, bytes)\<close> with \<open>bytes = -1\<close> asks for \<open>size_t(-1)\<close> characters
  and throws \<open>std::length_error\<close>; uncaught in a thread, it terminates the process
  (phase \<open>RtCrashed\<close>). In \<open>net_env\<close>, \<open>done_reply = None\<close> is that failed \<open>recv\<close> and
  \<open>Some m\<close> the \<open>m\<close> bytes received (possibly none).
\<close>

definition max_local :: int where
  "max_local = 20"

definition thread_limit_init :: int where
  "thread_limit_init = 100"

datatype rt_phase =
    RtStart                \<comment> \<open>thread created, \<open>acquire\<close> pending\<close>
  | RtInside               \<comment> \<open>holds the semaphore; socket exchange pending\<close>
  | RtWaitLocal msec       \<comment> \<open>needs a local slot; the task's latency\<close>
  | RtLocalRun msec        \<comment> \<open>holds a local slot; \<open>LOCAL_CMD\<close> running\<close>
  | RtLeaving              \<comment> \<open>done with the task; \<open>release\<close> pending\<close>
  | RtDone
  | RtCrashed              \<comment> \<open>\<open>std::length_error\<close> escaped the thread\<close>

record rt_state =
  rt_completed_tasks :: int
  rt_ran_on_ed :: int
  rt_sent_to_ec :: int
  rt_total_latency_ms :: int
  rt_local_running :: int
  rt_sem_count :: int
  rt_local_runs :: nat
  rt_threads :: "rt_phase list"

definition rt_init :: rt_state where
  "rt_init = \<lparr>rt_completed_tasks = 0, rt_ran_on_ed = 0, rt_sent_to_ec = 0, rt_total_latency_ms = 0,
              rt_local_running = 0, rt_sem_count = thread_limit_init, rt_local_runs = 0, rt_threads = []\<rparr>"

text \<open>\<open>SimpleSemaphore::acquire\<close> after its wait, and \<open>release\<close>.\<close>

definition sem_acquire :: "rt_state \<Rightarrow> rt_state" where
  "sem_acquire s = s\<lparr>rt_sem_count := rt_sem_count s - 1\<rparr>"

definition sem_release :: "rt_state \<Rightarrow> rt_state" where
  "sem_release s = s\<lparr>rt_sem_count := rt_sem_count s + 1\<rparr>"

text \<open>
  The socket exchange of \<open>run_request\<close> from \<open>socket\<close> to the next access of shared
  state: the phase it leads to and the counters it updates. The reply is read as a C
  string.
\<close>

definition rt_net :: "net_env \<Rightarrow> rt_state \<Rightarrow> rt_state \<times> rt_phase" where
  "rt_net env s =
     (let duration = t_end env - t_start env in
      if \<not> sock_ok env then (s, RtLeaving)
      else if \<not> connect_ok env then (s, RtWaitLocal duration)
      else
        (let resp = cstr_of_buf (case response env of None \<Rightarrow> [] | Some b \<Rightarrow> b) in
         if starts_with ''GRANT:'' resp then
           (case image env of
              None \<Rightarrow> (s, RtLeaving)
            | Some _ \<Rightarrow>
                (case done_reply env of
                   None \<Rightarrow> (s, RtCrashed)
                 | Some m \<Rightarrow>
                     (if m = done_msg then
                        (s\<lparr>rt_completed_tasks := rt_completed_tasks s + 1,
                           rt_total_latency_ms := rt_total_latency_ms s + duration,
                           rt_sent_to_ec := rt_sent_to_ec s + 1\<rparr>, RtLeaving)
                      else (s, RtLeaving))))
         else if resp = drop_msg then (s, RtWaitLocal duration)
         else (s, RtLeaving)))"

text \<open>After \<open>LOCAL_CMD\<close>: \<open>local_running--\<close>, then the locked counter update.\<close>

definition rt_local_exit :: "msec \<Rightarrow> rt_state \<Rightarrow> rt_state" where
  "rt_local_exit duration s =
     s\<lparr>rt_local_running := rt_local_running s - 1, rt_local_runs := rt_local_runs s + 1,
       rt_completed_tasks := rt_completed_tasks s + 1,
       rt_total_latency_ms := rt_total_latency_ms s + duration, rt_ran_on_ed := rt_ran_on_ed s + 1\<rparr>"

definition rt_set_thread :: "nat \<Rightarrow> rt_phase \<Rightarrow> rt_state \<Rightarrow> rt_state" where
  "rt_set_thread i ph s = s\<lparr>rt_threads := (rt_threads s)[i := ph]\<rparr>"

definition rt_thread_at :: "rt_state \<Rightarrow> nat \<Rightarrow> rt_phase option" where
  "rt_thread_at s i = (if i < length (rt_threads s) then Some (rt_threads s ! i) else None)"

datatype rt_event = RtAcquire nat | RtNet nat | RtLocalEnter nat | RtLocalExit nat | RtRelease nat

fun rt_step :: "(nat \<Rightarrow> net_env) \<Rightarrow> rt_state \<Rightarrow> rt_event \<Rightarrow> rt_state option" where
  "rt_step envs s (RtAcquire i) =
     (case rt_thread_at s i of
        Some RtStart \<Rightarrow> (if 0 < rt_sem_count s then Some (rt_set_thread i RtInside (sem_acquire s)) else None)
      | _ \<Rightarrow> None)"
| "rt_step envs s (RtNet i) =
     (case rt_thread_at s i of
        Some RtInside \<Rightarrow> (case rt_net (envs i) s of (s', ph) \<Rightarrow> Some (rt_set_thread i ph s'))
      | _ \<Rightarrow> None)"
| "rt_step envs s (RtLocalEnter i) =
     (case rt_thread_at s i of
        Some (RtWaitLocal d) \<Rightarrow>
          (if rt_local_running s < max_local
           then Some (rt_set_thread i (RtLocalRun d) (s\<lparr>rt_local_running := rt_local_running s + 1\<rparr>))
           else None)
      | _ \<Rightarrow> None)"
| "rt_step envs s (RtLocalExit i) =
     (case rt_thread_at s i of
        Some (RtLocalRun d) \<Rightarrow> Some (rt_set_thread i RtLeaving (rt_local_exit d s))
      | _ \<Rightarrow> None)"
| "rt_step envs s (RtRelease i) =
     (case rt_thread_at s i of
        Some RtLeaving \<Rightarrow> Some (rt_set_thread i RtDone (sem_release s))
      | _ \<Rightarrow> None)"

fun rt_run :: "(nat \<Rightarrow> net_env) \<Rightarrow> rt_state \<Rightarrow> rt_event list \<Rightarrow> rt_state option" where
  "rt_run envs s [] = Some s"
| "rt_run envs s (e # es) = (case rt_step envs s e of None \<Rightarrow> None | Some s' \<Rightarrow> rt_run envs s' es)"

definition rt_spawn :: "int \<Rightarrow> rt_state \<Rightarrow> rt_state" where
  "rt_spawn total_requests s = s\<lparr>rt_threads := replicate (nat total_requests) RtStart\<rparr>"

inductive rt_reachable :: "(nat \<Rightarrow> net_env) \<Rightarrow> int \<Rightarrow> rt_state \<Rightarrow> bool" for envs n where
  spawn: "rt_reachable envs n (rt_spawn n rt_init)"
| step: "rt_reachable envs n s \<Longrightarrow> rt_step envs s e = Some s' \<Longrightarrow> rt_reachable envs n s'"

datatype rt_exit = RtUsage | RtAborted cpp_exc | RtTerminated | RtFinished bs_report

text \<open>
  \<open>main\<close> for one interleaving \<open>events\<close>: \<open>None\<close> when they are not an execution of
  the threads \<open>main\<close> starts, or when it is not yet over. A crashed thread terminates the
  process; once every thread is done the report is printed.
\<close>

definition rt_main :: "string list \<Rightarrow> (nat \<Rightarrow> net_env) \<Rightarrow> rt_event list \<Rightarrow> rt_exit option" where
  "rt_main argv envs events =
     (if length argv < 3 then Some RtUsage
      else (case cpp_stod (argv ! 1) of
        Inl e \<Rightarrow> Some (RtAborted e)
      | Inr lambda \<Rightarrow> (case cpp_stoi (argv ! 2) of
          Inl e \<Rightarrow> Some (RtAborted e)
        | Inr total_requests \<Rightarrow>
            (case rt_run envs (rt_spawn total_requests rt_init) events of
               None \<Rightarrow> None
             | Some s \<Rightarrow>
                 (if RtCrashed \<in> set (rt_threads s) then Some RtTerminated
                  else if list_all (\<lambda>ph. ph = RtDone) (rt_threads s) then
                    Some (RtFinished \<lparr>bsr_completed = rt_completed_tasks s, bsr_sent = rt_sent_to_ec s,
                                      bsr_ran = rt_ran_on_ed s,
                                      bsr_avg_latency = (if rt_completed_tasks s = 0 then 0
                                         else cpp_div (rt_total_latency_ms s) (rt_completed_tasks s))\<rparr>)
                  else None)))))"

subsection \<open>Invariant\<close>

fun holds_sem :: "rt_phase \<Rightarrow> bool" where
  "holds_sem RtStart = False"
| "holds_sem RtDone = False"
| "holds_sem _ = True"

fun holds_local :: "rt_phase \<Rightarrow> bool" where
  "holds_local (RtLocalRun _) = True"
| "holds_local _ = False"

definition sem_holders :: "rt_state \<Rightarrow> nat" where
  "sem_holders s = length (filter holds_sem (rt_threads s))"

definition local_holders :: "rt_state \<Rightarrow> nat" where
  "local_holders s = length (filter holds_local (rt_threads s))"

definition rt_inv :: "rt_state \<Rightarrow> bool" where
  "rt_inv s \<longleftrightarrow>
     rt_sem_count s + int (sem_holders s) = thread_limit_init \<and> 0 \<le> rt_sem_count s
     \<and> rt_local_running s = int (local_holders s) \<and> rt_local_running s \<le> max_local
     \<and> rt_completed_tasks s = rt_sent_to_ec s + rt_ran_on_ed s"

subsection \<open>Lemmas\<close>

lemma rt_thread_at_Some: "rt_thread_at s i = Some ph \<longleftrightarrow> i < length (rt_threads s) \<and> rt_threads s ! i = ph"
  by (auto simp: rt_thread_at_def)

lemma rt_holders_set:
  assumes "i < length (rt_threads s)"
  shows "int (sem_holders (rt_set_thread i ph s)) =
           int (sem_holders s) - (if holds_sem (rt_threads s ! i) then 1 else 0) + (if holds_sem ph then 1 else 0)"
    and "int (local_holders (rt_set_thread i ph s)) =
           int (local_holders s) - (if holds_local (rt_threads s ! i) then 1 else 0) + (if holds_local ph then 1 else 0)"
  using assms by (simp_all add: sem_holders_def local_holders_def rt_set_thread_def int_length_filter_update)

lemma rt_holders_fields [simp]:
  "sem_holders (s\<lparr>rt_completed_tasks := a\<rparr>) = sem_holders s" "local_holders (s\<lparr>rt_completed_tasks := a\<rparr>) = local_holders s"
  "sem_holders (s\<lparr>rt_sem_count := a\<rparr>) = sem_holders s" "local_holders (s\<lparr>rt_sem_count := a\<rparr>) = local_holders s"
  "sem_holders (s\<lparr>rt_local_running := a\<rparr>) = sem_holders s" "local_holders (s\<lparr>rt_local_running := a\<rparr>) = local_holders s"
  by (simp_all add: sem_holders_def local_holders_def)

lemma rt_net_frame:
  assumes "rt_net env s = (s', ph)"
  shows "rt_threads s' = rt_threads s \<and> rt_sem_count s' = rt_sem_count s \<and> rt_local_running s' = rt_local_running s
       \<and> rt_completed_tasks s' - rt_sent_to_ec s' - rt_ran_on_ed s' = rt_completed_tasks s - rt_sent_to_ec s - rt_ran_on_ed s
       \<and> holds_sem ph \<and> \<not> holds_local ph"
  using assms by (auto simp: rt_net_def Let_def split: if_splits option.splits)

lemma rt_inv_step:
  assumes inv: "rt_inv s" and st: "rt_step envs s e = Some s'"
  shows "rt_inv s'"
proof (cases e)
  case (RtAcquire i)
  with st have i: "i < length (rt_threads s)" "rt_threads s ! i = RtStart" "0 < rt_sem_count s"
    and s': "s' = rt_set_thread i RtInside (sem_acquire s)"
    by (auto simp: rt_thread_at_Some split: option.splits rt_phase.splits if_splits)
  have "int (sem_holders s') = int (sem_holders s) + 1" "local_holders s' = local_holders s"
    using rt_holders_set [of i "sem_acquire s" RtInside] i by (simp_all add: s' sem_acquire_def)
  with inv i show ?thesis unfolding rt_inv_def s' by (simp add: rt_set_thread_def sem_acquire_def)
next
  case (RtNet i)
  with st obtain s1 ph where i: "i < length (rt_threads s)" "rt_threads s ! i = RtInside"
    and net: "rt_net (envs i) s = (s1, ph)" and s': "s' = rt_set_thread i ph s1"
    by (auto simp: rt_thread_at_Some split: option.splits rt_phase.splits prod.splits)
  note f = rt_net_frame [OF net]
  have "int (sem_holders s') = int (sem_holders s1)" "int (local_holders s') = int (local_holders s1)"
    using rt_holders_set [of i s1 ph] i f by (simp_all add: s')
  moreover have "sem_holders s1 = sem_holders s" "local_holders s1 = local_holders s"
    using f by (simp_all add: sem_holders_def local_holders_def)
  ultimately show ?thesis
    using inv f unfolding rt_inv_def s' by (simp add: rt_set_thread_def)
next
  case (RtLocalEnter i)
  with st obtain d where i: "i < length (rt_threads s)" "rt_threads s ! i = RtWaitLocal d"
    "rt_local_running s < max_local"
    and s': "s' = rt_set_thread i (RtLocalRun d) (s\<lparr>rt_local_running := rt_local_running s + 1\<rparr>)"
    by (auto simp: rt_thread_at_Some split: option.splits rt_phase.splits if_splits)
  have "int (sem_holders s') = int (sem_holders s)" "int (local_holders s') = int (local_holders s) + 1"
    using rt_holders_set [of i "s\<lparr>rt_local_running := rt_local_running s + 1\<rparr>" "RtLocalRun d"] i
    by (simp_all add: s')
  with inv i show ?thesis unfolding rt_inv_def s' by (simp add: rt_set_thread_def)
next
  case (RtLocalExit i)
  with st obtain d where i: "i < length (rt_threads s)" "rt_threads s ! i = RtLocalRun d"
    and s': "s' = rt_set_thread i RtLeaving (rt_local_exit d s)"
    by (auto simp: rt_thread_at_Some split: option.splits rt_phase.splits)
  have "int (sem_holders s') = int (sem_holders s)" "int (local_holders s') = int (local_holders s) - 1"
    using rt_holders_set [of i "rt_local_exit d s" RtLeaving] i
    by (simp_all add: s' rt_local_exit_def sem_holders_def local_holders_def)
  with inv i show ?thesis unfolding rt_inv_def s' by (simp add: rt_set_thread_def rt_local_exit_def)
next
  case (RtRelease i)
  with st have i: "i < length (rt_threads s)" "rt_threads s ! i = RtLeaving"
    and s': "s' = rt_set_thread i RtDone (sem_release s)"
    by (auto simp: rt_thread_at_Some split: option.splits rt_phase.splits)
  have "int (sem_holders s') = int (sem_holders s) - 1" "local_holders s' = local_holders s"
    using rt_holders_set [of i "sem_release s" RtDone] i by (simp_all add: s' sem_release_def)
  moreover have "0 < sem_holders s"
  proof -
    have "RtLeaving \<in> set (filter holds_sem (rt_threads s))" using i by (simp, metis nth_mem)
    then show ?thesis unfolding sem_holders_def by (rule length_pos_if_in_set)
  qed
  ultimately show ?thesis
    using inv i unfolding rt_inv_def s' by (simp add: rt_set_thread_def sem_release_def)
qed

lemma rt_inv_spawn: "rt_inv (rt_spawn n rt_init)"
  by (simp add: rt_inv_def rt_spawn_def rt_init_def sem_holders_def local_holders_def thread_limit_init_def
        max_local_def)

lemma rt_reachable_inv: "rt_reachable envs n s \<Longrightarrow> rt_inv s"
  by (induction rule: rt_reachable.induct) (auto intro: rt_inv_spawn rt_inv_step)

lemma rt_run_reachable:
  "rt_reachable envs n s \<Longrightarrow> rt_run envs s es = Some s' \<Longrightarrow> rt_reachable envs n s'"
  by (induction es arbitrary: s) (auto split: option.splits intro: rt_reachable.step)

lemma rt_enabled_holder:
  assumes inv: "rt_inv s" and i: "i < length (rt_threads s)" "holds_sem (rt_threads s ! i)"
    and nc: "rt_threads s ! i \<noteq> RtCrashed"
  shows "\<exists>e s'. rt_step envs s e = Some s'"
proof (cases "rt_threads s ! i")
  case (RtWaitLocal d)
  show ?thesis
  proof (cases "rt_local_running s < max_local")
    case True
    with i RtWaitLocal show ?thesis by (auto simp: rt_thread_at_def intro!: exI [of _ "RtLocalEnter i"])
  next
    case False
    with inv have "0 < local_holders s" by (simp add: rt_inv_def max_local_def)
    then obtain ph where "ph \<in> set (rt_threads s)" "holds_local ph"
      unfolding local_holders_def by (metis filter_empty_conv length_greater_0_conv)
    then obtain j d' where "j < length (rt_threads s)" "rt_threads s ! j = RtLocalRun d'"
      by (metis holds_local.elims(2) in_set_conv_nth)
    then show ?thesis by (auto simp: rt_thread_at_def intro!: exI [of _ "RtLocalExit j"])
  qed
qed (use i nc in \<open>auto simp: rt_thread_at_def split: prod.split
      intro: exI [of _ "RtNet i"] exI [of _ "RtLocalExit i"] exI [of _ "RtRelease i"]\<close>)

text \<open>
  C27: the retina variant's limits hold under every interleaving. At most 100 threads
  are inside \<open>run_request\<close> past \<open>acquire\<close>, the semaphore count never goes negative,
  \<open>local_running\<close> stays between 0 and 20 and equals the number of local runs in
  progress, and completed = offloaded + local.
\<close>

theorem rt_limits:
  assumes "rt_reachable envs n s"
  shows "0 \<le> rt_sem_count s \<and> sem_holders s \<le> 100 \<and> 0 \<le> rt_local_running s \<and> rt_local_running s \<le> 20
       \<and> rt_local_running s = int (local_holders s)
       \<and> rt_completed_tasks s = rt_sent_to_ec s + rt_ran_on_ed s"
  using rt_reachable_inv [OF assms] by (simp add: rt_inv_def thread_limit_init_def max_local_def)

theorem rt_limits_witness:
  "0 \<le> rt_sem_count (the (rt_run (\<lambda>i. drop_env) (rt_spawn 2 rt_init) [RtAcquire 0, RtNet 0, RtLocalEnter 0]))
   \<and> sem_holders (the (rt_run (\<lambda>i. drop_env) (rt_spawn 2 rt_init) [RtAcquire 0, RtNet 0, RtLocalEnter 0])) \<le> 100
   \<and> 0 \<le> rt_local_running (the (rt_run (\<lambda>i. drop_env) (rt_spawn 2 rt_init) [RtAcquire 0, RtNet 0, RtLocalEnter 0]))
   \<and> rt_local_running (the (rt_run (\<lambda>i. drop_env) (rt_spawn 2 rt_init) [RtAcquire 0, RtNet 0, RtLocalEnter 0])) \<le> 20
   \<and> rt_local_running (the (rt_run (\<lambda>i. drop_env) (rt_spawn 2 rt_init) [RtAcquire 0, RtNet 0, RtLocalEnter 0]))
       = int (local_holders (the (rt_run (\<lambda>i. drop_env) (rt_spawn 2 rt_init) [RtAcquire 0, RtNet 0, RtLocalEnter 0])))
   \<and> rt_completed_tasks (the (rt_run (\<lambda>i. drop_env) (rt_spawn 2 rt_init) [RtAcquire 0, RtNet 0, RtLocalEnter 0]))
       = rt_sent_to_ec (the (rt_run (\<lambda>i. drop_env) (rt_spawn 2 rt_init) [RtAcquire 0, RtNet 0, RtLocalEnter 0]))
         + rt_ran_on_ed (the (rt_run (\<lambda>i. drop_env) (rt_spawn 2 rt_init) [RtAcquire 0, RtNet 0, RtLocalEnter 0]))"
proof -
  let ?es = "[RtAcquire 0, RtNet 0, RtLocalEnter 0]"
  have "rt_run (\<lambda>i. drop_env) (rt_spawn 2 rt_init) ?es = Some (the (rt_run (\<lambda>i. drop_env) (rt_spawn 2 rt_init) ?es))"
    by code_simp
  then have "rt_reachable (\<lambda>i. drop_env) 2 (the (rt_run (\<lambda>i. drop_env) (rt_spawn 2 rt_init) ?es))"
    by (rule rt_run_reachable [OF rt_reachable.spawn])
  then show ?thesis by (rule rt_limits)
qed

text \<open>
  C28: every path out of \<open>run_request\<close> gives back what it took. In a reachable state
  in which every thread has finished, the semaphore count is back at 100 and
  \<open>local_running\<close> at 0.
\<close>

theorem rt_no_leak:
  assumes "rt_reachable envs n s" "list_all (\<lambda>ph. ph = RtDone) (rt_threads s)"
  shows "rt_sem_count s = 100 \<and> rt_local_running s = 0"
proof -
  have "sem_holders s = 0" "local_holders s = 0"
    using assms(2) by (auto simp: sem_holders_def local_holders_def list_all_iff filter_empty_conv)
  with rt_reachable_inv [OF assms(1)] show ?thesis by (simp add: rt_inv_def thread_limit_init_def)
qed

theorem rt_no_leak_witness:
  "rt_sem_count (the (rt_run (\<lambda>i. drop_env) (rt_spawn 1 rt_init)
      [RtAcquire 0, RtNet 0, RtLocalEnter 0, RtLocalExit 0, RtRelease 0])) = 100
   \<and> rt_local_running (the (rt_run (\<lambda>i. drop_env) (rt_spawn 1 rt_init)
      [RtAcquire 0, RtNet 0, RtLocalEnter 0, RtLocalExit 0, RtRelease 0])) = 0"
proof -
  let ?es = "[RtAcquire 0, RtNet 0, RtLocalEnter 0, RtLocalExit 0, RtRelease 0]"
  let ?s = "the (rt_run (\<lambda>i. drop_env) (rt_spawn 1 rt_init) ?es)"
  have "rt_run (\<lambda>i. drop_env) (rt_spawn 1 rt_init) ?es = Some ?s" by code_simp
  then have r: "rt_reachable (\<lambda>i. drop_env) 1 ?s" by (rule rt_run_reachable [OF rt_reachable.spawn])
  have d: "list_all (\<lambda>ph. ph = RtDone) (rt_threads ?s)" by code_simp
  from rt_no_leak [OF r d] show ?thesis .
qed

text \<open>
  C29: the retina variant never deadlocks. In every reachable state in which no thread
  has crashed and some thread has not finished, some thread can take a step: a thread
  waiting for the semaphore finds it free unless a holder can proceed, and a thread
  waiting for a local slot finds one free unless a local run can finish.
\<close>

theorem rt_progress:
  assumes "rt_reachable envs n s" "RtCrashed \<notin> set (rt_threads s)" "\<not> list_all (\<lambda>ph. ph = RtDone) (rt_threads s)"
  shows "\<exists>e s'. rt_step envs s e = Some s'"
proof -
  have inv: "rt_inv s" using assms(1) by (rule rt_reachable_inv)
  from assms(3) obtain i where i: "i < length (rt_threads s)" "rt_threads s ! i \<noteq> RtDone"
    by (auto simp: list_all_length)
  have nc: "rt_threads s ! j \<noteq> RtCrashed" if "j < length (rt_threads s)" for j
    using assms(2) that by (metis nth_mem)
  show ?thesis
  proof (cases "sem_holders s = 0")
    case False
    then obtain ph where "ph \<in> set (rt_threads s)" "holds_sem ph"
      unfolding sem_holders_def by (metis filter_empty_conv length_0_conv)
    then obtain j where "j < length (rt_threads s)" "holds_sem (rt_threads s ! j)"
      by (metis in_set_conv_nth)
    with inv nc show ?thesis by (blast intro: rt_enabled_holder)
  next
    case True
    then have "0 < rt_sem_count s" using inv by (simp add: rt_inv_def thread_limit_init_def)
    moreover have "\<not> holds_sem (rt_threads s ! i)"
      using True i unfolding sem_holders_def by (metis filter_empty_conv length_0_conv nth_mem)
    then have "rt_threads s ! i = RtStart" using i(2) by (cases "rt_threads s ! i") auto
    ultimately show ?thesis using i(1)
      by (auto simp: rt_thread_at_def intro!: exI [of _ "RtAcquire i"])
  qed
qed

theorem rt_progress_witness:
  "\<exists>e s'. rt_step (\<lambda>i. drop_env) (the (rt_run (\<lambda>i. drop_env) (rt_spawn 2 rt_init) [RtAcquire 0])) e = Some s'"
proof -
  let ?s = "the (rt_run (\<lambda>i. drop_env) (rt_spawn 2 rt_init) [RtAcquire 0])"
  have "rt_run (\<lambda>i. drop_env) (rt_spawn 2 rt_init) [RtAcquire 0] = Some ?s" by code_simp
  then have r: "rt_reachable (\<lambda>i. drop_env) 2 ?s" by (rule rt_run_reachable [OF rt_reachable.spawn])
  have c: "RtCrashed \<notin> set (rt_threads ?s)" by code_simp
  have d: "\<not> list_all (\<lambda>ph. ph = RtDone) (rt_threads ?s)" by code_simp
  from rt_progress [OF r c d] show ?thesis .
qed

text \<open>
  C30: a failed \<open>recv\<close> of \<open>DONE\<close> terminates the program. On a granted task with the
  image sent, if that \<open>recv\<close> fails the thread throws \<open>std::length_error\<close>, and
  \<open>main\<close> ends in termination instead of printing its report.
\<close>

theorem rt_done_failure_terminates:
  assumes "sock_ok (envs i)" "connect_ok (envs i)" "response (envs i) = Some (grant_msg p)"
    and "length (grant_msg p) \<le> 255" "image (envs i) = Some bytes" "done_reply (envs i) = None"
    and "rt_thread_at s i = Some RtInside"
  shows "rt_step envs s (RtNet i) = Some (rt_set_thread i RtCrashed s)"
proof -
  have "cstr_of_buf (grant_msg p) = grant_msg p"
    using assms(4) by (intro cstr_of_buf_plain) simp_all
  moreover have "starts_with ''GRANT:'' (grant_msg p)" by (simp add: grant_msg_def starts_with_def)
  ultimately have "rt_net (envs i) s = (s, RtCrashed)"
    using assms(1-6) by (simp add: rt_net_def Let_def)
  with assms(7) show ?thesis by simp
qed

theorem rt_done_failure_terminates_witness:
  "rt_step (\<lambda>i. drop_env\<lparr>response := Some (grant_msg 0), image := Some ''JPEG''\<rparr>)
      (rt_set_thread 0 RtInside (sem_acquire (rt_spawn 1 rt_init))) (RtNet 0)
     = Some (rt_set_thread 0 RtCrashed (rt_set_thread 0 RtInside (sem_acquire (rt_spawn 1 rt_init))))
   \<and> rt_main [''ed'', ''1'', ''1''] (\<lambda>i. drop_env\<lparr>response := Some (grant_msg 0), image := Some ''JPEG''\<rparr>)
       [RtAcquire 0, RtNet 0] = Some RtTerminated"
proof
  show "rt_step (\<lambda>i. drop_env\<lparr>response := Some (grant_msg 0), image := Some ''JPEG''\<rparr>)
      (rt_set_thread 0 RtInside (sem_acquire (rt_spawn 1 rt_init))) (RtNet 0)
     = Some (rt_set_thread 0 RtCrashed (rt_set_thread 0 RtInside (sem_acquire (rt_spawn 1 rt_init))))"
    by (rule rt_done_failure_terminates [of _ 0 0 "''JPEG''"])
       (simp_all add: drop_env_def grant_msg_def show_int_def show_nat.simps digit_char_def decimal_digits_def
          rt_thread_at_def rt_set_thread_def sem_acquire_def rt_spawn_def rt_init_def)
  show "rt_main [''ed'', ''1'', ''1''] (\<lambda>i. drop_env\<lparr>response := Some (grant_msg 0), image := Some ''JPEG''\<rparr>)
       [RtAcquire 0, RtNet 0] = Some RtTerminated"
    by code_simp
qed

text \<open>
  The retina variant does not serialize local execution. Two tasks that are both
  dropped by the broker run \<open>LOCAL_CMD\<close> at the same time: after the interleaving
  below both threads hold a local slot and \<open>local_running = 2\<close>.
\<close>

theorem rt_local_runs_overlap:
  "rt_run (\<lambda>i. drop_env) (rt_spawn 2 rt_init)
     [RtAcquire 0, RtAcquire 1, RtNet 0, RtNet 1, RtLocalEnter 0, RtLocalEnter 1]
   = Some (rt_init\<lparr>rt_local_running := 2, rt_sem_count := 98,
                   rt_threads := [RtLocalRun 0, RtLocalRun 0]\<rparr>)"
  by code_simp

end
