(* ===== verification/ImageTransfer.thy ===== *)
theory ImageTransfer
  imports Prelude
begin

text \<open>
  The image transfer utilities \<open>src/coco_test_to_ec.cpp\<close> (sender) and
  \<open>src/coco_test_from_ed.cpp\<close> (receiver). The sender opens one connection per regular
  file of the image directory and writes the file's size as a 4-byte big-endian
  \<open>uint32_t\<close> (\<open>htonl\<close>) followed by its bytes. The receiver reads the 4-byte header with
  one \<open>recv\<close>, converts it with \<open>ntohl\<close>, and reads the body with a loop of \<open>recv\<close>s until
  it has the announced size or a \<open>recv\<close> returns at most 0. Bytes are \<open>8 word\<close>s. TCP
  is modelled as the byte stream of the connection together with how much each \<open>recv\<close>
  delivers: \<open>rx_hdr\<close> bytes for the header read and the list \<open>rx_chunks\<close> for the body
  reads (a 0 is a \<open>recv\<close> that fails; after the list each \<open>recv\<close> delivers all it asked
  for that the stream still holds). Each \<open>send\<close> is taken to write all its bytes.
\<close>

unbundle bit_operations_syntax

type_synonym bytes = "8 word list"

subsection \<open>Byte order\<close>

definition htonl :: "32 word \<Rightarrow> bytes" where
  "htonl w = [ucast (drop_bit 24 w), ucast (drop_bit 16 w), ucast (drop_bit 8 w), ucast w]"

definition ntohl :: "bytes \<Rightarrow> 32 word" where
  "ntohl bs = push_bit 24 (ucast (bs ! 0)) OR push_bit 16 (ucast (bs ! 1)) OR push_bit 8 (ucast (bs ! 2))
              OR ucast (bs ! 3)"

subsection \<open>Sender\<close>

text \<open>\<open>get_image_files\<close>: the regular entries of the directory, or none when \<open>opendir\<close> fails.\<close>

definition get_image_files :: "string \<Rightarrow> (string \<times> bool) list option \<Rightarrow> string list" where
  "get_image_files dir_path entries =
     (case entries of None \<Rightarrow> []
      | Some es \<Rightarrow> map (\<lambda>e. dir_path @ ''/'' @ fst e) (filter snd es))"

text \<open>What one connection carries: the size cast to \<open>uint32_t\<close>, in network order, then the bytes.\<close>

definition tx_stream :: "nat \<Rightarrow> bytes \<Rightarrow> bytes" where
  "tx_stream file_size buffer = htonl (word_of_nat file_size) @ buffer"

record tx_env =
  tx_content :: "bytes option"    \<comment> \<open>the file's bytes, or \<open>None\<close> when it cannot be opened\<close>
  tx_sock_ok :: bool
  tx_connect_ok :: bool

datatype tx_exit = TxNoImages | TxSocketError | TxConnectFailed | TxDone nat

text \<open>The loop over the images: the streams written so far, and how the loop ended.\<close>

fun to_ec_loop :: "(string \<times> tx_env) list \<Rightarrow> bytes list \<Rightarrow> tx_exit option \<times> bytes list" where
  "to_ec_loop [] streams = (None, streams)"
| "to_ec_loop ((path, env) # rest) streams =
     (case tx_content env of
        None \<Rightarrow> to_ec_loop rest streams
      | Some buffer \<Rightarrow>
          (if \<not> tx_sock_ok env then (Some TxSocketError, streams)
           else if \<not> tx_connect_ok env then (Some TxConnectFailed, streams)
           else to_ec_loop rest (streams @ [tx_stream (length buffer) buffer])))"

definition to_ec_main :: "(string \<times> bool) list option \<Rightarrow> (string \<Rightarrow> tx_env) \<Rightarrow> tx_exit \<times> bytes list" where
  "to_ec_main entries envs =
     (let images = get_image_files ''COCO_test_1220'' entries in
      if images = [] then (TxNoImages, [])
      else (case to_ec_loop (map (\<lambda>p. (p, envs p)) images) [] of
              (None, streams) \<Rightarrow> (TxDone (length images), streams)
            | (Some err, streams) \<Rightarrow> (err, streams)))"

subsection \<open>Receiver\<close>

text \<open>
  The body loop: while fewer than \<open>img_size\<close> bytes have arrived, \<open>recv\<close> at most the
  rest; a \<open>recv\<close> that delivers nothing ends the loop.
\<close>

function recv_image :: "nat \<Rightarrow> nat list \<Rightarrow> bytes \<Rightarrow> bytes \<Rightarrow> bytes" where
  "recv_image img_size cs stream acc =
     (if length acc < img_size then
        (let want = img_size - length acc;
             lim = (case cs of [] \<Rightarrow> want | c # _ \<Rightarrow> c);
             chunk = take (min want lim) stream
         in if chunk = [] then acc
            else recv_image img_size (tl cs) (drop (length chunk) stream) (acc @ chunk))
      else acc)"
  by pat_completeness auto
termination
  by (relation "measure (\<lambda>(n, cs, st, acc). n - length acc)") (auto simp: Let_def min_def neq_Nil_conv)

declare recv_image.simps [simp del]

record rx_conn =
  rx_accept_ok :: bool
  rx_hdr :: nat
  rx_chunks :: "nat list"
  rx_stream :: bytes

datatype rx_result = RxAcceptFailed | RxSizeFailed | RxComplete bytes | RxIncomplete nat

text \<open>One accepted connection: the header \<open>recv\<close> must return exactly 4 bytes.\<close>

definition rx_connection :: "nat \<Rightarrow> nat list \<Rightarrow> bytes \<Rightarrow> rx_result" where
  "rx_connection hdr cs stream =
     (let net_size = take (min 4 hdr) stream in
      if length net_size \<noteq> 4 then RxSizeFailed
      else
        (let img_size = unat (ntohl net_size);
             body = recv_image img_size cs (drop 4 stream) []
         in if length body = img_size then RxComplete body else RxIncomplete (length body)))"

text \<open>The accept loop over a finite prefix of the connections, counting complete images.\<close>

fun from_ed_loop :: "rx_conn list \<Rightarrow> nat \<Rightarrow> nat \<times> rx_result list" where
  "from_ed_loop [] received_images = (received_images, [])"
| "from_ed_loop (c # cs) received_images =
     (let r = (if rx_accept_ok c then rx_connection (rx_hdr c) (rx_chunks c) (rx_stream c) else RxAcceptFailed);
          n = (case r of RxComplete _ \<Rightarrow> received_images + 1 | _ \<Rightarrow> received_images)
      in case from_ed_loop cs n of (k, rs) \<Rightarrow> (k, r # rs))"

datatype rx_exit = RxSocketFailed | RxBindFailed | RxListenFailed | RxServing nat "rx_result list"

text \<open>
  \<open>main\<close> of the receiver: \<open>socket\<close> returns the descriptor \<open>server_fd\<close> (\<open>-1\<close> on
  failure), which is tested against 0; \<open>bind\<close> and \<open>listen\<close> may fail; then the accept
  loop serves the given connections (the loop itself never ends).
\<close>

definition from_ed_main :: "int \<Rightarrow> bool \<Rightarrow> bool \<Rightarrow> rx_conn list \<Rightarrow> rx_exit" where
  "from_ed_main server_fd bind_ok listen_ok conns =
     (if server_fd = 0 then RxSocketFailed
      else if \<not> bind_ok then RxBindFailed
      else if \<not> listen_ok then RxListenFailed
      else (case from_ed_loop conns 0 of (received_images, rs) \<Rightarrow> RxServing received_images rs))"

text \<open>A connection delivered without failures: the header in one \<open>recv\<close>, every body
  \<open>recv\<close> as much as was asked.\<close>

definition ideal_delivery :: "bytes \<Rightarrow> rx_conn" where
  "ideal_delivery st = \<lparr>rx_accept_ok = True, rx_hdr = 4, rx_chunks = [], rx_stream = st\<rparr>"

subsection \<open>Lemmas\<close>

lemma ntohl_htonl: "ntohl (htonl w) = w"
  unfolding ntohl_def htonl_def
  apply (rule bit_word_eqI)
  apply (auto simp: bit_simps)
  subgoal for n by (cases "16 \<le> n") auto
  subgoal for n by (cases "16 \<le> n") auto
  done

lemma length_htonl [simp]: "length (htonl w) = 4"
  by (simp add: htonl_def)

lemma recv_image_all:
  "(\<forall>c \<in> set cs. 0 < c) \<Longrightarrow> length acc \<le> n \<Longrightarrow>
     recv_image n cs st acc = acc @ take (n - length acc) st"
proof (induction n cs st acc rule: recv_image.induct)
  case (1 n cs st acc)
  show ?case
  proof (cases "length acc < n")
    case False
    with "1.prems" show ?thesis by (subst recv_image.simps) simp
  next
    case True
    define k where "k = min (n - length acc) (case cs of [] \<Rightarrow> n - length acc | c # _ \<Rightarrow> c)"
    have k: "0 < k" "k \<le> n - length acc"
      using True "1.prems"(1) by (auto simp: k_def split: list.split)
    show ?thesis
    proof (cases "take k st = []")
      case True
      with k have "st = []" by simp
      with \<open>length acc < n\<close> show ?thesis by (subst recv_image.simps) simp
    next
      case False
      have tl: "\<forall>c \<in> set (tl cs). 0 < c" using "1.prems"(1) by (cases cs) auto
      have le: "length (acc @ take k st) \<le> n" using k by simp
      have "recv_image n (tl cs) (drop (length (take k st)) st) (acc @ take k st) =
              (acc @ take k st) @ take (n - length (acc @ take k st)) (drop (length (take k st)) st)"
        using "1.IH" [OF \<open>length acc < n\<close> refl refl _ False tl le] k_def by (simp add: Let_def)
      also have "\<dots> = acc @ take (n - length acc) st"
        using k by (simp add: min_def take_add [symmetric] drop_take)
      finally show ?thesis
        using \<open>length acc < n\<close> False by (subst recv_image.simps) (simp add: Let_def k_def)
    qed
  qed
qed

lemma unat_ntohl_size: "unat (ntohl (htonl (word_of_nat n))) = n mod 2 ^ 32"
  by (simp add: ntohl_htonl unat_of_nat)

lemma rx_connection_tx:
  assumes "4 \<le> hdr" "\<forall>c \<in> set cs. 0 < c"
  shows "rx_connection hdr cs (tx_stream (length b) b) = RxComplete (take (length b mod 2 ^ 32) b)"
proof -
  have h: "take (min 4 hdr) (tx_stream (length b) b) = htonl (word_of_nat (length b))"
    using assms(1) by (simp add: tx_stream_def min_def)
  have "recv_image (length b mod 2 ^ 32) cs (drop 4 (tx_stream (length b) b)) [] = take (length b mod 2 ^ 32) b"
    using recv_image_all [OF assms(2), of "[]"] by (simp add: tx_stream_def)
  moreover have "length (take (length b mod 2 ^ 32) b) = length b mod 2 ^ 32" by simp
  ultimately show ?thesis
    unfolding rx_connection_def Let_def h unat_ntohl_size by simp
qed

lemma to_ec_loop_streams:
  "to_ec_loop ps streams = (None, streams') \<Longrightarrow>
     streams' = streams @ map (\<lambda>b. tx_stream (length b) b) (List.map_filter (tx_content \<circ> snd) ps)"
  by (induction ps streams rule: to_ec_loop.induct) (auto simp: map_filter_simps split: option.splits if_splits)

lemma to_ec_loop_err:
  "to_ec_loop ps streams = (Some e, streams') \<Longrightarrow> e = TxSocketError \<or> e = TxConnectFailed"
  by (induction ps streams rule: to_ec_loop.induct) (auto split: option.splits if_splits)

lemma from_ed_loop_ideal:
  "from_ed_loop (map (ideal_delivery \<circ> (\<lambda>b. tx_stream (length b) b)) bs) k = (k + length bs, map (\<lambda>b. RxComplete (take (length b mod 2 ^ 32) b)) bs)"
  by (induction bs arbitrary: k) (simp_all add: ideal_delivery_def rx_connection_tx)

text \<open>
  C21: the image transfer round trip. Whatever the file's length, when the size header
  arrives in one \<open>recv\<close> and no body \<open>recv\<close> fails, the receiver completes with the
  first \<open>length mod 2\<^sup>3\<^sup>2\<close> bytes of the file: the whole file when it is shorter than
  4 GiB, and a silently truncated file otherwise, because the sender casts the size to
  \<open>uint32_t\<close>.
\<close>

theorem transfer_roundtrip:
  assumes "4 \<le> hdr" "\<forall>c \<in> set cs. 0 < c"
  shows "rx_connection hdr cs (tx_stream (length b) b) =
           RxComplete (if length b < 2 ^ 32 then b else take (length b mod 2 ^ 32) b)"
  using rx_connection_tx [OF assms] by simp

theorem transfer_roundtrip_witness:
  "rx_connection 4 [1, 2] (tx_stream 3 [7, 8, 9]) = RxComplete [7, 8, 9]"
  using transfer_roundtrip [of 4 "[1, 2]" "[7, 8, 9]"] by (simp add: numeral_3_eq_3)

text \<open>
  C22: a short read of the size header loses the image. When the header \<open>recv\<close> returns
  fewer than 4 bytes, which TCP allows, the receiver reports a failed size read and
  drops the connection, although the sender sent a well-formed stream.
\<close>

theorem transfer_short_header:
  assumes "hdr < 4"
  shows "rx_connection hdr cs (tx_stream (length b) b) = RxSizeFailed"
  using assms by (simp add: rx_connection_def tx_stream_def min_def)

theorem transfer_short_header_witness:
  "rx_connection 2 [] (tx_stream 3 [7, 8, 9]) = RxSizeFailed"
  using transfer_short_header [of 2 "[]" "[7, 8, 9]"] by (simp add: numeral_3_eq_3)

text \<open>
  C23: the sender's report counts images it did not send. When the sender finishes, it
  reports the number of regular files in the directory, while it has written one stream
  per file it could open; the receiver, fed those streams without failures, counts
  exactly the streams.
\<close>

theorem transfer_counts:
  assumes "to_ec_main entries envs = (TxDone n, streams)"
  shows "n = length (get_image_files ''COCO_test_1220'' entries)
       \<and> length streams = length (List.map_filter (\<lambda>p. tx_content (envs p)) (get_image_files ''COCO_test_1220'' entries))
       \<and> fst (from_ed_loop (map ideal_delivery streams) 0) = length streams"
proof -
  let ?imgs = "get_image_files ''COCO_test_1220'' entries"
  from assms have ne: "?imgs \<noteq> []" and loop: "to_ec_loop (map (\<lambda>p. (p, envs p)) ?imgs) [] = (None, streams)"
    and n: "n = length ?imgs"
    by (auto simp: to_ec_main_def Let_def split: if_splits prod.splits option.splits dest: to_ec_loop_err)
  have s: "streams = map (\<lambda>b. tx_stream (length b) b) (List.map_filter (\<lambda>p. tx_content (envs p)) ?imgs)"
    using to_ec_loop_streams [OF loop] by (simp add: map_filter_def o_def filter_map)
  show ?thesis
    using from_ed_loop_ideal [of "List.map_filter (\<lambda>p. tx_content (envs p)) ?imgs" 0] n s
    by (simp add: o_def)
qed

theorem transfer_counts_witness:
  "fst (to_ec_main (Some [(''a.jpg'', True), (''b.jpg'', True), (''sub'', False)])
          (\<lambda>p. \<lparr>tx_content = (if p = ''COCO_test_1220/a.jpg'' then Some [1, 2] else None),
                tx_sock_ok = True, tx_connect_ok = True\<rparr>)) = TxDone 2
   \<and> fst (from_ed_loop (map ideal_delivery (snd (to_ec_main (Some [(''a.jpg'', True), (''b.jpg'', True), (''sub'', False)])
          (\<lambda>p. \<lparr>tx_content = (if p = ''COCO_test_1220/a.jpg'' then Some [1, 2] else None),
                tx_sock_ok = True, tx_connect_ok = True\<rparr>)))) 0) = 1"
proof -
  let ?e = "Some [(''a.jpg'', True), (''b.jpg'', True), (''sub'', False)]"
  let ?v = "\<lambda>p. \<lparr>tx_content = (if p = ''COCO_test_1220/a.jpg'' then Some [1, 2::8 word] else None),
                tx_sock_ok = True, tx_connect_ok = True\<rparr>"
  have r: "to_ec_main ?e ?v = (TxDone 2, [tx_stream 2 [1, 2]])"
    by (simp add: to_ec_main_def get_image_files_def numeral_2_eq_2)
  from transfer_counts [OF r] have "fst (from_ed_loop (map ideal_delivery [tx_stream 2 [1, 2]]) 0) = 1"
    by (simp add: get_image_files_def map_filter_def)
  with r show ?thesis by simp
qed

end
