(* ===== verification/PowerLog.thy ===== *)
theory PowerLog
  imports Prelude
begin

text \<open>
  The power-log tool \<open>src/Experiment_May15/read_power.cpp\<close>. \<open>compute_column_average\<close>
  reads a CSV file line by line with \<open>std::getline\<close>, skips the first line, splits each
  other line at commas with \<open>std::getline(ss, cell, ',')\<close>, and adds up the cells of
  column \<open>col_index\<close> that \<open>std::stod\<close> accepts; it returns their mean, or -1 when the
  file cannot be opened or no cell was accepted. \<open>main\<close> reads the column index with
  \<open>std::atoi\<close> and prints the mean only when it is not negative. The file is its
  contents (\<open>None\<close>: it cannot be opened); \<open>double\<close> arithmetic is taken as exact
  rational arithmetic.
\<close>

subsection \<open>Library behaviour\<close>

text \<open>
  The strings \<open>std::getline(in, s, d)\<close> yields until it fails: the text up to each
  delimiter, the delimiter discarded, and a last piece without delimiter if it is not
  empty. It fails exactly when it extracts nothing before the end of the input.
\<close>

function getline_split :: "char \<Rightarrow> string \<Rightarrow> string list" where
  "getline_split d s =
     (if s = [] then [] else takeWhile (\<lambda>c. c \<noteq> d) s # getline_split d (drop 1 (dropWhile (\<lambda>c. c \<noteq> d) s)))"
  by pat_completeness auto
termination
proof (relation "measure (\<lambda>(d, s). length s)")
  fix d :: char and s :: string
  assume "s \<noteq> []"
  then have "0 < length s" by simp
  moreover have "length (dropWhile (\<lambda>c. c \<noteq> d) s) \<le> length s" by (rule length_dropWhile_le)
  ultimately have "length (dropWhile (\<lambda>c. c \<noteq> d) s) - 1 < length s" by arith
  then show "((d, drop 1 (dropWhile (\<lambda>c. c \<noteq> d) s)), d, s) \<in> measure (\<lambda>(d, s). length s)"
    by simp
qed simp

declare getline_split.simps [simp del]

text \<open>
  \<open>std::atoi\<close> as glibc implements it, \<open>(int) strtol(s, NULL, 10)\<close>: the decimal
  prefix after white space and sign, clamped to the range of \<open>long\<close>, then cut to 32
  bits; 0 when there is no digit.
\<close>

definition cpp_atoi :: "string \<Rightarrow> int" where
  "cpp_atoi s =
     (case strip_sign (dropWhile is_space s) of
        (neg, s2) \<Rightarrow>
          let v = (if neg then - int (dec_val (takeWhile is_digit s2)) else int (dec_val (takeWhile is_digit s2)));
              l = max (- (2 ^ 63)) (min (2 ^ 63 - 1) v)
          in sint (word_of_int l :: 32 word))"

subsection \<open>\<open>compute_column_average\<close>\<close>

text \<open>
  The inner loop over the cells of one line: \<open>current_col\<close> counts the cells read; at
  \<open>col_index\<close> the cell is converted, added if \<open>std::stod\<close> accepts it, and the loop
  breaks.
\<close>

fun scan_cells :: "int \<Rightarrow> int \<Rightarrow> string list \<Rightarrow> rat \<times> int \<Rightarrow> rat \<times> int" where
  "scan_cells col_index current_col [] acc = acc"
| "scan_cells col_index current_col (cell # cells) (sum_val, count_val) =
     (if current_col = col_index then
        (case cpp_stod cell of Inr val \<Rightarrow> (sum_val + val, count_val + 1) | Inl _ \<Rightarrow> (sum_val, count_val))
      else scan_cells col_index (current_col + 1) cells (sum_val, count_val))"

text \<open>The outer loop over the lines; \<open>line_num\<close> counts the lines read.\<close>

fun scan_lines :: "int \<Rightarrow> int \<Rightarrow> string list \<Rightarrow> rat \<times> int \<Rightarrow> rat \<times> int" where
  "scan_lines col_index line_num [] acc = acc"
| "scan_lines col_index line_num (line # ls) acc =
     (if line_num + 1 = 1 then scan_lines col_index (line_num + 1) ls acc
      else scan_lines col_index (line_num + 1) ls (scan_cells col_index 0 (getline_split CHR '','' line) acc))"

definition compute_column_average :: "string option \<Rightarrow> int \<Rightarrow> rat" where
  "compute_column_average file col_index =
     (case file of
        None \<Rightarrow> -1
      | Some text \<Rightarrow>
          (case scan_lines col_index 0 (getline_split CHR ''\<newline>'' text) (0, 0) of
             (sum_val, count_val) \<Rightarrow> if count_val = 0 then -1 else sum_val / of_int count_val))"

datatype rp_exit = RpUsage | RpPrinted int rat | RpSilent

definition read_power_main :: "string list \<Rightarrow> (string \<Rightarrow> string option) \<Rightarrow> rp_exit" where
  "read_power_main argv files =
     (if length argv \<noteq> 3 then RpUsage
      else (let col_index = cpp_atoi (argv ! 2);
                average = compute_column_average (files (argv ! 1)) col_index
            in if 0 \<le> average then RpPrinted col_index average else RpSilent))"

subsection \<open>Reference: the values of a column\<close>

text \<open>
  What the loops compute, stated by position: the cells of column \<open>col_index\<close> of the
  lines after the first, where the line has that many cells, and that \<open>std::stod\<close>
  accepts.
\<close>

definition cell_at :: "int \<Rightarrow> string \<Rightarrow> string option" where
  "cell_at col_index line =
     (let cells = getline_split CHR '','' line in
      if 0 \<le> col_index \<and> nat col_index < length cells then Some (cells ! nat col_index) else None)"

definition line_value :: "int \<Rightarrow> string \<Rightarrow> rat list" where
  "line_value col_index line =
     (case cell_at col_index line of
        None \<Rightarrow> []
      | Some cell \<Rightarrow> (case cpp_stod cell of Inr v \<Rightarrow> [v] | Inl _ \<Rightarrow> []))"

definition column_values :: "int \<Rightarrow> string list \<Rightarrow> rat list" where
  "column_values col_index ls = concat (map (line_value col_index) (drop 1 ls))"

subsection \<open>Lemmas\<close>

lemma getline_split_Nil [simp]: "getline_split d [] = []"
  by (simp add: getline_split.simps)

lemma while_ne_delim:
  "d \<notin> set l \<Longrightarrow> takeWhile (\<lambda>c. c \<noteq> d) (l @ d # r) = l \<and> dropWhile (\<lambda>c. c \<noteq> d) (l @ d # r) = d # r"
  by (induction l) auto

lemma getline_split_line:
  "d \<notin> set l \<Longrightarrow> getline_split d (l @ d # r) = l # getline_split d r"
  by (subst getline_split.simps) (simp add: while_ne_delim)

text \<open>The cell loop with its \<open>break\<close> reads the cell at position \<open>col_index - current_col\<close>.\<close>

lemma scan_cells_at:
  "scan_cells col_index k cells (a, n) =
     (if k \<le> col_index \<and> nat (col_index - k) < length cells then
        (case cpp_stod (cells ! nat (col_index - k)) of Inr v \<Rightarrow> (a + v, n + 1) | Inl _ \<Rightarrow> (a, n))
      else (a, n))"
proof (induction cells arbitrary: k)
  case Nil
  then show ?case by simp
next
  case (Cons cell cells)
  show ?case
  proof (cases "k = col_index")
    case False
    then have "k \<le> col_index \<longleftrightarrow> k + 1 \<le> col_index" by arith
    moreover have "k + 1 \<le> col_index \<Longrightarrow> nat (col_index - k) = Suc (nat (col_index - (k + 1)))" by arith
    ultimately show ?thesis using False Cons.IH [of "k + 1"] by auto
  qed simp
qed

lemma scan_cells_line_value:
  "scan_cells col_index 0 (getline_split CHR '','' line) (a, n) =
     (a + sum_list (line_value col_index line), n + int (length (line_value col_index line)))"
  by (simp add: scan_cells_at line_value_def cell_at_def Let_def split: sum.split)

lemma scan_lines_values:
  "0 < line_num \<Longrightarrow> scan_lines col_index line_num ls (a, n) =
     (a + sum_list (concat (map (line_value col_index) ls)),
      n + int (length (concat (map (line_value col_index) ls))))"
proof (induction ls arbitrary: line_num a n)
  case (Cons line ls)
  then show ?case by (simp add: scan_cells_line_value algebra_simps)
qed simp

lemma scan_lines_column_values:
  "scan_lines col_index 0 ls (0, 0) =
     (sum_list (column_values col_index ls), int (length (column_values col_index ls)))"
  by (cases ls) (simp_all add: column_values_def scan_lines_values)

lemma show_nat_digits:
  "dropWhile is_space (show_nat m) = show_nat m \<and> strip_sign (show_nat m) = (False, show_nat m)
   \<and> takeWhile is_digit (show_nat m) = show_nat m"
  using show_nat_plain [of m "[]"] takeWhile_digits_show_nat [of "[]" m] by simp

lemma cpp_atoi_long:
  assumes "- (2 ^ 63) \<le> n" "n < 2 ^ 63"
  shows "cpp_atoi (show_int n) = sint (word_of_int n :: 32 word)"
proof (cases "n < 0")
  case True
  have "\<not> is_space CHR ''-''" by (simp add: is_space_def)
  with True assms show ?thesis by (simp add: cpp_atoi_def show_int_def show_nat_digits)
next
  case False
  with assms show ?thesis by (simp add: cpp_atoi_def show_int_def show_nat_digits)
qed

text \<open>
  C32: \<open>compute_column_average\<close> computes the mean of the column. For every file
  contents and column index, the two nested loops with their \<open>break\<close> return the
  mean of the values that \<open>std::stod\<close> accepts in column \<open>col_index\<close> of the lines
  after the first, and -1 when there is no such value.
\<close>

theorem compute_column_average_mean:
  "compute_column_average (Some text) col_index =
     (let vs = column_values col_index (getline_split CHR ''\<newline>'' text)
      in if vs = [] then -1 else sum_list vs / of_nat (length vs))"
  by (simp add: compute_column_average_def scan_lines_column_values Let_def)

text \<open>\<open>std::getline\<close> reads back the lines of a text in which each line, free of
  the delimiter, is followed by it.\<close>

lemma getline_split_roundtrip:
  "\<forall>l \<in> set ls. d \<notin> set l \<Longrightarrow> getline_split d (concat (map (\<lambda>l. l @ [d]) ls)) = ls"
  by (induction ls) (simp_all add: getline_split_line)

text \<open>
  C34: \<open>main\<close> cannot tell a negative mean from the error value -1. When the column
  has valid values whose sum is negative, \<open>main\<close> prints nothing, as it does when the
  file cannot be opened.
\<close>

theorem read_power_silent_negative:
  assumes "files f = Some text"
    and "column_values (cpp_atoi c) (getline_split CHR ''\<newline>'' text) \<noteq> []"
    and "sum_list (column_values (cpp_atoi c) (getline_split CHR ''\<newline>'' text)) < 0"
  shows "read_power_main [p, f, c] files = RpSilent"
proof -
  let ?vs = "column_values (cpp_atoi c) (getline_split CHR ''\<newline>'' text)"
  have "sum_list ?vs / of_nat (length ?vs) < 0"
    using assms(2,3) by (simp add: divide_neg_pos)
  with assms show ?thesis
    by (simp add: read_power_main_def compute_column_average_def scan_lines_column_values Let_def)
qed

theorem read_power_silent_negative_witness:
  "read_power_main [''read_power'', ''power.csv'', ''1'']
     (\<lambda>f. if f = ''power.csv'' then Some ''t,p\<newline>1,-2\<newline>'' else None) = RpSilent"
proof (rule read_power_silent_negative)
  show "column_values (cpp_atoi ''1'') (getline_split CHR ''\<newline>'' ''t,p\<newline>1,-2\<newline>'') \<noteq> []" by code_simp
  show "sum_list (column_values (cpp_atoi ''1'') (getline_split CHR ''\<newline>'' ''t,p\<newline>1,-2\<newline>'')) < 0" by code_simp
qed simp

text \<open>The column index \<open>std::atoi\<close> reads is a 32-bit \<open>int\<close>: for every argument it
  lies in \<open>[-2\<^sup>3\<^sup>1, 2\<^sup>3\<^sup>1)\<close>, and the decimal of a \<open>long\<close> value \<open>n\<close> reads as
  \<open>n\<close> wrapped to 32 bits.\<close>

lemma cpp_atoi_bounds:
  "- (2 ^ 31) \<le> cpp_atoi s \<and> cpp_atoi s < 2 ^ 31
   \<and> (- (2 ^ 63) \<le> n \<and> n < 2 ^ 63 \<longrightarrow> cpp_atoi (show_int n) = sint (word_of_int n :: 32 word))"
proof (intro conjI impI)
  show "- (2 ^ 31) \<le> cpp_atoi s" unfolding cpp_atoi_def using sint_ge [where 'a = 32]
    by (simp split: prod.split)
  show "cpp_atoi s < 2 ^ 31" unfolding cpp_atoi_def using sint_lt [where 'a = 32]
    by (simp split: prod.split)
qed (simp add: cpp_atoi_long)

end
