(* ===== verification/Consumer.thy ===== *)
theory Consumer
  imports Prelude
begin

text \<open>
  The local consumer loop \<open>local_run_dispatch\<close> that the later ED variants copy
  unchanged (\<open>src/ed_oms_parallel_rn50_bwaj.cpp\<close>,
  \<open>src/Experiment_May15/ed_oms_parallel_rn50_simulation_working.cpp\<close>), over the
  three pieces of state it touches: \<open>local_queue\<close>, \<open>stop_local\<close> and the lines written
  to the helper's stdin. It waits for \<open>!local_queue.empty() || stop_local\<close>, leaves when
  the queue is empty and \<open>stop_local\<close> is set, and otherwise pops the front and writes
  it to the helper. Waiting when no producer is left never returns: \<open>None\<close>. The
  result is the final queue and stdin.
\<close>

partial_function (option) queue_consumer :: "string list \<Rightarrow> bool \<Rightarrow> string list \<Rightarrow> (string list \<times> string list) option" where
  "queue_consumer q stop out =
     (if q = [] \<and> \<not> stop then None
      else if stop \<and> q = [] then Some (q, out)
      else queue_consumer (tl q) stop (out @ [hd q]))"

subsection \<open>Lemmas\<close>

text \<open>Once \<open>stop_local\<close> is set, the consumer returns, having written the whole queue in order.\<close>

lemma queue_consumer_stop: "queue_consumer q True out = Some ([], out @ q)"
proof (induction q arbitrary: out)
  case Nil
  then show ?case by (subst queue_consumer.simps) simp
next
  case (Cons x q)
  then show ?case by (subst queue_consumer.simps) simp
qed

lemma queue_consumer_waits: "queue_consumer [] False out = None"
  by (subst queue_consumer.simps) simp

end
