(* ===== verification/Bwaj.thy ===== *)
theory Bwaj
  imports Stats Consumer
begin

text \<open>
  The ED variant \<open>src/ed_oms_parallel_rn50_bwaj.cpp\<close>, which measures end-to-end
  latency. Its state differs from \<open>ed_state\<close>: \<open>enqueue_local_run\<close> records no time;
  instead every task's birth is stamped in \<open>task_start_time\<close> (by the generator under
  \<open>time_map_mutex\<close>, then again, without the lock, at the top of \<open>run_request\<close>) and
  its death in \<open>task_end_time\<close> (by \<open>run_request\<close> after a \<open>DONE\<close>, or by the listener
  from the helper's report, which also fills \<open>local_infer_time_ms\<close>). \<open>run_request\<close>
  falls back on a failed \<open>socket\<close>, \<open>connect\<close> or reply \<open>recv\<close>, and counts a granted
  task on any non-empty answer to the \<open>DONE\<close> \<open>recv\<close>. The image of a local run is
  drawn at random from a directory (\<open>get_random_image_from_coco\<close>, modelled below
  with the draw as a parameter); which one is part of the task's environment. Reply buffers are taken with their received length
  (\<open>std::string(buf, received)\<close>).
\<close>

record bw_state =
  bw_completed_tasks :: int
  bw_ran_on_ed :: int
  bw_sent_to_ec :: int
  bw_total_latency_ms :: int
  bw_local_queue :: "string list"
  bw_stop_local :: bool
  bw_py_stdin :: "string list"
  local_infer_time_ms :: "(token \<times> rat) list"
  task_start_time :: "(token \<times> msec) list"
  task_end_time :: "(token \<times> msec) list"

definition bw_init :: bw_state where
  "bw_init = \<lparr>bw_completed_tasks = 0, bw_ran_on_ed = 0, bw_sent_to_ec = 0, bw_total_latency_ms = 0,
              bw_local_queue = [], bw_stop_local = False, bw_py_stdin = [],
              local_infer_time_ms = [], task_start_time = [], task_end_time = []\<rparr>"

text \<open>
  What one task meets: the network, file and clock results of \<open>net_env\<close> (\<open>t_wall\<close>
  is \<open>current_time_ms()\<close> at the top of \<open>run_request\<close>), the image a fallback picks,
  and \<open>current_time_ms()\<close> after \<open>DONE\<close>.
\<close>

record bw_env =
  bw_net :: net_env
  bw_local_image :: string
  bw_now_done :: msec

text \<open>
  \<open>get_random_image_from_coco\<close>: the regular files \<open>readdir\<close> yields from
  \<open>COCO_test_1220\<close> (entries with their \<open>d_type\<close>; \<open>None\<close> when \<open>opendir\<close>
  fails), \<open>IMAGE\<close> when there is none, otherwise \<open>images[dist(gen)]\<close> for the draw of
  \<open>uniform_int_distribution<>(0, images.size() - 1)\<close>: its upper bound is the
  \<open>size_t\<close> difference converted to \<open>int\<close>, and \<open>draw\<close> is the distribution.
\<close>

datatype d_type = DT_REG | DT_DIR | DT_OTHER

definition bw_image :: string where
  "bw_image = ''000000006321.jpg''"

definition coco_images :: "(string \<times> d_type) list \<Rightarrow> string list" where
  "coco_images ents = map (\<lambda>(n, _). ''COCO_test_1220'' @ ''/'' @ n) (filter (\<lambda>(_, t). t = DT_REG) ents)"

definition dist_upper :: "nat \<Rightarrow> int" where
  "dist_upper n = sint (ucast (word_of_nat n - 1 :: size_t) :: 32 word)"

definition get_random_image_from_coco :: "(string \<times> d_type) list option \<Rightarrow> (int \<Rightarrow> int \<Rightarrow> int) \<Rightarrow> string" where
  "get_random_image_from_coco dir draw =
     (case dir of
        None \<Rightarrow> bw_image
      | Some ents \<Rightarrow>
          (let images = coco_images ents
           in if images = [] then bw_image else images ! nat (draw 0 (dist_upper (length images)))))"

definition bw_enqueue_local_run :: "token \<Rightarrow> string \<Rightarrow> bw_state \<Rightarrow> bw_state" where
  "bw_enqueue_local_run token_ed img_path s =
     s\<lparr>bw_local_queue := bw_local_queue s @ [show_int token_ed @ '':'' @ img_path]\<rparr>"

text \<open>\<open>local_run_dispatch\<close> on this state: the shared consumer loop.\<close>

definition bw_local_run_dispatch :: "bw_state \<Rightarrow> bw_state option" where
  "bw_local_run_dispatch s =
     map_option (\<lambda>(q, out). s\<lparr>bw_local_queue := q, bw_py_stdin := out\<rparr>)
       (queue_consumer (bw_local_queue s) (bw_stop_local s) (bw_py_stdin s))"

definition bw_stop_and_drain :: "bw_state \<Rightarrow> bw_state option" where
  "bw_stop_and_drain s = bw_local_run_dispatch (s\<lparr>bw_stop_local := True\<rparr>)"

text \<open>\<open>run_request\<close>: the new state and the frames written to the broker.\<close>

definition bw_run_request :: "token \<Rightarrow> bw_env \<Rightarrow> bw_state \<Rightarrow> bw_state \<times> frame list" where
  "bw_run_request token_ed env s =
     (let e = bw_net env;
          s0 = s\<lparr>task_start_time := AList.update token_ed (t_wall e) (task_start_time s)\<rparr>;
          fallback = bw_enqueue_local_run token_ed (bw_local_image env) s0
      in if \<not> sock_ok e then (fallback, [])
         else if \<not> connect_ok e then (fallback, [])
         else
           (let req = req_msg token_ed ''resnet_50'' ''PI5'' in
            (case response e of
               None \<Rightarrow> (fallback, [Text req])
             | Some resp \<Rightarrow>
                 (if resp = [] then (fallback, [Text req])
                  else if starts_with ''GRANT:'' resp then
                    (let token_ec = drop 6 resp;
                         ok = ok_msg token_ec token_ed
                     in (case image e of
                           None \<Rightarrow> (s0, [Text req, Text ok])
                         | Some bytes \<Rightarrow>
                             (let fs = [Text req, Text ok] @ map Data (send_chunks bytes) @ [ShutWr] in
                              (case done_reply e of
                                 None \<Rightarrow> (s0, fs)
                               | Some d \<Rightarrow>
                                   (if d = [] then (s0, fs)
                                    else (s0\<lparr>task_end_time := AList.update token_ed (bw_now_done env) (task_end_time s0),
                                             bw_completed_tasks := bw_completed_tasks s0 + 1,
                                             bw_total_latency_ms := bw_total_latency_ms s0 + (t_end e - t_start e),
                                             bw_sent_to_ec := bw_sent_to_ec s0 + 1\<rparr>, fs))))))
                  else if resp = drop_msg then
                    (fallback\<lparr>bw_completed_tasks := bw_completed_tasks s0 + 1, bw_ran_on_ed := bw_ran_on_ed s0 + 1\<rparr>,
                     [Text req])
                  else (s0, [Text req])))))"

fun bw_run_all :: "(token \<times> bw_env) list \<Rightarrow> bw_state \<Rightarrow> bw_state" where
  "bw_run_all [] s = s"
| "bw_run_all ((t, env) # ts) s = bw_run_all ts (fst (bw_run_request t env s))"

text \<open>
  The listener's handling of one \<open>fgets\<close> buffer: newlines erased, the two commas
  located, lines without both skipped, then \<open>stoi\<close> of the token, \<open>stod\<close> of the
  inference time and \<open>stol\<close> of the completion time, in this order; an exception ends
  the process.
\<close>

definition bw_done_listener_line :: "string \<Rightarrow> bw_state \<Rightarrow> cpp_exc + bw_state" where
  "bw_done_listener_line buffer s =
     (let line = filter (\<lambda>ch. ch \<noteq> CHR 0x0A) buffer;
          first = cpp_find CHR '','' line 0;
          second = cpp_find CHR '','' line (first + 1)
      in if first = npos \<or> second = npos then Inr s
         else sum_bind (cpp_substr line 0 (unat first)) (\<lambda>tok_str.
              sum_bind (cpp_stoi tok_str) (\<lambda>token.
              sum_bind (cpp_substr line (unat (first + 1)) (unat (second - first - 1))) (\<lambda>inf_str.
              sum_bind (cpp_stod inf_str) (\<lambda>infer_time_ms.
              sum_bind (cpp_substr line (unat (second + 1)) (unat npos)) (\<lambda>done_str.
              sum_bind (cpp_stol done_str) (\<lambda>done_time.
                Inr (s\<lparr>local_infer_time_ms := AList.update token infer_time_ms (local_infer_time_ms s),
                       task_end_time := AList.update token done_time (task_end_time s)\<rparr>))))))))"

fun bw_done_listener :: "string list \<Rightarrow> bw_state \<Rightarrow> cpp_exc + bw_state" where
  "bw_done_listener [] s = Inr s"
| "bw_done_listener (b # bs) s = sum_bind (bw_done_listener_line b s) (bw_done_listener bs)"

definition bw_start_done_listener :: "string list option \<Rightarrow> bw_state \<Rightarrow> cpp_exc + bw_state" where
  "bw_start_done_listener fifo s = (case fifo of None \<Rightarrow> Inr s | Some lines \<Rightarrow> bw_done_listener lines s)"

subsection \<open>The report\<close>

text \<open>The loop over \<open>local_infer_time_ms\<close>: total and count.\<close>

definition infer_totals :: "(token \<times> rat) list \<Rightarrow> rat \<times> int" where
  "infer_totals m = foldl (\<lambda>(tot, n) (token, v). (tot + v, n + 1)) (0, 0) m"

text \<open>The loop over \<open>task_start_time\<close>: tasks with an end time add end minus start.\<close>

definition e2e_totals :: "(token \<times> msec) list \<Rightarrow> (token \<times> msec) list \<Rightarrow> int \<times> int" where
  "e2e_totals starts ends =
     foldl (\<lambda>(tot, n) (token, st). case map_of ends token of None \<Rightarrow> (tot, n) | Some en \<Rightarrow> (tot + (en - st), n + 1))
       (0, 0) starts"

record bw_report =
  bwr_completed :: int
  bwr_sent :: int
  bwr_ran :: int
  bwr_avg_infer :: rat
  bwr_avg_e2e :: int

definition bw_final_stats :: "bw_state \<Rightarrow> bw_report" where
  "bw_final_stats s =
     (let (ti, ni) = infer_totals (local_infer_time_ms s);
          (te, ne) = e2e_totals (task_start_time s) (task_end_time s)
      in \<lparr>bwr_completed = bw_completed_tasks s, bwr_sent = bw_sent_to_ec s, bwr_ran = bw_ran_on_ed s,
          bwr_avg_infer = (if ni = 0 then 0 else ti / of_int ni),
          bwr_avg_e2e = (if ne = 0 then 0 else cpp_div te ne)\<rparr>)"

datatype bw_exit = BwUsage | BwAborted cpp_exc | BwHelperFailed | BwHangs | BwFinished bw_report

text \<open>
  The generator stamps the birth of each token it pushes (\<open>birth\<close>: its clock); how
  many it pushes within the duration is \<open>n_generated\<close>.
\<close>

definition bw_generate :: "token list \<Rightarrow> (token \<Rightarrow> msec) \<Rightarrow> bw_state \<Rightarrow> bw_state" where
  "bw_generate toks birth s =
     foldl (\<lambda>s t. s\<lparr>task_start_time := AList.update t (birth t) (task_start_time s)\<rparr>) s toks"

text \<open>
  \<open>main\<close>: \<open>popen\<close> of the helper may fail (\<open>py_ok\<close>), which exits with status 1.
  The generator's stamps all precede the workers' (a token is stamped before it is pushed
  and popped), and the two writers of a time map write different keys, so the run is the
  generator, then the workers' calls in the order \<open>sched\<close>, then the consumer and the
  listener.
\<close>

definition bw_main ::
  "string list \<Rightarrow> bool \<Rightarrow> nat \<Rightarrow> (token \<Rightarrow> msec) \<Rightarrow> (token \<Rightarrow> bw_env) \<Rightarrow> (token list \<Rightarrow> token list)
   \<Rightarrow> string list option \<Rightarrow> bw_exit" where
  "bw_main argv py_ok n_generated birth envs sched fifo =
     (if length argv < 3 then BwUsage
      else (case cpp_stod (argv ! 1) of
        Inl e \<Rightarrow> BwAborted e
      | Inr lambda_rate \<Rightarrow> (case cpp_stoi (argv ! 2) of
          Inl e \<Rightarrow> BwAborted e
        | Inr duration_sec \<Rightarrow>
            (if \<not> py_ok then BwHelperFailed
             else
               (let toks = map int [0..<n_generated];
                    s0 = bw_generate toks birth bw_init
                in (case bw_stop_and_drain (bw_run_all (map (\<lambda>t. (t, envs t)) (sched toks)) s0) of
                      None \<Rightarrow> BwHangs
                    | Some s \<Rightarrow> (case bw_start_done_listener fifo s of
                                  Inl e \<Rightarrow> BwAborted e
                                | Inr s' \<Rightarrow> BwFinished (bw_final_stats s'))))))))"

subsection \<open>Lemmas\<close>

lemma bw_run_request_start:
  "task_start_time (fst (bw_run_request t env s)) = AList.update t (t_wall (bw_net env)) (task_start_time s)"
  by (simp add: bw_run_request_def bw_enqueue_local_run_def Let_def split: option.split)

lemma bw_run_all_start:
  "map_of (task_start_time (bw_run_all (map (\<lambda>t. (t, envs t)) xs) s)) t =
     (if t \<in> set xs then Some (t_wall (bw_net (envs t))) else map_of (task_start_time s) t)"
  by (induction xs arbitrary: s) (auto simp: bw_run_request_start update_conv')

lemma bw_run_request_balance:
  "bw_completed_tasks (fst (bw_run_request t env s)) - bw_sent_to_ec (fst (bw_run_request t env s))
     - bw_ran_on_ed (fst (bw_run_request t env s))
   = bw_completed_tasks s - bw_sent_to_ec s - bw_ran_on_ed s"
  by (simp add: bw_run_request_def bw_enqueue_local_run_def Let_def split: option.split)

lemma dist_upper_small:
  assumes "0 < n" "n \<le> 2 ^ 31"
  shows "dist_upper n = int n - 1"
proof -
  obtain m where n: "n = Suc m" using assms(1) by (cases n) auto
  then have "(word_of_nat n - 1 :: size_t) = word_of_nat m" by simp
  then show ?thesis using int_to_32_small [of m] assms(2) n by (simp add: dist_upper_def)
qed

lemma dist_upper_wraps: "dist_upper (2 ^ 31 + 1) = - (2 ^ 31)"
  by (simp add: dist_upper_def)

text \<open>
  C35: the fallback's image choice keeps in bounds. When \<open>opendir\<close> fails or the
  directory holds no regular file, \<open>get_random_image_from_coco\<close> returns \<open>IMAGE\<close>;
  otherwise, for a directory of at most \<open>2\<^sup>3\<^sup>1\<close> entries and any draw that keeps to the
  range it is given, the index \<open>dist(gen)\<close> lies within \<open>images\<close> and the result is one of
  its regular files; and the range \<open>0 .. images.size() - 1\<close>, read through its \<open>size_t\<close>
  to \<open>int\<close> conversion, reaches every one of them.
\<close>

theorem coco_image_choice:
  assumes "\<forall>a b. a \<le> b \<longrightarrow> a \<le> draw a b \<and> draw a b \<le> b" "length ents \<le> 2 ^ 31"
  shows "get_random_image_from_coco None draw = bw_image
    \<and> (coco_images ents = [] \<longrightarrow> get_random_image_from_coco (Some ents) draw = bw_image)
    \<and> (coco_images ents \<noteq> [] \<longrightarrow> get_random_image_from_coco (Some ents) draw \<in> set (coco_images ents))
    \<and> (\<forall>x \<in> set (coco_images ents). \<exists>k. 0 \<le> k \<and> k \<le> dist_upper (length (coco_images ents))
          \<and> get_random_image_from_coco (Some ents) (\<lambda>_ _. k) = x)"
proof -
  let ?k = "length (coco_images ents)"
  have up: "coco_images ents \<noteq> [] \<Longrightarrow> dist_upper ?k = int ?k - 1"
    using assms(2) by (intro dist_upper_small) (auto simp: coco_images_def intro: order_trans [OF length_filter_le])
  have pick: "get_random_image_from_coco (Some ents) draw \<in> set (coco_images ents)" if ne: "coco_images ents \<noteq> []"
  proof -
    have "0 \<le> int ?k - 1" using ne by simp
    then have "0 \<le> draw 0 (dist_upper ?k)" "draw 0 (dist_upper ?k) \<le> int ?k - 1"
      using assms(1) [rule_format, of 0 "int ?k - 1"] up [OF ne] by simp_all
    then have "nat (draw 0 (dist_upper ?k)) < ?k" by linarith
    then show ?thesis using ne by (simp add: get_random_image_from_coco_def Let_def)
  qed
  have reach: "\<exists>k. 0 \<le> k \<and> k \<le> dist_upper ?k \<and> get_random_image_from_coco (Some ents) (\<lambda>_ _. k) = x"
    if x: "x \<in> set (coco_images ents)" for x
  proof -
    obtain i where i: "i < ?k" "coco_images ents ! i = x" using x by (auto simp: in_set_conv_nth)
    then have "coco_images ents \<noteq> []" by auto
    then show ?thesis
      using i up by (intro exI [of _ "int i"]) (auto simp: get_random_image_from_coco_def Let_def)
  qed
  show ?thesis using pick reach by (simp add: get_random_image_from_coco_def)
qed

theorem coco_image_choice_witness:
  "get_random_image_from_coco None (\<lambda>a b. b) = bw_image
    \<and> get_random_image_from_coco (Some [(''a.jpg'', DT_REG), (''sub'', DT_DIR)]) (\<lambda>a b. b) = ''COCO_test_1220/a.jpg''
    \<and> (\<exists>k. 0 \<le> k \<and> k \<le> dist_upper (length (coco_images [(''a.jpg'', DT_REG), (''sub'', DT_DIR)]))
          \<and> get_random_image_from_coco (Some [(''a.jpg'', DT_REG), (''sub'', DT_DIR)]) (\<lambda>_ _. k) = ''COCO_test_1220/a.jpg'')"
proof -
  have c: "coco_images [(''a.jpg'', DT_REG), (''sub'', DT_DIR)] = [''COCO_test_1220/a.jpg'']"
    by (simp add: coco_images_def)
  have "get_random_image_from_coco None (\<lambda>a b. b) = bw_image
    \<and> (coco_images [(''a.jpg'', DT_REG), (''sub'', DT_DIR)] = []
         \<longrightarrow> get_random_image_from_coco (Some [(''a.jpg'', DT_REG), (''sub'', DT_DIR)]) (\<lambda>a b. b) = bw_image)
    \<and> (coco_images [(''a.jpg'', DT_REG), (''sub'', DT_DIR)] \<noteq> []
         \<longrightarrow> get_random_image_from_coco (Some [(''a.jpg'', DT_REG), (''sub'', DT_DIR)]) (\<lambda>a b. b)
               \<in> set (coco_images [(''a.jpg'', DT_REG), (''sub'', DT_DIR)]))
    \<and> (\<forall>x \<in> set (coco_images [(''a.jpg'', DT_REG), (''sub'', DT_DIR)]). \<exists>k. 0 \<le> k
          \<and> k \<le> dist_upper (length (coco_images [(''a.jpg'', DT_REG), (''sub'', DT_DIR)]))
          \<and> get_random_image_from_coco (Some [(''a.jpg'', DT_REG), (''sub'', DT_DIR)]) (\<lambda>_ _. k) = x)"
    by (rule coco_image_choice) simp_all
  then show ?thesis unfolding c by simp
qed

text \<open>
  C36: the end-to-end latency of \<open>ed_oms_parallel_rn50_bwaj.cpp\<close> is measured from the
  worker, not from the task's birth. Whatever the generator stamped, once the workers
  have run a token its start time is the clock at the top of \<open>run_request\<close>, so the
  time a task waited in \<open>task_queue\<close> never enters the average.
\<close>

theorem bw_birth_overwritten:
  assumes "t \<in> set (sched toks)"
  shows "map_of (task_start_time (bw_run_all (map (\<lambda>t. (t, envs t)) (sched toks)) (bw_generate toks birth bw_init))) t
           = Some (t_wall (bw_net (envs t)))"
  using assms by (simp add: bw_run_all_start)

theorem bw_birth_overwritten_witness:
  "map_of (task_start_time (bw_run_all (map (\<lambda>t. (t, (\<lambda>_. \<lparr>bw_net = drop_env, bw_local_image = ''a.jpg'', bw_now_done = 0\<rparr>) t)) (rev [0, 1]))
      (bw_generate [0, 1] (\<lambda>_. 0) bw_init))) 0 = Some 1000"
proof -
  have "map_of (task_start_time (bw_run_all (map (\<lambda>t. (t, (\<lambda>_. \<lparr>bw_net = drop_env, bw_local_image = ''a.jpg'', bw_now_done = 0\<rparr>) t)) (rev [0, 1]))
      (bw_generate [0, 1] (\<lambda>_. 0) bw_init))) 0
      = Some (t_wall (bw_net ((\<lambda>_. \<lparr>bw_net = drop_env, bw_local_image = ''a.jpg'', bw_now_done = 0\<rparr>) (0::int))))"
    by (rule bw_birth_overwritten [where sched = rev]) simp
  then show ?thesis by (simp add: drop_env_def)
qed

text \<open>
  C37: the bwaj variant keeps \<open>completed = sent + ran\<close> on every call of
  \<open>run_request\<close>, and counts a granted task as offloaded on any non-empty answer to its
  \<open>DONE\<close> \<open>recv\<close>, whatever the bytes say, recording the answer's arrival as the task's
  end time.
\<close>

theorem bw_done_unchecked:
  assumes "sock_ok (bw_net env)" "connect_ok (bw_net env)" "response (bw_net env) = Some (grant_msg p)"
    and "image (bw_net env) = Some bytes" "done_reply (bw_net env) = Some d" "d \<noteq> []"
  shows "bw_completed_tasks (fst (bw_run_request t env s)) - bw_sent_to_ec (fst (bw_run_request t env s))
           - bw_ran_on_ed (fst (bw_run_request t env s)) = bw_completed_tasks s - bw_sent_to_ec s - bw_ran_on_ed s
       \<and> bw_sent_to_ec (fst (bw_run_request t env s)) = bw_sent_to_ec s + 1
       \<and> map_of (task_end_time (fst (bw_run_request t env s))) t = Some (bw_now_done env)"
proof -
  have "starts_with ''GRANT:'' (grant_msg p)" "grant_msg p \<noteq> []"
    by (simp_all add: grant_msg_def starts_with_def)
  with assms show ?thesis
    by (simp add: bw_run_request_balance) (simp add: bw_run_request_def Let_def update_conv')
qed

theorem bw_done_unchecked_witness:
  "bw_sent_to_ec (fst (bw_run_request 0 \<lparr>bw_net = drop_env\<lparr>response := Some (grant_msg 0), image := Some ''JPEG'',
       done_reply := Some ''DONX''\<rparr>, bw_local_image = ''a.jpg'', bw_now_done = 7\<rparr> bw_init)) = 1"
  using bw_done_unchecked [of "\<lparr>bw_net = drop_env\<lparr>response := Some (grant_msg 0), image := Some ''JPEG'',
       done_reply := Some ''DONX''\<rparr>, bw_local_image = ''a.jpg'', bw_now_done = 7\<rparr>" 0 "''JPEG''" "''DONX''" 0 bw_init]
  by (simp add: drop_env_def bw_init_def)

end
