(* ===== verification/Sim.thy ===== *)
theory Sim
  imports Stats Consumer
begin

text \<open>
  The ED variant \<open>src/Experiment_May15/ed_oms_parallel_rn50_simulation_working.cpp\<close>.
  It has no completion listener and no time maps: the local queue holds image paths
  only, and a task that the broker drops is counted as completed and run locally at
  once, with the latency measured up to the \<open>DROP\<close> reply, before its local run has
  even been queued. Transport failures and an empty or failed reply \<open>recv\<close> fall back
  without being counted; a granted task counts on any non-empty answer to its
  \<open>DONE\<close> \<open>recv\<close>. The 32 workers take the tokens \<open>0 .. total_requests - 1\<close> from a
  static counter under a mutex, so each token is run exactly once.
\<close>

record sim_state =
  sim_completed_tasks :: int
  sim_ran_on_ed :: int
  sim_sent_to_ec :: int
  sim_total_latency_ms :: int
  sim_local_queue :: "string list"
  sim_stop_local :: bool
  sim_py_stdin :: "string list"

definition sim_init :: sim_state where
  "sim_init = \<lparr>sim_completed_tasks = 0, sim_ran_on_ed = 0, sim_sent_to_ec = 0, sim_total_latency_ms = 0,
               sim_local_queue = [], sim_stop_local = False, sim_py_stdin = []\<rparr>"

definition sim_enqueue_local_run :: "string \<Rightarrow> sim_state \<Rightarrow> sim_state" where
  "sim_enqueue_local_run img_path s = s\<lparr>sim_local_queue := sim_local_queue s @ [img_path]\<rparr>"

text \<open>
  \<open>run_request\<close>; \<open>t_end\<close> is the clock read after the \<open>DONE\<close> reply on the offload
  path and after the \<open>DROP\<close> reply on the fallback path.
\<close>

definition sim_run_request :: "token \<Rightarrow> net_env \<Rightarrow> sim_state \<Rightarrow> sim_state \<times> frame list" where
  "sim_run_request token_ed env s =
     (let duration = t_end env - t_start env in
      if \<not> sock_ok env then (sim_enqueue_local_run image_path s, [])
      else if \<not> connect_ok env then (sim_enqueue_local_run image_path s, [])
      else
        (let req = req_msg token_ed ''resnet_50'' ''PI5'' in
         (case response env of
            None \<Rightarrow> (sim_enqueue_local_run image_path s, [Text req])
          | Some resp \<Rightarrow>
              (if resp = [] then (sim_enqueue_local_run image_path s, [Text req])
               else if starts_with ''GRANT:'' resp then
                 (let token_ec = drop 6 resp;
                      ok = ok_msg token_ec token_ed
                  in (case image env of
                        None \<Rightarrow> (s, [Text req, Text ok])
                      | Some bytes \<Rightarrow>
                          (let fs = [Text req, Text ok] @ map Data (send_chunks bytes) @ [ShutWr] in
                           (case done_reply env of
                              None \<Rightarrow> (s, fs)
                            | Some d \<Rightarrow>
                                (if d = [] then (s, fs)
                                 else (s\<lparr>sim_completed_tasks := sim_completed_tasks s + 1,
                                         sim_total_latency_ms := sim_total_latency_ms s + duration,
                                         sim_sent_to_ec := sim_sent_to_ec s + 1\<rparr>, fs))))))
               else if resp = drop_msg then
                 ((sim_enqueue_local_run image_path s)\<lparr>sim_completed_tasks := sim_completed_tasks s + 1,
                     sim_total_latency_ms := sim_total_latency_ms s + duration, sim_ran_on_ed := sim_ran_on_ed s + 1\<rparr>,
                  [Text req])
               else (s, [Text req])))))"

fun sim_run_all :: "(token \<times> net_env) list \<Rightarrow> sim_state \<Rightarrow> sim_state" where
  "sim_run_all [] s = s"
| "sim_run_all ((t, env) # ts) s = sim_run_all ts (fst (sim_run_request t env s))"

definition sim_local_run_dispatch :: "sim_state \<Rightarrow> sim_state option" where
  "sim_local_run_dispatch s =
     map_option (\<lambda>(q, out). s\<lparr>sim_local_queue := q, sim_py_stdin := out\<rparr>)
       (queue_consumer (sim_local_queue s) (sim_stop_local s) (sim_py_stdin s))"

definition sim_final_stats :: "sim_state \<Rightarrow> final_report" where
  "sim_final_stats s =
     \<lparr>rep_completed = sim_completed_tasks s, rep_sent = sim_sent_to_ec s, rep_ran = sim_ran_on_ed s,
      rep_pct_ed = (if sim_completed_tasks s = 0 then 0
                    else 100 * of_int (sim_ran_on_ed s) / of_int (sim_completed_tasks s)),
      rep_pct_ec = (if sim_completed_tasks s = 0 then 0
                    else 100 * of_int (sim_sent_to_ec s) / of_int (sim_completed_tasks s)),
      rep_avg_latency = (if sim_completed_tasks s = 0 then 0
                         else cpp_div (sim_total_latency_ms s) (sim_completed_tasks s))\<rparr>"

datatype sim_exit = SimUsage | SimAborted cpp_exc | SimDivisionByZero | SimHelperFailed | SimHangs
  | SimFinished final_report

text \<open>
  \<open>main\<close>: \<open>std::stoi\<close> of both arguments, \<open>1000 / tasks_per_second\<close>, \<open>popen\<close> of the
  helper (\<open>py_ok\<close>; its failure exits with status 1), the workers' calls in the order
  \<open>sched\<close> of the tokens the shared counter hands out, then the consumer is stopped and
  drained and the report printed.
\<close>

definition sim_main ::
  "string list \<Rightarrow> bool \<Rightarrow> (token \<Rightarrow> net_env) \<Rightarrow> (token list \<Rightarrow> token list) \<Rightarrow> sim_exit" where
  "sim_main argv py_ok envs sched =
     (if length argv < 3 then SimUsage
      else (case cpp_stoi (argv ! 1) of
        Inl e \<Rightarrow> SimAborted e
      | Inr tasks_per_second \<Rightarrow> (case cpp_stoi (argv ! 2) of
          Inl e \<Rightarrow> SimAborted e
        | Inr total_requests \<Rightarrow>
            (if tasks_per_second = 0 then SimDivisionByZero
             else if \<not> py_ok then SimHelperFailed
             else (case sim_local_run_dispatch
                          ((sim_run_all (map (\<lambda>t. (t, envs t)) (sched (generated_tokens total_requests))) sim_init)
                             \<lparr>sim_stop_local := True\<rparr>) of
                     None \<Rightarrow> SimHangs
                   | Some s \<Rightarrow> SimFinished (sim_final_stats s))))))"

subsection \<open>Lemmas\<close>

lemma sim_run_request_balance:
  "sim_completed_tasks (fst (sim_run_request t env s)) - sim_sent_to_ec (fst (sim_run_request t env s))
     - sim_ran_on_ed (fst (sim_run_request t env s))
   = sim_completed_tasks s - sim_sent_to_ec s - sim_ran_on_ed s"
  by (simp add: sim_run_request_def sim_enqueue_local_run_def Let_def split: option.split)

lemma sim_main_finishes:
  "length argv \<ge> 3 \<Longrightarrow> cpp_stoi (argv ! 1) = Inr tps \<Longrightarrow> tps \<noteq> 0 \<Longrightarrow> cpp_stoi (argv ! 2) = Inr n \<Longrightarrow>
   sim_main argv True envs sched \<noteq> SimHangs"
  by (simp add: sim_main_def sim_local_run_dispatch_def queue_consumer_stop)

text \<open>
  C38: the simulation variant counts a dropped task as completed locally, with the
  latency measured up to the \<open>DROP\<close> reply. After \<open>DROP\<close> the task's image is only
  queued for the helper, yet \<open>completed_tasks\<close> and \<open>ran_on_ed\<close> go up by one and the
  time from \<open>start\<close> to the reply is added to \<open>total_latency_ms\<close>; nothing of the
  local inference enters the average.
\<close>

theorem sim_drop_latency:
  assumes "sock_ok env" "connect_ok env" "response env = Some drop_msg"
  shows "sim_run_request t env s =
           (s\<lparr>sim_local_queue := sim_local_queue s @ [image_path],
              sim_completed_tasks := sim_completed_tasks s + 1,
              sim_total_latency_ms := sim_total_latency_ms s + (t_end env - t_start env),
              sim_ran_on_ed := sim_ran_on_ed s + 1\<rparr>,
            [Text (req_msg t ''resnet_50'' ''PI5'')])"
proof -
  have "drop_msg \<noteq> []" "\<not> starts_with ''GRANT:'' drop_msg"
    by (simp_all add: drop_msg_def starts_with_def)
  with assms show ?thesis by (simp add: sim_run_request_def sim_enqueue_local_run_def Let_def)
qed

theorem sim_drop_latency_witness:
  "sim_total_latency_ms (fst (sim_run_request 0 (drop_env\<lparr>t_start := 10, t_end := 25\<rparr>) sim_init)) = 15
   \<and> sim_ran_on_ed (fst (sim_run_request 0 (drop_env\<lparr>t_start := 10, t_end := 25\<rparr>) sim_init)) = 1"
  using sim_drop_latency [of "drop_env\<lparr>t_start := 10, t_end := 25\<rparr>" 0 sim_init]
  by (simp add: drop_env_def sim_init_def)

end
