(* ===== verification/Probe.thy ===== *)
theory Probe
  imports Prelude
begin

text \<open>
  The energy and latency probes \<open>src/Experiment_May15/image_energy_latency_*.cpp\<close>: a
  server on the EC (\<open>handle_client\<close>) and a client on the ED that either uploads the
  \<open>.jpg\<close> files of a directory (\<open>SEND\<close>) or downloads those of a remote directory
  (\<open>GET\<close>); the \<open>get1kB\<close> pair downloads one 1024-byte result per connection. The
  framing is: a mode string, a count in a 16-byte field, then per file its name length in
  an 8-byte field, the name, its size in a 16-byte field, and the bytes. A field is written
  by \<open>send(s.c_str(), w)\<close>: the decimal, its terminating NUL, and whatever bytes follow
  it in the string's buffer (\<open>pad\<close>). A field is read by \<open>recv(buf, w)\<close> into an
  uninitialised or reused buffer and parsed by \<open>std::stoi\<close>; the bytes the \<open>recv\<close>
  did not write are \<open>junk\<close>, one unspecified byte per buffer index for the whole
  connection. A mode buffer filled to its 1024 bytes without a NUL is read up to its end.
  The EC's accept loop, which serves connections one after another on a file system that
  the \<open>SEND\<close>s change, is not modelled: each theorem is about one connection.

  TCP is the byte stream of the connection with the amount each \<open>recv\<close> delivers
  (\<open>rx\<close>: the bytes not yet read and the list of deliveries; a delivery \<open>c\<close> gives at
  most \<open>c\<close> bytes, and after the list each \<open>recv\<close> gets all it asked for that the stream
  holds). Nothing in the sources keeps one \<open>send\<close> from being merged with the next in
  one \<open>recv\<close>.
\<close>

type_synonym rx = "string \<times> nat list"

definition sock_recv :: "nat \<Rightarrow> rx \<Rightarrow> string \<times> rx" where
  "sock_recv n r =
     (case r of (st, cs) \<Rightarrow>
        let lim = (case cs of [] \<Rightarrow> n | c # _ \<Rightarrow> c);
            b = take (min n lim) st
        in (b, (drop (length b) st, tl cs)))"

definition nul :: char where
  "nul = CHR 0x00"

text \<open>\<open>std::string(buf)\<close>: the bytes up to the first NUL.\<close>

definition cstr :: "string \<Rightarrow> string" where
  "cstr b = takeWhile (\<lambda>c. c \<noteq> nul) b"

text \<open>\<open>send(s.c_str(), w)\<close>.\<close>

definition field :: "nat \<Rightarrow> string \<Rightarrow> (nat \<Rightarrow> char) \<Rightarrow> string" where
  "field w s pad = take w (s @ nul # map pad [0..<w])"

text \<open>A buffer of \<open>w\<close> bytes after a \<open>recv\<close> wrote \<open>b\<close> at its start.\<close>

definition buf_after :: "nat \<Rightarrow> string \<Rightarrow> (nat \<Rightarrow> char) \<Rightarrow> string" where
  "buf_after w b junk = b @ map junk [length b..<w]"

datatype probe_exc = PCpp cpp_exc | PLengthError | PFilesystemError

text \<open>
  The files (path, bytes) a loop has written, in order, and the exception that ended it,
  if one did. An exception escapes to \<open>main\<close> and terminates the process; the files
  written before it stay on disk.
\<close>

type_synonym written = "(string \<times> string) list \<times> probe_exc option"

subsection \<open>Receiving files\<close>

text \<open>
  \<open>while (received < fsize) { chunk = recv(..., fsize - received); if (chunk <= 0) break;
  received += chunk; }\<close>, returning the bytes received and the connection after them.
\<close>

function recv_loop :: "nat \<Rightarrow> rx \<Rightarrow> string \<Rightarrow> string \<times> rx" where
  "recv_loop fsize r acc =
     (if length acc < fsize then
        (case sock_recv (fsize - length acc) r of
           (chunk, r') \<Rightarrow> if chunk = [] then (acc, r') else recv_loop fsize r' (acc @ chunk))
      else (acc, r))"
  by pat_completeness auto
termination
  by (relation "measure (\<lambda>(n, r, acc). n - length acc)") (auto simp: neq_Nil_conv)

declare recv_loop.simps [simp del]

text \<open>
  The per-file loop of the receiver (the same code in the EC's \<open>SEND\<close> branch and the
  ED's \<open>receive_images\<close>): the name length from an 8-byte field, the name into a
  zero-filled string of that length, the size from a 16-byte field, the bytes into a
  zero-filled vector of that size, which is written whole before the next file is read. A
  negative length makes
  \<open>std::string(n, 0)\<close> or \<open>std::vector<char>(n)\<close> throw \<open>std::length_error\<close>.
\<close>

fun recv_files :: "nat \<Rightarrow> string \<Rightarrow> (nat \<Rightarrow> char) \<Rightarrow> rx \<Rightarrow> written" where
  "recv_files 0 dir junk r = ([], None)"
| "recv_files (Suc k) dir junk r =
     (case sock_recv 8 r of (len_buf, r1) \<Rightarrow>
      (case cpp_stoi (buf_after 8 len_buf junk) of
         Inl e \<Rightarrow> ([], Some (PCpp e))
       | Inr name_len \<Rightarrow>
          (if name_len < 0 then ([], Some PLengthError)
           else (case sock_recv (nat name_len) r1 of (name_b, r2) \<Rightarrow>
                 (case sock_recv 16 r2 of (size_buf, r3) \<Rightarrow>
                  (case cpp_stoi (buf_after 16 size_buf junk) of
                     Inl e \<Rightarrow> ([], Some (PCpp e))
                   | Inr fsize \<Rightarrow>
                       (if fsize < 0 then ([], Some PLengthError)
                        else (case recv_loop (nat fsize) r3 [] of (data, r4) \<Rightarrow>
                              (case recv_files k dir junk r4 of
                                 (fs, e) \<Rightarrow>
                                   ((dir @ ''/'' @ name_b @ replicate (nat name_len - length name_b) nul,
                                     data @ replicate (nat fsize - length data) nul) # fs, e))))))))))"

subsection \<open>Sending files\<close>

text \<open>
  The writer's framing of a list of files (name, bytes): the count, then per file the
  name length, the name, the size and the bytes. \<open>pad\<close> gives the bytes after the
  terminator of each field's buffer.
\<close>

definition file_frame :: "(string \<Rightarrow> nat \<Rightarrow> char) \<Rightarrow> string \<times> string \<Rightarrow> string" where
  "file_frame pad f =
     (case f of (fname, data) \<Rightarrow>
        field 8 (show_nat (length fname)) (pad (show_nat (length fname))) @ fname
        @ field 16 (show_nat (length data)) (pad (show_nat (length data))) @ data)"

definition file_frames :: "(string \<times> string) list \<Rightarrow> (string \<Rightarrow> nat \<Rightarrow> char) \<Rightarrow> string" where
  "file_frames files pad =
     field 16 (show_nat (length files)) (pad (show_nat (length files))) @ concat (map (file_frame pad) files)"

text \<open>The directory operations: \<open>create_directories\<close> and the \<open>.jpg\<close> files (name, bytes)
  a \<open>directory_iterator\<close> lists; \<open>None\<close> and \<open>False\<close> are the \<open>filesystem_error\<close> they throw.\<close>

record fs_env =
  fs_mkdir_ok :: "string \<Rightarrow> bool"
  fs_jpgs :: "string \<Rightarrow> (string \<times> string) list option"

text \<open>What one connection did: the directory it created and the files it wrote there,
  the bytes it sent back, or nothing.\<close>

datatype ec_effect = EcStored string "(string \<times> string) list" | EcServed string | EcIgnored

subsection \<open>The EC server\<close>

text \<open>
  \<open>handle_client\<close> of \<open>image_energy_latency_EC.cpp\<close>: the mode from one \<open>recv\<close> of up
  to 1024 bytes read as a C string; \<open>SEND <dir>\<close> creates the directory, reads the count
  with \<open>std::stoi(num_buf)\<close> and stores the files; \<open>GET <dir>\<close> sends the framing of the
  directory's \<open>.jpg\<close> files; \<open>substr\<close> throws when the mode is too short.
\<close>

definition ec_receive_upload :: "string \<Rightarrow> fs_env \<Rightarrow> (nat \<Rightarrow> char) \<Rightarrow> rx \<Rightarrow> ec_effect \<times> probe_exc option" where
  "ec_receive_upload remote_dir fs junk r =
     (if \<not> fs_mkdir_ok fs remote_dir then (EcIgnored, Some PFilesystemError)
      else (case sock_recv 16 r of (num_buf, r1) \<Rightarrow>
            (case cpp_stoi (cstr (buf_after 16 num_buf junk)) of
               Inl e \<Rightarrow> (EcStored remote_dir [], Some (PCpp e))
             | Inr num_files \<Rightarrow>
                 (case recv_files (nat num_files) remote_dir junk r1 of
                    (stored, e) \<Rightarrow> (EcStored remote_dir stored, e)))))"

definition ec_handle_client :: "fs_env \<Rightarrow> (string \<Rightarrow> nat \<Rightarrow> char) \<Rightarrow> (nat \<Rightarrow> char) \<Rightarrow> rx \<Rightarrow> ec_effect \<times> probe_exc option" where
  "ec_handle_client fs pad junk r =
     (case sock_recv 1024 r of (buffer, r1) \<Rightarrow>
      (let mode = cstr buffer in
       if starts_with ''SEND'' mode then
         (case cpp_substr mode 5 (unat npos) of
            Inl e \<Rightarrow> (EcIgnored, Some (PCpp e))
          | Inr remote_dir \<Rightarrow> ec_receive_upload remote_dir fs junk r1)
       else if starts_with ''GET'' mode then
         (case cpp_substr mode 4 (unat npos) of
            Inl e \<Rightarrow> (EcIgnored, Some (PCpp e))
          | Inr remote_dir \<Rightarrow>
              (case fs_jpgs fs remote_dir of
                 None \<Rightarrow> (EcIgnored, Some PFilesystemError)
               | Some files \<Rightarrow> (EcServed (file_frames files pad), None)))
       else (EcIgnored, None)))"

text \<open>
  \<open>image_energy_latency_EC_get1kB.cpp\<close>: the same \<open>SEND\<close> branch; \<open>GET\<close> sends one
  file \<open>result.txt\<close> whose bytes the loop \<open>while (payload.size() < 1024) payload +=
  "ABCD"\<close> builds.
\<close>

function fill_payload :: "string \<Rightarrow> string" where
  "fill_payload payload = (if length payload < 1024 then fill_payload (payload @ ''ABCD'') else payload)"
  by pat_completeness auto
termination
  by (relation "measure (\<lambda>p. 1024 - length p)") auto

definition ec1k_handle_client :: "fs_env \<Rightarrow> (string \<Rightarrow> nat \<Rightarrow> char) \<Rightarrow> (nat \<Rightarrow> char) \<Rightarrow> rx \<Rightarrow> ec_effect \<times> probe_exc option" where
  "ec1k_handle_client fs pad junk r =
     (case sock_recv 1024 r of (buffer, r1) \<Rightarrow>
      (let mode = cstr buffer in
       if starts_with ''SEND'' mode then
         (case cpp_substr mode 5 (unat npos) of
            Inl e \<Rightarrow> (EcIgnored, Some (PCpp e))
          | Inr remote_dir \<Rightarrow> ec_receive_upload remote_dir fs junk r1)
       else if starts_with ''GET'' mode then
         (EcServed (file_frames [(''result.txt'', fill_payload [])] pad), None)
       else (EcIgnored, None)))"

subsection \<open>The ED client\<close>

text \<open>
  \<open>send_images\<close>: what the ED writes to the connection (\<open>connect\<close> is not checked; a
  failed one writes nothing); \<open>directory_iterator\<close> of the local directory may throw.
\<close>

definition ed_send_images :: "string \<Rightarrow> string \<Rightarrow> bool \<Rightarrow> fs_env \<Rightarrow> (string \<Rightarrow> nat \<Rightarrow> char) \<Rightarrow> probe_exc + string" where
  "ed_send_images local_dir remote_dir conn_ok fs pad =
     (case fs_jpgs fs local_dir of
        None \<Rightarrow> Inl PFilesystemError
      | Some images \<Rightarrow> Inr (if conn_ok then (''SEND '' @ remote_dir) @ file_frames images pad else []))"

text \<open>\<open>receive_images\<close>: the request it writes, and the files it stores from the reply.\<close>

definition ed_receive_images :: "string \<Rightarrow> string \<Rightarrow> (nat \<Rightarrow> char) \<Rightarrow> rx \<Rightarrow> string \<times> written" where
  "ed_receive_images remote_dir local_dir junk r =
     (''GET '' @ remote_dir,
      (case sock_recv 16 r of (buf, r1) \<Rightarrow>
       (case cpp_stoi (cstr (buf_after 16 buf junk)) of
          Inl e \<Rightarrow> ([], Some (PCpp e))
        | Inr num_files \<Rightarrow> recv_files (nat num_files) local_dir junk r1)))"

datatype ed_probe_exit = EdUsage | EdInvalidMode | EdSent "probe_exc + string" | EdReceived string written

definition ed_probe_main :: "string list \<Rightarrow> bool \<Rightarrow> fs_env \<Rightarrow> (string \<Rightarrow> nat \<Rightarrow> char) \<Rightarrow> (nat \<Rightarrow> char) \<Rightarrow> rx \<Rightarrow> ed_probe_exit" where
  "ed_probe_main argv conn_ok fs pad junk r =
     (if length argv \<noteq> 5 then EdUsage
      else if argv ! 1 = ''SEND'' then EdSent (ed_send_images (argv ! 2) (argv ! 3) conn_ok fs pad)
      else if argv ! 1 = ''GET'' then
        (case ed_receive_images (argv ! 2) (argv ! 3) junk r of (req, res) \<Rightarrow> EdReceived req res)
      else EdInvalidMode)"

text \<open>
  \<open>image_energy_latency_ED_get1kB.cpp\<close>: \<open>receive_one_result\<close> sends \<open>GET\<close>, gives up
  unless the count is 1, and stores the one file as \<open>result_<i>.txt\<close>; \<open>main\<close> repeats
  it for 1220 connections.
\<close>

definition ed1k_receive_one_result :: "nat \<Rightarrow> (nat \<Rightarrow> char) \<Rightarrow> rx \<Rightarrow> probe_exc + (string \<times> string) option" where
  "ed1k_receive_one_result file_idx junk r =
     (case sock_recv 16 r of (buf, r1) \<Rightarrow>
      (case cpp_stoi (cstr (buf_after 16 buf junk)) of
         Inl e \<Rightarrow> Inl (PCpp e)
       | Inr num_files \<Rightarrow>
           (if num_files \<noteq> 1 then Inr None
            else (case recv_files 1 [] junk r1 of
                    (_, Some e) \<Rightarrow> Inl e
                  | (stored, None) \<Rightarrow> Inr (Some (''result_'' @ show_nat file_idx @ ''.txt'', snd (hd stored)))))))"

fun ed1k_loop :: "nat \<Rightarrow> (nat \<Rightarrow> char) \<Rightarrow> rx list \<Rightarrow> written" where
  "ed1k_loop i junk [] = ([], None)"
| "ed1k_loop i junk (r # rs) =
     (case ed1k_receive_one_result i junk r of
        Inl e \<Rightarrow> ([], Some e)
      | Inr res \<Rightarrow> (case ed1k_loop (Suc i) junk rs of
                      (fs, e) \<Rightarrow> ((case res of None \<Rightarrow> [] | Some f \<Rightarrow> [f]) @ fs, e)))"

definition ed1k_main :: "string list \<Rightarrow> (nat \<Rightarrow> char) \<Rightarrow> rx list \<Rightarrow> written option" where
  "ed1k_main argv junk conns =
     (if length argv \<noteq> 3 \<or> argv ! 1 \<noteq> ''GET'' then None
      else Some (ed1k_loop 0 junk (take 1220 conns)))"

text \<open>The deliveries under which every \<open>recv\<close> of the receiver gets exactly one \<open>send\<close>
  of the writer's framing (no \<open>recv\<close> is made for an empty file's bytes).\<close>

definition file_delivery :: "string \<times> string \<Rightarrow> nat list" where
  "file_delivery f = (case f of (fname, data) \<Rightarrow> [8, length fname, 16] @ (if data = [] then [] else [length data]))"

definition frame_deliveries :: "(string \<times> string) list \<Rightarrow> nat list" where
  "frame_deliveries files = 16 # concat (map file_delivery files)"

subsection \<open>Lemmas\<close>

lemma sock_recv_exact: "length x = k \<Longrightarrow> k \<le> n \<Longrightarrow> sock_recv n (x @ st, k # cs) = (x, (st, cs))"
  by (simp add: sock_recv_def min_def)

lemma length_field [simp]: "length (field w s pad) = w"
  by (simp add: field_def)

lemma buf_after_full [simp]: "length b = w \<Longrightarrow> buf_after w b junk = b"
  by (simp add: buf_after_def)

lemma nul_not_digit [simp]: "\<not> is_digit nul"
  by (simp add: nul_def is_digit_def decimal_digits_def)

lemma show_int_of_nat: "show_int (int k) = show_nat k"
  by (simp add: show_int_def)

lemma show_nat_no_nul [simp]: "nul \<notin> set (show_nat k)"
  by (metis show_int_no_sep(3) show_int_of_nat nul_def)

lemma length_show_nat_le: "k < 10 ^ d \<Longrightarrow> 0 < d \<Longrightarrow> length (show_nat k) \<le> d"
proof (induction k arbitrary: d rule: show_nat.induct)
  case (1 k)
  show ?case
  proof (cases "k < 10")
    case False
    have "1 < d"
    proof (rule ccontr)
      assume "\<not> 1 < d"
      with "1.prems" have "d = 1" by simp
      with False "1.prems" show False by simp
    qed
    then obtain d' where d: "d = Suc d'" "0 < d'" by (cases d) auto
    with "1.prems" have "k div 10 < 10 ^ d'" by simp
    with False d "1.IH" show ?thesis by (subst show_nat.simps) simp
  qed (subst show_nat.simps, use "1.prems" in simp)
qed

lemma field_split: "length s \<le> w \<Longrightarrow> \<exists>r. field w s pad = s @ r \<and> (r = [] \<or> hd r = nul)"
  by (cases "w - length s") (auto simp: field_def)

lemma stoi_field:
  assumes "length (show_nat k) \<le> w" "k < 2 ^ 31"
  shows "cpp_stoi (field w (show_nat k) pad) = Inr (int k)"
proof -
  obtain r where r: "field w (show_nat k) pad = show_nat k @ r" "r = [] \<or> hd r = nul"
    using field_split [OF assms(1)] by blast
  have "cpp_strtol (- (2 ^ 31)) (2 ^ 31 - 1) (show_int (int k) @ r) = Inr (int k)"
    using assms(2) r(2) by (intro cpp_strtol_show_int) auto
  then show ?thesis by (simp add: cpp_stoi_def r(1) show_int_def)
qed

lemma cstr_field: "length (show_nat k) \<le> w \<Longrightarrow> cstr (field w (show_nat k) pad) = show_nat k"
proof -
  assume "length (show_nat k) \<le> w"
  then obtain r where "field w (show_nat k) pad = show_nat k @ r" "r = [] \<or> hd r = nul"
    using field_split by blast
  moreover have "\<forall>c \<in> set (show_nat k). c \<noteq> nul" by (metis show_nat_no_nul)
  ultimately show ?thesis by (cases r) (auto simp: cstr_def takeWhile_append2)
qed

lemma recv_loop_exact:
  "d \<noteq> [] \<Longrightarrow> recv_loop (length d) (d @ st, length d # cs) [] = (d, (st, cs))"
  by (subst recv_loop.simps) (simp add: sock_recv_exact, subst recv_loop.simps, simp)

lemma recv_loop_data: "recv_loop (length d) (d @ st, (if d = [] then [] else [length d]) @ cs) [] = (d, (st, cs))"
  by (cases "d = []") (simp add: recv_loop.simps, simp add: recv_loop_exact)

lemma digits_small:
  "k < 2 ^ 31 \<Longrightarrow> length (show_nat k) \<le> 16" "k < 10 ^ 8 \<Longrightarrow> length (show_nat k) \<le> 8"
  by (rule length_show_nat_le; simp)+

lemma recv_files_frames:
  assumes "\<forall>(n, d) \<in> set files. length n < 10 ^ 8 \<and> length d < 2 ^ 31"
  shows "recv_files (length files) dir junk (concat (map (file_frame pad) files) @ st, concat (map file_delivery files) @ cs)
           = (map (\<lambda>(n, d). (dir @ ''/'' @ n, d)) files, None)"
  using assms
proof (induction files)
  case (Cons f files)
  obtain n d where f: "f = (n, d)" by (cases f)
  with Cons.prems have n: "length n < 10 ^ 8" and d: "length d < 2 ^ 31" by auto
  then have n31: "length n < 2 ^ 31" by simp
  let ?f8 = "field 8 (show_nat (length n)) (pad (show_nat (length n)))"
  let ?f16 = "field 16 (show_nat (length d)) (pad (show_nat (length d)))"
  have s8: "cpp_stoi ?f8 = Inr (int (length n))" using n n31 by (intro stoi_field digits_small)
  have s16: "cpp_stoi ?f16 = Inr (int (length d))" using d by (intro stoi_field digits_small)
  have "recv_files (Suc (length files)) dir junk
          ((?f8 @ n @ ?f16 @ d) @ concat (map (file_frame pad) files) @ st,
           ([8, length n, 16] @ (if d = [] then [] else [length d])) @ concat (map file_delivery files) @ cs)
        = ((dir @ ''/'' @ n, d) # map (\<lambda>(n, d). (dir @ ''/'' @ n, d)) files, None)"
    using Cons s8 s16
    by (simp add: sock_recv_exact recv_loop_data [of d, simplified])
  moreover have "file_frame pad (n, d) = ?f8 @ n @ ?f16 @ d"
    "file_delivery (n, d) = [8, length n, 16] @ (if d = [] then [] else [length d])"
    by (simp_all add: file_frame_def file_delivery_def)
  ultimately show ?case by (simp add: f)
qed simp

lemma stoi_show_nat: "k < 2 ^ 31 \<Longrightarrow> cpp_stoi (show_nat k) = Inr (int k)"
  using cpp_strtol_show_int [of "- (2 ^ 31)" "int k" "2 ^ 31 - 1" "[]"] by (simp add: cpp_stoi_def show_int_of_nat)

lemma substr_rest_short:
  "length m \<le> 1024 \<Longrightarrow> pos \<le> length m \<Longrightarrow> cpp_substr m pos (unat npos) = Inr (drop pos m)"
  by (simp add: cpp_substr_def unat_npos)

text \<open>The receivers' reading of a framed file list delivered one \<open>send\<close> per \<open>recv\<close>: the
  count, then every file, whatever the code does with the result.\<close>

lemma read_framed_files:
  assumes "length xs < 2 ^ 31" "\<forall>(n, d) \<in> set xs. length n < 10 ^ 8 \<and> length d < 2 ^ 31"
  shows "(case sock_recv 16 (file_frames xs pad, frame_deliveries xs) of (buf, r1) \<Rightarrow>
            (case cpp_stoi (cstr (buf_after 16 buf junk)) of
               Inl e \<Rightarrow> X e
             | Inr k \<Rightarrow> F (recv_files (nat k) dir junk r1)))
         = F (map (\<lambda>(n, d). (dir @ ''/'' @ n, d)) xs, None)"
proof -
  let ?c = "field 16 (show_nat (length xs)) (pad (show_nat (length xs)))"
  have "cstr ?c = show_nat (length xs)" using assms(1) by (intro cstr_field digits_small)
  moreover have "recv_files (length xs) dir junk (concat (map (file_frame pad) xs) @ [], concat (map file_delivery xs) @ [])
                   = (map (\<lambda>(n, d). (dir @ ''/'' @ n, d)) xs, None)"
    using assms(2) by (rule recv_files_frames)
  ultimately show ?thesis using assms(1)
    by (simp add: file_frames_def frame_deliveries_def sock_recv_exact stoi_show_nat)
qed

lemma send_mode:
  assumes "nul \<notin> set remote_dir"
  shows "cstr (''SEND '' @ remote_dir) = ''SEND '' @ remote_dir" "starts_with ''SEND'' (''SEND '' @ remote_dir @ r)"
  using assms by (auto simp: cstr_def nul_def takeWhile_eq_all_conv starts_with_def)

lemma get_mode:
  assumes "nul \<notin> set remote_dir"
  shows "cstr (''GET '' @ remote_dir) = ''GET '' @ remote_dir" "starts_with ''GET'' (''GET '' @ remote_dir)"
    "\<not> starts_with ''SEND'' (''GET '' @ remote_dir)"
  using assms by (auto simp: cstr_def nul_def takeWhile_eq_all_conv starts_with_def)

text \<open>The EC's side of one upload connection, one \<open>send\<close> per \<open>recv\<close>.\<close>

lemma ec_handle_upload:
  assumes "fs_mkdir_ok fs' remote_dir" "nul \<notin> set remote_dir" "length remote_dir \<le> 1019"
    and "length images < 2 ^ 31" "\<forall>(n, d) \<in> set images. length n < 10 ^ 8 \<and> length d < 2 ^ 31"
  shows "ec_handle_client fs' pad' junk ((''SEND '' @ remote_dir) @ file_frames images pad, (5 + length remote_dir) # frame_deliveries images)
           = (EcStored remote_dir (map (\<lambda>(n, d). (remote_dir @ ''/'' @ n, d)) images), None)"
proof -
  let ?up = "(file_frames images pad, frame_deliveries images)"
  have up: "ec_receive_upload remote_dir fs' junk ?up
              = (EcStored remote_dir (map (\<lambda>(n, d). (remote_dir @ ''/'' @ n, d)) images), None)"
    using assms(1) read_framed_files [OF assms(4,5), where pad = pad and junk = junk and dir = remote_dir
        and X = "\<lambda>e. (EcStored remote_dir [], Some (PCpp e))" and F = "\<lambda>(stored, e). (EcStored remote_dir stored, e)"]
    by (simp add: ec_receive_upload_def)
  have r1: "sock_recv 1024 ((''SEND '' @ remote_dir) @ file_frames images pad, (5 + length remote_dir) # frame_deliveries images)
              = (''SEND '' @ remote_dir, ?up)"
    using assms(3) by (intro sock_recv_exact) simp_all
  have sub: "cpp_substr (''SEND '' @ remote_dir) 5 (unat npos) = Inr remote_dir"
    using assms(3) by (simp add: substr_rest_short)
  show ?thesis
    using up sub send_mode(2) [OF assms(2), of "[]"]
    unfolding ec_handle_client_def r1 prod.case Let_def send_mode(1) [OF assms(2)] by simp
qed

text \<open>The EC's answer to \<open>GET <dir>\<close> delivered by one \<open>recv\<close>: the framing of the
  listing, or the \<open>filesystem_error\<close> of \<open>directory_iterator\<close>.\<close>

lemma ec_handle_get:
  assumes "nul \<notin> set remote_dir" "length remote_dir \<le> 1020"
  shows "ec_handle_client fs pad junk (''GET '' @ remote_dir, [4 + length remote_dir])
           = (case fs_jpgs fs remote_dir of
                None \<Rightarrow> (EcIgnored, Some PFilesystemError)
              | Some files \<Rightarrow> (EcServed (file_frames files pad), None))"
proof -
  have r1: "sock_recv 1024 (''GET '' @ remote_dir, [4 + length remote_dir]) = (''GET '' @ remote_dir, ([], []))"
    using assms(2) sock_recv_exact [of "''GET '' @ remote_dir" "4 + length remote_dir" 1024 "[]" "[]"] by simp
  have sub: "cpp_substr (''GET '' @ remote_dir) 4 (unat npos) = Inr remote_dir"
    using assms(2) by (simp add: substr_rest_short)
  show ?thesis
    using sub get_mode(2,3) [OF assms(1)]
    unfolding ec_handle_client_def r1 prod.case Let_def get_mode(1) [OF assms(1)] by simp
qed

text \<open>The ED's \<open>receive_images\<close> reading a framed reply, one \<open>send\<close> per \<open>recv\<close>.\<close>

lemma ed_receive_frames:
  assumes "length xs < 2 ^ 31" "\<forall>(n, d) \<in> set xs. length n < 10 ^ 8 \<and> length d < 2 ^ 31"
  shows "ed_receive_images remote_dir local_dir junk (file_frames xs pad, frame_deliveries xs)
           = (''GET '' @ remote_dir, (map (\<lambda>(n, d). (local_dir @ ''/'' @ n, d)) xs, None))"
  using read_framed_files [OF assms, where pad = pad and junk = junk and dir = local_dir
      and X = "\<lambda>e. ([], Some (PCpp e))" and F = "\<lambda>w. w"]
  by (simp add: ed_receive_images_def)

text \<open>
  C39: the upload of the energy probe delivers the directory intact when every
  \<open>recv\<close> of the EC gets exactly one \<open>send\<close> of the ED. For a remote directory name
  without NUL that fits the first \<open>recv\<close>, fewer than \<open>2\<^sup>3\<^sup>1\<close> files, names shorter
  than \<open>10\<^sup>8\<close> bytes and files shorter than \<open>2\<^sup>3\<^sup>1\<close> bytes, the EC stores every file
  the ED listed, under \<open><remote_dir>/<name>\<close> with its bytes, whatever bytes follow the
  fields' terminators and whatever the receive buffers held before.
\<close>

theorem probe_upload_roundtrip:
  assumes "fs_jpgs fs local_dir = Some images" "fs_mkdir_ok fs' remote_dir"
    and "nul \<notin> set remote_dir" "length remote_dir \<le> 1019"
    and "length images < 2 ^ 31" "\<forall>(n, d) \<in> set images. length n < 10 ^ 8 \<and> length d < 2 ^ 31"
  shows "\<exists>stream. ed_send_images local_dir remote_dir True fs pad = Inr stream
           \<and> ec_handle_client fs' pad' junk (stream, (5 + length remote_dir) # frame_deliveries images)
               = (EcStored remote_dir (map (\<lambda>(n, d). (remote_dir @ ''/'' @ n, d)) images), None)"
  using ec_handle_upload [OF assms(2-6)] assms(1) by (simp add: ed_send_images_def)

theorem probe_upload_roundtrip_witness:
  "\<exists>stream. ed_send_images ''in'' ''out'' True \<lparr>fs_mkdir_ok = (\<lambda>_. True), fs_jpgs = (\<lambda>_. Some [(''a.jpg'', ''xyz'')])\<rparr>
              (\<lambda>_ _. CHR ''z'') = Inr stream
     \<and> ec_handle_client \<lparr>fs_mkdir_ok = (\<lambda>_. True), fs_jpgs = (\<lambda>_. Some [(''a.jpg'', ''xyz'')])\<rparr> (\<lambda>_ _. CHR ''z'')
         (\<lambda>_. CHR ''q'') (stream, (5 + length ''out'') # frame_deliveries [(''a.jpg'', ''xyz'')])
       = (EcStored ''out'' (map (\<lambda>(n, d). (''out'' @ ''/'' @ n, d)) [(''a.jpg'', ''xyz'')]), None)"
  by (rule probe_upload_roundtrip) (simp_all add: nul_def)

lemma field_nul: "length s < w \<Longrightarrow> \<exists>r. field w s pad = s @ nul # r"
  by (cases "w - length s") (auto simp: field_def)

lemma sock_recv_all: "length st \<le> n \<Longrightarrow> sock_recv n (st, []) = (st, ([], []))"
  by (simp add: sock_recv_def)

text \<open>
  C40: when the first \<open>recv\<close> of the EC gets more than the mode string, the upload
  goes wrong. If the ED's whole upload arrives before the EC reads (each \<open>recv\<close> then
  gets all it asks for) and fits in the first 1024-byte \<open>recv\<close>, that \<open>recv\<close> swallows
  the count field too: the C string it makes ends at the count's terminator, so the
  EC creates and fills the directory \<open><remote_dir><count>\<close> and reads the count from
  a connection that has nothing left.
\<close>

theorem probe_upload_coalesced:
  assumes "fs_jpgs fs local_dir = Some images" "nul \<notin> set remote_dir" "length images < 2 ^ 31"
    and "5 + length remote_dir + length (file_frames images pad) \<le> 1024"
  shows "\<exists>stream. ed_send_images local_dir remote_dir True fs pad = Inr stream
           \<and> ec_handle_client fs' pad' junk (stream, [])
               = ec_receive_upload (remote_dir @ show_nat (length images)) fs' junk ([], [])"
proof -
  let ?k = "show_nat (length images)"
  let ?fr = "concat (map (file_frame pad) images)"
  let ?st = "(''SEND '' @ remote_dir) @ file_frames images pad"
  have "length ?k \<le> 10" using assms(3) by (intro length_show_nat_le) simp_all
  then obtain r where c: "field 16 ?k (pad ?k) = ?k @ nul # r" using field_nul by fastforce
  have st: "?st = (''SEND '' @ remote_dir @ ?k) @ nul # r @ ?fr" by (simp add: file_frames_def c)
  have "\<forall>x \<in> set (''SEND '' @ remote_dir @ ?k). x \<noteq> nul"
    using assms(2) show_nat_no_nul [of "length images"] by (auto simp: nul_def)
  then have mode: "cstr ?st = ''SEND '' @ remote_dir @ ?k"
    unfolding st cstr_def by (subst takeWhile_append2) auto
  have len: "length (''SEND '' @ remote_dir @ ?k) \<le> 1024"
    using assms(4) arg_cong [OF st, of length] by simp
  have sub: "cpp_substr (''SEND '' @ remote_dir @ ?k) 5 (unat npos) = Inr (remote_dir @ ?k)"
    using len by (simp add: substr_rest_short)
  have all: "sock_recv 1024 (?st, []) = (?st, ([], []))"
    using assms(4) by (intro sock_recv_all) simp
  have "ec_handle_client fs' pad' junk (?st, []) = ec_receive_upload (remote_dir @ ?k) fs' junk ([], [])"
    unfolding ec_handle_client_def all prod.case Let_def mode
    using sub by (simp add: starts_with_def)
  with assms(1) show ?thesis by (simp add: ed_send_images_def)
qed

theorem probe_upload_coalesced_witness:
  "\<exists>stream. ed_send_images ''in'' ''out'' True \<lparr>fs_mkdir_ok = (\<lambda>_. True), fs_jpgs = (\<lambda>_. Some [(''a.jpg'', ''xyz'')])\<rparr>
              (\<lambda>_ _. CHR ''z'') = Inr stream
     \<and> ec_handle_client \<lparr>fs_mkdir_ok = (\<lambda>_. True), fs_jpgs = (\<lambda>_. Some [(''a.jpg'', ''xyz'')])\<rparr> (\<lambda>_ _. CHR ''z'')
         (\<lambda>_. nul) (stream, []) = (EcStored ''out1'' [], Some (PCpp InvalidArgument))"
proof -
  have "\<exists>stream. ed_send_images ''in'' ''out'' True \<lparr>fs_mkdir_ok = (\<lambda>_. True), fs_jpgs = (\<lambda>_. Some [(''a.jpg'', ''xyz'')])\<rparr>
              (\<lambda>_ _. CHR ''z'') = Inr stream
     \<and> ec_handle_client \<lparr>fs_mkdir_ok = (\<lambda>_. True), fs_jpgs = (\<lambda>_. Some [(''a.jpg'', ''xyz'')])\<rparr> (\<lambda>_ _. CHR ''z'')
         (\<lambda>_. nul) (stream, []) = ec_receive_upload (''out'' @ show_nat (length [(''a.jpg'', ''xyz'')]))
             \<lparr>fs_mkdir_ok = (\<lambda>_. True), fs_jpgs = (\<lambda>_. Some [(''a.jpg'', ''xyz'')])\<rparr> (\<lambda>_. nul) ([], [])"
    by (rule probe_upload_coalesced) (simp_all add: nul_def, code_simp)
  moreover have "ec_receive_upload (''out'' @ show_nat (length [(''a.jpg'', ''xyz'')]))
             \<lparr>fs_mkdir_ok = (\<lambda>_. True), fs_jpgs = (\<lambda>_. Some [(''a.jpg'', ''xyz'')])\<rparr> (\<lambda>_. nul) ([], [])
        = (EcStored ''out1'' [], Some (PCpp InvalidArgument))"
    by code_simp
  ultimately show ?thesis by simp
qed

end
