(* ===== verification/ProbeServer.thy ===== *)
theory ProbeServer
  imports Probe
begin

text \<open>
  The servers' \<open>main\<close> in \<open>src/Experiment_May15/image_energy_latency_EC.cpp\<close> and
  \<open>..._EC_get1kB.cpp\<close>: one connection after another is accepted and handled by
  \<open>handle_client\<close>, on a file system that the uploads change and the downloads list.
  The file system is the list of directories and the files (path, bytes); paths are
  strings compared as written (no normalisation of \<open>.\<close>, \<open>..\<close> or repeated
  slashes), the parent of a path is its part before the last \<open>/\<close>, and the empty
  parent is the working directory. \<open>create_directories\<close> creates the path and its
  parents and throws when the path is empty or one of them is a file; an
  \<open>std::ofstream\<close> whose parent directory is missing, or whose path is a directory,
  writes nothing; \<open>directory_iterator\<close> throws on a path that is not a directory and
  yields the files and subdirectories in an order the environment chooses
  (\<open>pc_order\<close>), a subdirectory reading as no bytes.
\<close>

record pfs =
  pfs_dirs :: "string list"
  pfs_files :: "(string \<times> string) list"

definition slash :: char where
  "slash = CHR ''/''"

definition parent_dir :: "string \<Rightarrow> string" where
  "parent_dir p = (if slash \<in> set p then rev (drop 1 (dropWhile (\<lambda>c. c \<noteq> slash) (rev p))) else [])"

definition file_name :: "string \<Rightarrow> string" where
  "file_name p = rev (takeWhile (\<lambda>c. c \<noteq> slash) (rev p))"

text \<open>\<open>path::extension()\<close> of a file name: from its last dot, unless there is none, the
  only dot starts the name, or the name is \<open>.\<close> or \<open>..\<close>.\<close>

definition path_ext :: "string \<Rightarrow> string" where
  "path_ext n =
     (let r = takeWhile (\<lambda>c. c \<noteq> CHR ''.'') (rev n)
      in if n = ''.'' \<or> n = ''..'' \<or> length n \<le> length r + 1 then [] else CHR ''.'' # rev r)"

lemma length_parent_dir: "p \<noteq> [] \<Longrightarrow> length (parent_dir p) < length p"
proof -
  assume "p \<noteq> []"
  have "length (dropWhile (\<lambda>c. c \<noteq> slash) (rev p)) \<le> length p"
    using length_dropWhile_le [of _ "rev p"] by simp
  moreover have "0 < length p" using \<open>p \<noteq> []\<close> by simp
  ultimately have "length (dropWhile (\<lambda>c. c \<noteq> slash) (rev p)) - 1 < length p" by arith
  then show ?thesis using \<open>p \<noteq> []\<close> by (simp add: parent_dir_def)
qed

text \<open>The directories \<open>create_directories(d)\<close> makes: its parents first, then \<open>d\<close>.\<close>

function dir_prefixes :: "string \<Rightarrow> string list" where
  "dir_prefixes d = (if d = [] then [] else dir_prefixes (parent_dir d) @ [d])"
  by pat_completeness auto
termination
  by (relation "measure length") (auto simp: length_parent_dir)

declare dir_prefixes.simps [simp del]

definition pfs_mkdirs :: "string \<Rightarrow> pfs \<Rightarrow> pfs option" where
  "pfs_mkdirs d fs =
     (if d = [] \<or> (\<exists>p \<in> set (dir_prefixes d). p \<in> set (map fst (pfs_files fs))) then None
      else Some (fs\<lparr>pfs_dirs := pfs_dirs fs @ filter (\<lambda>p. p \<notin> set (pfs_dirs fs)) (dir_prefixes d)\<rparr>))"

definition dir_exists :: "pfs \<Rightarrow> string \<Rightarrow> bool" where
  "dir_exists fs d \<longleftrightarrow> d = [] \<or> d \<in> set (pfs_dirs fs)"

text \<open>\<open>std::ofstream out(p, binary); out.write(data)\<close>.\<close>

definition pfs_write :: "string \<Rightarrow> string \<Rightarrow> pfs \<Rightarrow> pfs" where
  "pfs_write p data fs =
     (if dir_exists fs (parent_dir p) \<and> p \<notin> set (pfs_dirs fs) \<and> file_name p \<noteq> []
      then fs\<lparr>pfs_files := AList.update p data (pfs_files fs)\<rparr> else fs)"

text \<open>The \<open>.jpg\<close> entries (name, bytes) \<open>directory_iterator(d)\<close> meets, before the
  environment orders them.\<close>

definition pfs_listing :: "string \<Rightarrow> pfs \<Rightarrow> (string \<times> string) list option" where
  "pfs_listing d fs =
     (if d \<notin> set (pfs_dirs fs) then None
      else Some (filter (\<lambda>(n, _). path_ext n = ''.jpg'')
                   (map (\<lambda>(p, data). (file_name p, data)) (filter (\<lambda>(p, _). parent_dir p = d) (pfs_files fs))
                    @ map (\<lambda>q. (file_name q, [])) (filter (\<lambda>q. parent_dir q = d) (pfs_dirs fs)))))"

definition fs_view :: "pfs \<Rightarrow> ((string \<times> string) list \<Rightarrow> (string \<times> string) list) \<Rightarrow> fs_env" where
  "fs_view fs order =
     \<lparr>fs_mkdir_ok = (\<lambda>d. pfs_mkdirs d fs \<noteq> None), fs_jpgs = (\<lambda>d. map_option order (pfs_listing d fs))\<rparr>"

text \<open>What a handled connection leaves on disk.\<close>

fun apply_effect :: "ec_effect \<Rightarrow> pfs \<Rightarrow> pfs" where
  "apply_effect (EcStored d stored) fs =
     (case pfs_mkdirs d fs of
        None \<Rightarrow> fs
      | Some fs' \<Rightarrow> foldl (\<lambda>fs (p, data). pfs_write p data fs) fs' stored)"
| "apply_effect _ fs = fs"

record probe_conn =
  pc_rx :: rx
  pc_order :: "(string \<times> string) list \<Rightarrow> (string \<times> string) list"

type_synonym handler = "fs_env \<Rightarrow> (string \<Rightarrow> nat \<Rightarrow> char) \<Rightarrow> (nat \<Rightarrow> char) \<Rightarrow> rx \<Rightarrow> ec_effect \<times> probe_exc option"

text \<open>
  The accept loop over the connections that arrive: each is handled to its end; an
  exception escapes \<open>main\<close> and ends the server with the files written so far.
\<close>

fun ec_serve :: "handler \<Rightarrow> (string \<Rightarrow> nat \<Rightarrow> char) \<Rightarrow> (nat \<Rightarrow> char) \<Rightarrow> pfs \<Rightarrow> probe_conn list
                 \<Rightarrow> ec_effect list \<times> pfs \<times> probe_exc option" where
  "ec_serve h pad junk fs [] = ([], fs, None)"
| "ec_serve h pad junk fs (c # cs) =
     (case h (fs_view fs (pc_order c)) pad junk (pc_rx c) of
        (eff, e) \<Rightarrow>
          (let fs' = apply_effect eff fs
           in case e of
                Some x \<Rightarrow> ([eff], fs', Some x)
              | None \<Rightarrow> (case ec_serve h pad junk fs' cs of (effs, fs'', e') \<Rightarrow> (eff # effs, fs'', e'))))"

text \<open>
  \<open>main\<close>: the results of \<open>socket\<close>, \<open>bind\<close> and \<open>listen\<close> are not checked; when one
  failed (\<open>listen_ok\<close> false) \<open>accept\<close> returns -1 and \<open>handle_client(-1)\<close> reads no
  mode, so no connection is served.
\<close>

definition ec_probe_main :: "bool \<Rightarrow> (string \<Rightarrow> nat \<Rightarrow> char) \<Rightarrow> (nat \<Rightarrow> char) \<Rightarrow> pfs \<Rightarrow> probe_conn list
                             \<Rightarrow> ec_effect list \<times> pfs \<times> probe_exc option" where
  "ec_probe_main listen_ok pad junk fs conns =
     (if listen_ok then ec_serve ec_handle_client pad junk fs conns else (map (\<lambda>_. EcIgnored) conns, fs, None))"

definition ec1k_probe_main :: "bool \<Rightarrow> (string \<Rightarrow> nat \<Rightarrow> char) \<Rightarrow> (nat \<Rightarrow> char) \<Rightarrow> pfs \<Rightarrow> probe_conn list
                               \<Rightarrow> ec_effect list \<times> pfs \<times> probe_exc option" where
  "ec1k_probe_main listen_ok pad junk fs conns =
     (if listen_ok then ec_serve ec1k_handle_client pad junk fs conns else (map (\<lambda>_. EcIgnored) conns, fs, None))"

subsection \<open>Well-formed file systems\<close>

text \<open>
  The shape every state of the server's file system has: no path is listed twice, the
  empty path is no directory, no path is both a file and a directory, and the parent of
  every file and directory exists.
\<close>

definition pfs_wf :: "pfs \<Rightarrow> bool" where
  "pfs_wf fs \<longleftrightarrow>
     distinct (map fst (pfs_files fs)) \<and> distinct (pfs_dirs fs) \<and> [] \<notin> set (pfs_dirs fs)
     \<and> (\<forall>p \<in> set (map fst (pfs_files fs)). dir_exists fs (parent_dir p) \<and> p \<notin> set (pfs_dirs fs))
     \<and> (\<forall>q \<in> set (pfs_dirs fs). dir_exists fs (parent_dir q))"

subsection \<open>Lemmas\<close>

lemma dir_prefixes_Nil [simp]: "dir_prefixes [] = []"
  by (simp add: dir_prefixes.simps)

lemma dir_prefixes_Cons: "d \<noteq> [] \<Longrightarrow> dir_prefixes d = dir_prefixes (parent_dir d) @ [d]"
  by (subst dir_prefixes.simps) simp

lemma dir_prefixes_shape:
  "[] \<notin> set (dir_prefixes d) \<and> distinct (dir_prefixes d) \<and> (\<forall>q \<in> set (dir_prefixes d). length q \<le> length d)
   \<and> (\<forall>q \<in> set (dir_prefixes d). parent_dir q = [] \<or> parent_dir q \<in> set (dir_prefixes d))
   \<and> (d \<noteq> [] \<longrightarrow> d \<in> set (dir_prefixes d))"
proof (induction d rule: dir_prefixes.induct)
  case (1 d)
  show ?case
  proof (cases "d = []")
    case False
    then have IH: "[] \<notin> set (dir_prefixes (parent_dir d)) \<and> distinct (dir_prefixes (parent_dir d))
        \<and> (\<forall>q \<in> set (dir_prefixes (parent_dir d)). length q \<le> length (parent_dir d))
        \<and> (\<forall>q \<in> set (dir_prefixes (parent_dir d)). parent_dir q = [] \<or> parent_dir q \<in> set (dir_prefixes (parent_dir d)))
        \<and> (parent_dir d \<noteq> [] \<longrightarrow> parent_dir d \<in> set (dir_prefixes (parent_dir d)))"
      by (rule "1.IH")
    moreover have "length (parent_dir d) < length d" using False by (rule length_parent_dir)
    ultimately show ?thesis using False by (auto simp: dir_prefixes_Cons)
  qed simp
qed

lemma pfs_mkdirs_wf:
  assumes "pfs_mkdirs d fs = Some fs'" "pfs_wf fs"
  shows "pfs_wf fs'"
proof -
  have fs': "fs' = fs\<lparr>pfs_dirs := pfs_dirs fs @ filter (\<lambda>p. p \<notin> set (pfs_dirs fs)) (dir_prefixes d)\<rparr>"
    and nf: "\<forall>p \<in> set (dir_prefixes d). p \<notin> set (map fst (pfs_files fs))"
    using assms(1) by (auto simp: pfs_mkdirs_def split: if_splits)
  show ?thesis
    using assms(2) nf dir_prefixes_shape [of d]
    unfolding fs' pfs_wf_def dir_exists_def by (auto simp: distinct_filter)
qed

lemma pfs_write_wf:
  assumes "pfs_wf fs"
  shows "pfs_wf (pfs_write p data fs)"
proof (cases "dir_exists fs (parent_dir p) \<and> p \<notin> set (pfs_dirs fs) \<and> file_name p \<noteq> []")
  case True
  have "set (map fst (AList.update p data (pfs_files fs))) = insert p (set (map fst (pfs_files fs)))"
    by (auto simp: update_keys)
  with True assms show ?thesis
    unfolding pfs_write_def pfs_wf_def dir_exists_def by (simp add: distinct_update del: set_map)
qed (use assms in \<open>auto simp: pfs_write_def\<close>)

lemma foldl_write_wf:
  "pfs_wf fs \<Longrightarrow> pfs_wf (foldl (\<lambda>fs (p, data). pfs_write p data fs) fs ws)"
  by (induction ws arbitrary: fs) (auto simp: pfs_write_wf)

lemma apply_effect_wf: "pfs_wf fs \<Longrightarrow> pfs_wf (apply_effect eff fs)"
  by (cases eff) (auto simp: pfs_mkdirs_wf foldl_write_wf split: option.split)

lemma path_in_dir:
  assumes "slash \<notin> set n"
  shows "parent_dir (d @ CHR ''/'' # n) = d" "file_name (d @ CHR ''/'' # n) = n"
  using assms by (simp_all add: parent_dir_def file_name_def slash_def dropWhile_append takeWhile_append)

lemma jpg_name_nonempty: "path_ext n = ''.jpg'' \<Longrightarrow> n \<noteq> []"
  by (auto simp: path_ext_def)

lemma update_fresh: "k \<notin> set (map fst al) \<Longrightarrow> AList.update k v al = al @ [(k, v)]"
  by (induction al) auto

text \<open>Writes of new files into an existing directory append them to the file list.\<close>

lemma foldl_write_append:
  assumes "dir_exists fs d" "distinct (map fst ws)"
    and "\<forall>(p, _) \<in> set ws. parent_dir p = d \<and> file_name p \<noteq> [] \<and> p \<notin> set (pfs_dirs fs) \<and> p \<notin> set (map fst (pfs_files fs))"
  shows "foldl (\<lambda>fs (p, data). pfs_write p data fs) fs ws = fs\<lparr>pfs_files := pfs_files fs @ ws\<rparr>"
  using assms
proof (induction ws arbitrary: fs)
  case (Cons w ws)
  obtain p x where w: "w = (p, x)" by fastforce
  have "pfs_write p x fs = fs\<lparr>pfs_files := pfs_files fs @ [(p, x)]\<rparr>"
    using Cons.prems w by (simp add: pfs_write_def update_fresh)
  moreover have "foldl (\<lambda>fs (p, data). pfs_write p data fs) (fs\<lparr>pfs_files := pfs_files fs @ [(p, x)]\<rparr>) ws
                   = (fs\<lparr>pfs_files := pfs_files fs @ [(p, x)]\<rparr>)\<lparr>pfs_files := pfs_files (fs\<lparr>pfs_files := pfs_files fs @ [(p, x)]\<rparr>) @ ws\<rparr>"
    using Cons.prems w by (intro Cons.IH) (auto simp: dir_exists_def image_iff)
  ultimately show ?case using w by simp
qed simp

text \<open>A directory that did not exist holds nothing and is nobody's parent.\<close>

lemma fresh_dir_empty:
  assumes "pfs_wf fs" "d \<notin> set (pfs_dirs fs)" "d \<noteq> []"
  shows "\<forall>p \<in> set (map fst (pfs_files fs)). parent_dir p \<noteq> d" "\<forall>q \<in> set (pfs_dirs fs). parent_dir q \<noteq> d"
  using assms by (fastforce simp: pfs_wf_def dir_exists_def)+

lemma mkdirs_fresh:
  assumes "pfs_mkdirs d fs = Some fs1"
  shows "d \<noteq> []" "pfs_files fs1 = pfs_files fs" "d \<in> set (pfs_dirs fs1)"
    "set (pfs_dirs fs1) = set (pfs_dirs fs) \<union> set (dir_prefixes d)"
  using assms dir_prefixes_shape [of d] by (auto simp: pfs_mkdirs_def split: if_splits)

text \<open>A file path \<open><d>/<n>\<close> in a directory just created is neither a directory nor a file.\<close>

lemma fresh_path:
  assumes "pfs_wf fs" "d \<notin> set (pfs_dirs fs)" "pfs_mkdirs d fs = Some fs1" "slash \<notin> set n"
  shows "d @ ''/'' @ n \<notin> set (pfs_dirs fs1)" "d @ ''/'' @ n \<notin> set (map fst (pfs_files fs1))"
proof -
  note m = mkdirs_fresh [OF assms(3)]
  have p: "parent_dir (d @ ''/'' @ n) = d" using path_in_dir [OF assms(4)] by simp
  have "d @ ''/'' @ n \<notin> set (pfs_dirs fs)"
    using fresh_dir_empty(2) [OF assms(1,2) m(1)] p by blast
  moreover have "d @ ''/'' @ n \<notin> set (dir_prefixes d)"
  proof
    assume "d @ ''/'' @ n \<in> set (dir_prefixes d)"
    then have "length (d @ ''/'' @ n) \<le> length d" using dir_prefixes_shape [of d] by blast
    then show False by simp
  qed
  ultimately show "d @ ''/'' @ n \<notin> set (pfs_dirs fs1)" using m(4) by blast
  show "d @ ''/'' @ n \<notin> set (map fst (pfs_files fs1))"
    using fresh_dir_empty(1) [OF assms(1,2) m(1)] p unfolding m(2) by blast
qed

lemma map_fst_in_dir: "map fst (map (\<lambda>(n, x). (d @ ''/'' @ n, x)) xs) = map (\<lambda>n. d @ ''/'' @ n) (map fst xs)"
  by (induction xs) auto

text \<open>An upload of files with distinct names without \<open>/\<close> into a new directory: the
  directory is created and the files are added after the old ones.\<close>

lemma upload_fresh_dir:
  assumes "pfs_wf fs" "d \<notin> set (pfs_dirs fs)" "pfs_mkdirs d fs = Some fs1"
    and "distinct (map fst xs)" "\<forall>(n, _) \<in> set xs. n \<noteq> [] \<and> slash \<notin> set n"
  shows "apply_effect (EcStored d (map (\<lambda>(n, x). (d @ ''/'' @ n, x)) xs)) fs
           = fs1\<lparr>pfs_files := pfs_files fs @ map (\<lambda>(n, x). (d @ ''/'' @ n, x)) xs\<rparr>"
proof -
  let ?ws = "map (\<lambda>(n, x). (d @ ''/'' @ n, x)) xs"
  note m = mkdirs_fresh [OF assms(3)]
  have "distinct (map fst ?ws)"
    using assms(4) unfolding map_fst_in_dir by (simp add: distinct_map inj_on_def)
  moreover have "\<forall>(p, _) \<in> set ?ws. parent_dir p = d \<and> file_name p \<noteq> []
                    \<and> p \<notin> set (pfs_dirs fs1) \<and> p \<notin> set (map fst (pfs_files fs1))"
  proof
    fix w assume "w \<in> set ?ws"
    then obtain n x where w: "w = (d @ ''/'' @ n, x)" and "(n, x) \<in> set xs" by auto
    then have n: "n \<noteq> []" "slash \<notin> set n" using assms(5) by auto
    show "case w of (p, _) \<Rightarrow> parent_dir p = d \<and> file_name p \<noteq> []
            \<and> p \<notin> set (pfs_dirs fs1) \<and> p \<notin> set (map fst (pfs_files fs1))"
      unfolding w prod.case using path_in_dir [OF n(2)] fresh_path [OF assms(1-3) n(2)] n(1) by simp
  qed
  ultimately show ?thesis
    using assms(3) m(2,3) foldl_write_append [of fs1 d ?ws] by (simp add: dir_exists_def)
qed

text \<open>After that upload the directory lists exactly the uploaded \<open>.jpg\<close> files.\<close>

lemma listing_after_upload:
  assumes "pfs_wf fs" "d \<notin> set (pfs_dirs fs)" "pfs_mkdirs d fs = Some fs1"
    and "distinct (map fst xs)" "\<forall>(n, _) \<in> set xs. slash \<notin> set n \<and> path_ext n = ''.jpg''"
  shows "pfs_listing d (apply_effect (EcStored d (map (\<lambda>(n, x). (d @ ''/'' @ n, x)) xs)) fs) = Some xs"
proof -
  let ?ws = "map (\<lambda>(n, x). (d @ ''/'' @ n, x)) xs"
  note m = mkdirs_fresh [OF assms(3)]
  have names: "\<forall>(n, _) \<in> set xs. n \<noteq> [] \<and> slash \<notin> set n" using assms(5) by (auto dest: jpg_name_nonempty)
  have old: "filter (\<lambda>(p, _). parent_dir p = d) (pfs_files fs) = []"
    using fresh_dir_empty(1) [OF assms(1,2) m(1)] by (force simp: filter_empty_conv)
  have new: "filter (\<lambda>(p, _). parent_dir p = d) ?ws = ?ws"
    using assms(5) by (induction xs) (auto simp: path_in_dir)
  have "parent_dir q \<noteq> d" if "q \<in> set (dir_prefixes d)" for q
  proof -
    have "q \<noteq> []" "length q \<le> length d" using that dir_prefixes_shape [of d] by blast+
    then show ?thesis using length_parent_dir [of q] by auto
  qed
  then have dirs: "filter (\<lambda>q. parent_dir q = d) (pfs_dirs fs1) = []"
    using fresh_dir_empty(2) [OF assms(1,2) m(1)] m(4) by (auto simp: filter_empty_conv)
  have "map (\<lambda>(p, data). (file_name p, data)) ?ws = xs"
    using assms(5) by (induction xs) (auto simp: path_in_dir)
  moreover have "filter (\<lambda>(n, _). path_ext n = ''.jpg'') xs = xs"
    using assms(5) by (auto simp: filter_id_conv)
  ultimately show ?thesis
    using upload_fresh_dir [OF assms(1-4) names] old new dirs m(3)
    by (simp add: pfs_listing_def)
qed

lemma ec_serve_pfs_wf: "pfs_wf fs \<Longrightarrow> pfs_wf (fst (snd (ec_serve h pad junk fs conns)))"
  by (induction h pad junk fs conns rule: ec_serve.induct)
     (auto simp: apply_effect_wf Let_def split: prod.split option.split)

text \<open>
  C31: a \<open>GET\<close> of a directory that does not exist ends the energy probe's server. The
  \<open>filesystem_error\<close> that \<open>directory_iterator\<close> throws is caught by neither
  \<open>handle_client\<close> nor \<open>main\<close>: the connection leaves the file system as it was, nothing
  is sent, and no later connection is served, whatever it carries.
\<close>

theorem get_missing_dir_ends_server:
  assumes "remote_dir \<notin> set (pfs_dirs fs)" "nul \<notin> set remote_dir" "length remote_dir \<le> 1020"
  shows "ec_probe_main True pad junk fs (\<lparr>pc_rx = (''GET '' @ remote_dir, [4 + length remote_dir]), pc_order = ord\<rparr> # conns)
           = ([EcIgnored], fs, Some PFilesystemError)"
  using ec_handle_get [OF assms(2,3), of "fs_view fs ord" pad junk] assms(1)
  by (simp add: ec_probe_main_def fs_view_def pfs_listing_def)

theorem get_missing_dir_ends_server_witness:
  "ec_probe_main True (\<lambda>_ _. CHR ''z'') (\<lambda>_. CHR ''q'') \<lparr>pfs_dirs = [''in''], pfs_files = []\<rparr>
     [\<lparr>pc_rx = (''GET '' @ ''out'', [4 + length ''out'']), pc_order = id\<rparr>,
      \<lparr>pc_rx = (''GET '' @ ''in'', [4 + length ''in'']), pc_order = id\<rparr>]
   = ([EcIgnored], \<lparr>pfs_dirs = [''in''], pfs_files = []\<rparr>, Some PFilesystemError)"
  by (rule get_missing_dir_ends_server) (simp_all add: nul_def)

text \<open>Both servers keep their file system well formed across any sequence of connections.\<close>

lemma ec_serve_wf:
  assumes "pfs_wf fs"
  shows "pfs_wf (fst (snd (ec_probe_main ok pad junk fs conns)))
           \<and> pfs_wf (fst (snd (ec1k_probe_main ok pad junk fs conns)))"
  using ec_serve_pfs_wf [OF assms] assms by (simp add: ec_probe_main_def ec1k_probe_main_def)

text \<open>
  C33: an upload followed by a download through the energy probe's server returns the
  files. The ED runs \<open>SEND <local_dir> <remote_dir>\<close>; its bytes reach the EC's first
  connection one \<open>send\<close> per \<open>recv\<close>, and \<open>remote_dir\<close> is a new directory that can be
  created. The ED then runs \<open>GET <remote_dir> <local_dir'>\<close> as the second connection.
  For distinct \<open>.jpg\<close> names without \<open>/\<close> and the bounds of C39, the EC stores the
  files, lists exactly them, and sends them back in its listing order; the ED stores each
  under \<open><local_dir'>/<name>\<close> with its bytes.
\<close>

theorem probe_upload_then_download:
  assumes "pfs_wf fs" "remote_dir \<notin> set (pfs_dirs fs)" "pfs_mkdirs remote_dir fs \<noteq> None"
    and "fs_jpgs edfs local_dir = Some images"
    and "nul \<notin> set remote_dir" "length remote_dir \<le> 1019"
    and "length images < 2 ^ 31" "\<forall>(n, d) \<in> set images. length n < 10 ^ 8 \<and> length d < 2 ^ 31"
    and "distinct (map fst images)" "\<forall>(n, _) \<in> set images. slash \<notin> set n \<and> path_ext n = ''.jpg''"
    and "mset (ord images) = mset images"
  shows "\<exists>up. ed_probe_main [prog, ''SEND'', local_dir, remote_dir, ip] True edfs pad junk r0 = EdSent (Inr up)
     \<and> (\<exists>fs'. ec_probe_main True pad' junk' fs
                [\<lparr>pc_rx = (up, (5 + length remote_dir) # frame_deliveries images), pc_order = ord0\<rparr>,
                 \<lparr>pc_rx = (''GET '' @ remote_dir, [4 + length remote_dir]), pc_order = ord\<rparr>]
              = ([EcStored remote_dir (map (\<lambda>(n, d). (remote_dir @ ''/'' @ n, d)) images),
                  EcServed (file_frames (ord images) pad')], fs', None)
            \<and> pfs_listing remote_dir fs' = Some images)
     \<and> ed_probe_main [prog, ''GET'', remote_dir, local_dir', ip] True edfs pad junk
          (file_frames (ord images) pad', frame_deliveries (ord images))
        = EdReceived (''GET '' @ remote_dir) (map (\<lambda>(n, d). (local_dir' @ ''/'' @ n, d)) (ord images), None)"
proof -
  let ?st = "map (\<lambda>(n, d). (remote_dir @ ''/'' @ n, d)) images"
  obtain fs1 where fs1: "pfs_mkdirs remote_dir fs = Some fs1" using assms(3) by auto
  obtain fs2 where fs2: "apply_effect (EcStored remote_dir ?st) fs = fs2" by simp
  have lst: "pfs_listing remote_dir fs2 = Some images"
    using listing_after_upload [OF assms(1,2) fs1 assms(9,10)] fs2 by simp
  have c1: "ec_handle_client (fs_view fs ord0) pad' junk'
              ((''SEND '' @ remote_dir) @ file_frames images pad, (5 + length remote_dir) # frame_deliveries images)
            = (EcStored remote_dir ?st, None)"
    using assms(3,5-8) by (intro ec_handle_upload) (simp_all add: fs_view_def)
  have c2: "ec_handle_client (fs_view fs2 ord) pad' junk' (''GET '' @ remote_dir, [4 + length remote_dir])
            = (EcServed (file_frames (ord images) pad'), None)"
    using ec_handle_get [of remote_dir "fs_view fs2 ord" pad' junk'] assms(5,6) lst by (simp add: fs_view_def)
  have "length (ord images) < 2 ^ 31" using assms(7,11) by (metis size_mset)
  moreover have "\<forall>(n, d) \<in> set (ord images). length n < 10 ^ 8 \<and> length d < 2 ^ 31"
    using assms(8,11) by (metis set_mset_mset)
  ultimately have recv: "ed_receive_images remote_dir local_dir' junk (file_frames (ord images) pad', frame_deliveries (ord images))
      = (''GET '' @ remote_dir, (map (\<lambda>(n, d). (local_dir' @ ''/'' @ n, d)) (ord images), None))"
    by (rule ed_receive_frames)
  have serve: "ec_probe_main True pad' junk' fs
                [\<lparr>pc_rx = ((''SEND '' @ remote_dir) @ file_frames images pad, (5 + length remote_dir) # frame_deliveries images), pc_order = ord0\<rparr>,
                 \<lparr>pc_rx = (''GET '' @ remote_dir, [4 + length remote_dir]), pc_order = ord\<rparr>]
              = ([EcStored remote_dir ?st, EcServed (file_frames (ord images) pad')], fs2, None)"
    unfolding ec_probe_main_def if_True ec_serve.simps probe_conn.select_convs c1 prod.case Let_def fs2 c2
    by simp
  show ?thesis
    using assms(4) serve lst recv by (simp add: ed_probe_main_def ed_send_images_def)
qed

theorem probe_upload_then_download_witness:
  "\<exists>up. ed_probe_main [''ed'', ''SEND'', ''in'', ''out'', ''ip''] True
          \<lparr>fs_mkdir_ok = (\<lambda>_. True), fs_jpgs = (\<lambda>_. Some [(''a.jpg'', ''xyz'')])\<rparr> (\<lambda>_ _. CHR ''z'') (\<lambda>_. CHR ''q'') ([], [])
        = EdSent (Inr up)
     \<and> (\<exists>fs'. ec_probe_main True (\<lambda>_ _. CHR ''z'') (\<lambda>_. CHR ''q'') \<lparr>pfs_dirs = [], pfs_files = []\<rparr>
                [\<lparr>pc_rx = (up, (5 + length ''out'') # frame_deliveries [(''a.jpg'', ''xyz'')]), pc_order = id\<rparr>,
                 \<lparr>pc_rx = (''GET '' @ ''out'', [4 + length ''out'']), pc_order = rev\<rparr>]
              = ([EcStored ''out'' (map (\<lambda>(n, d). (''out'' @ ''/'' @ n, d)) [(''a.jpg'', ''xyz'')]),
                  EcServed (file_frames (rev [(''a.jpg'', ''xyz'')]) (\<lambda>_ _. CHR ''z''))], fs', None)
            \<and> pfs_listing ''out'' fs' = Some [(''a.jpg'', ''xyz'')])
     \<and> ed_probe_main [''ed'', ''GET'', ''out'', ''back'', ''ip''] True
          \<lparr>fs_mkdir_ok = (\<lambda>_. True), fs_jpgs = (\<lambda>_. Some [(''a.jpg'', ''xyz'')])\<rparr> (\<lambda>_ _. CHR ''z'') (\<lambda>_. CHR ''q'')
          (file_frames (rev [(''a.jpg'', ''xyz'')]) (\<lambda>_ _. CHR ''z''), frame_deliveries (rev [(''a.jpg'', ''xyz'')]))
        = EdReceived (''GET '' @ ''out'') (map (\<lambda>(n, d). (''back'' @ ''/'' @ n, d)) (rev [(''a.jpg'', ''xyz'')]), None)"
  by (rule probe_upload_then_download)
     (simp_all add: pfs_wf_def pfs_mkdirs_def dir_prefixes_Cons parent_dir_def slash_def nul_def path_ext_def)

end
