(* ===== verification/Poisson.thy ===== *)
theory Poisson
  imports Stats
begin

text \<open>
  The ED variant \<open>src/Experiment_May15/ed_oms_parallel_rn50_fallback_sequencial_poission_pi3.cpp\<close>.
  Its globals, consumer loop, completion listener and final report are those of
  \<open>ed_oms_parallel_rn50_fallback_sequencial.cpp\<close> (\<open>LocalExec\<close>, \<open>Stats\<close>); its
  \<open>run_request\<close> is the same but for the image path it queues for the helper; its
  generator pushes tokens with exponentially distributed gaps for \<open>duration_sec\<close>
  seconds, so how many it pushes is an input (\<open>n_generated\<close>) here.
\<close>

definition pp_image :: string where
  "pp_image = ''000000006321.jpg''"

definition pp_enqueue_local_run :: "token \<Rightarrow> msec \<Rightarrow> ed_state \<Rightarrow> ed_state" where
  "pp_enqueue_local_run token_ed start_ms s =
     s\<lparr>local_queue := local_queue s @ [show_int token_ed @ '':'' @ pp_image],
       local_task_start_ms := AList.update token_ed start_ms (local_task_start_ms s)\<rparr>"

definition pp_run_request :: "token \<Rightarrow> net_env \<Rightarrow> ed_state \<Rightarrow> ed_state \<times> frame list" where
  "pp_run_request token_ed env s =
     (if \<not> sock_ok env then (pp_enqueue_local_run token_ed (t_wall env) s, [])
      else if \<not> connect_ok env then (pp_enqueue_local_run token_ed (t_wall env) s, [])
      else
        (let req = req_msg token_ed ''resnet_50'' ''PI5'' in
         (case response env of
            None \<Rightarrow> (pp_enqueue_local_run token_ed (t_wall env) s, [Text req])
          | Some resp \<Rightarrow>
              (if starts_with ''GRANT:'' resp then
                 (let token_ec = drop 6 resp;
                      ok = ok_msg token_ec token_ed
                  in (case image env of
                        None \<Rightarrow> (s, [Text req, Text ok])
                      | Some bytes \<Rightarrow>
                          (let sent = [Text req, Text ok] @ map Data (send_chunks bytes) @ [ShutWr] in
                           (case done_reply env of
                              None \<Rightarrow> (s, sent)
                            | Some _ \<Rightarrow> (record_remote (t_end env - t_start env) s, sent)))))
               else if resp = drop_msg then
                 (record_fallback (pp_enqueue_local_run token_ed (t_wall env) s), [Text req])
               else (s, [Text req])))))"

fun pp_run_all :: "(token \<times> net_env) list \<Rightarrow> ed_state \<Rightarrow> ed_state" where
  "pp_run_all [] s = s"
| "pp_run_all ((t, env) # ts) s = pp_run_all ts (fst (pp_run_request t env s))"

text \<open>
  \<open>main\<close>: \<open>std::stod\<close> of the rate and \<open>std::stoi\<close> of the duration may throw; the
  generated tokens \<open>0 .. n_generated - 1\<close> are run by the 32 workers in the order
  \<open>sched\<close>; then the consumer is stopped and drained, the listener's lines folded in,
  and the report of \<open>final_stats\<close> printed.
\<close>

definition pp_main ::
  "string list \<Rightarrow> nat \<Rightarrow> (token \<Rightarrow> net_env) \<Rightarrow> (token list \<Rightarrow> token list) \<Rightarrow> string list option \<Rightarrow> main_exit" where
  "pp_main argv n_generated envs sched fifo =
     (if length argv < 3 then Usage
      else (case cpp_stod (argv ! 1) of
        Inl e \<Rightarrow> Aborted e
      | Inr lambda_rate \<Rightarrow> (case cpp_stoi (argv ! 2) of
          Inl e \<Rightarrow> Aborted e
        | Inr duration_sec \<Rightarrow>
            (case stop_and_drain (pp_run_all (map (\<lambda>t. (t, envs t)) (sched (map int [0..<n_generated]))) ed_init) of
               None \<Rightarrow> Hangs
             | Some s \<Rightarrow> (case start_done_listener fifo s of
                           Inl e \<Rightarrow> Aborted e
                         | Inr s' \<Rightarrow> Finished (final_stats s'))))))"

subsection \<open>Lemmas\<close>

text \<open>
  The queued lines are the only difference from \<open>run_request\<close>: with the queue and
  the helper's stdin erased, runs of the two from such equal states end in equal states,
  and in particular with the same counters and time maps, which is all the report reads.
\<close>

definition erase_queue :: "ed_state \<Rightarrow> ed_state" where
  "erase_queue s = s\<lparr>local_queue := [], py_stdin := []\<rparr>"

lemma pp_run_request_erase:
  "erase_queue s = erase_queue s' \<Longrightarrow>
   erase_queue (fst (pp_run_request t env s)) = erase_queue (fst (run_request t env s'))
   \<and> snd (pp_run_request t env s) = snd (run_request t env s')"
  by (cases s, cases s')
     (simp add: erase_queue_def pp_run_request_def run_request_def pp_enqueue_local_run_def enqueue_local_run_def
        record_remote_def record_fallback_def Let_def split: option.split)

lemma pp_run_all_erase:
  "erase_queue s = erase_queue s' \<Longrightarrow> erase_queue (pp_run_all ts s) = erase_queue (run_all ts s')"
  by (induction ts arbitrary: s s') (auto simp: pp_run_request_erase)

lemma final_stats_erase: "final_stats (erase_queue s) = final_stats s"
  by (simp add: final_stats_def erase_queue_def Let_def)

end
