(* ===== verification/Spec2Isabelle.thy ===== *)
theory Spec2Isabelle
  imports Broker Yolo Pressure Basic Retina ImageTransfer PowerLog Bwaj Sim ProbeServer Poisson
begin

text \<open>
  \<^bold>\<open>Edge-cloud offloading: a verification development of the admission and dispatch core.\<close>

  The repository runs inference tasks either on an edge compute node (EC) or on the edge
  device (ED) itself. The EC runs an offload broker
  (\<open>src/Experiment_May15/EC_OMS_May15_YOLOv5s6.cpp\<close>): one detached thread per
  connection runs \<open>handle_request\<close>, which reads a position from the shared counter
  \<open>queue_size\<close>, grants the task when the estimated wait \<open>(int)(p * 68.71)\<close> is at
  most 550 ms and drops it otherwise. The ED programs (\<open>src/ed_oms_*.cpp\<close> and the
  variants under \<open>src/Experiment_May15/\<close>) generate tasks, send each to the broker from
  a worker pool (\<open>run_request\<close>), fall back to a local Python inference process fed
  through a queue (\<open>enqueue_local_run\<close>, \<open>local_run_dispatch\<close>) and reconcile the
  completion times reported back through a FIFO (\<open>start_done_listener\<close>) into the
  final statistics. The ED side is modelled after
  \<open>src/Experiment_May15/ed_oms_parallel_rn50_fallback_sequencial.cpp\<close>.

  \<^bold>\<open>Library.\<close>
  \<^item> \<open>Prelude\<close>: the C++ library behaviour the sources rely on (prefix tests by
    \<open>rfind(p, 0) == 0\<close>, \<open>find\<close> over \<open>size_t\<close> with \<open>npos\<close>, \<open>substr\<close> and its
    \<open>out_of_range\<close>, \<open>std::to_string\<close>, \<open>std::stoi\<close>/\<open>std::stol\<close> with their two
    exceptions, truncating division), and shared lemmas on lists, separators and
    permutations.
  \<^item> \<open>Wire\<close>: the text frames \<open>REQ\<close>, \<open>GRANT\<close>, \<open>DROP\<close>, \<open>OK\<close>, \<open>DONE\<close>
    as the sources build them, how each side turns the bytes of one \<open>recv\<close> into a
    string, and the broker's extraction of \<open>token_ed\<close>.
  \<^item> \<open>Broker\<close>: \<open>handle_request\<close> and the accept loop as an interleaving semantics. The
    state \<open>ec_state\<close> holds the three globals of the file, one phase per accepted
    connection (\<open>conns\<close>), the log of replies sent, and the ghost list \<open>slots\<close>
    (connections whose increment of \<open>queue_size\<close> is not yet matched by a decrement, in
    increment order). \<open>ec_step\<close> performs one event: \<open>Accept\<close>, \<open>RecvRequest\<close>
    (receive, prefix test and locked read-and-increment), \<open>Decide\<close> (the admission rule
    and the GRANT or DROP reply), \<open>RecvAck\<close>, \<open>FinishTask\<close> (inference, DONE, locked
    release) and \<open>FinishDrop\<close> (locked release after DROP). A list of events is one
    interleaving of the threads; \<open>ec_reachable\<close> is the set of states some interleaving
    reaches.
  \<^item> \<open>LocalExec\<close>: the ED's shared state \<open>ed_state\<close> (the counters under
    \<open>stats_mutex\<close>, \<open>local_queue\<close> and \<open>stop_local\<close>, the start and end time maps, and
    what the consumer wrote to the helper's stdin), \<open>enqueue_local_run\<close>, the consumer
    \<open>local_run_dispatch\<close> as a \<open>partial_function (option)\<close> (\<open>None\<close>: it waits forever),
    and the completion listener line by line (\<open>done_listener_line\<close>), with every
    exception of \<open>stoi\<close>, \<open>stol\<close> and \<open>substr\<close> an \<open>Inl\<close>.
  \<^item> \<open>Client\<close>: \<open>run_request\<close> with its environment (\<open>net_env\<close>: the results of
    \<open>socket\<close>, \<open>connect\<close>, the two \<open>recv\<close>s, the image file and the clocks), returning
    the new state and the frames written; \<open>run_all\<close> runs tasks in the order their calls
    took effect.
  \<^item> \<open>Stats\<close>: the latency reconciliation loop, the final report, and \<open>ed_main\<close>, the
    whole of \<open>main\<close> from argument parsing to the report.
  \<^item> \<open>Yolo\<close>: the variant \<open>src/ed_oms_parallel_yolov5s_bwaj.cpp\<close>, whose
    \<open>run_request\<close> (\<open>yl_run_request\<close>) falls back on every reply but \<open>GRANT:\<close> and
    ignores the \<open>DONE\<close> read, and whose \<open>main\<close> (\<open>yl_main\<close>) runs a duration-driven
    generator; the rest of the file repeats the \<open>LocalExec\<close> and \<open>Stats\<close> code.
  \<^item> \<open>Pressure\<close>: the variant \<open>ed_oms_parallel_rn50_fallabck_pressure.cpp\<close>, one thread
    per task, as an interleaving semantics (\<open>pr_step\<close>, \<open>pr_reachable\<close>) in which the
    unlocked \<open>sent_to_ec++\<close> is a separate load and store.
  \<^item> \<open>Basic\<close>: the sequential variant \<open>ed_oms_parallel_basic_working.cpp\<close>
    (\<open>bs_run_request\<close>, \<open>bs_main\<close>) with its synchronous local runs.
  \<^item> \<open>Retina\<close>: the variant \<open>ed_oms_parallel_working_withdpu_retina.cpp\<close>, one thread
    per task behind the counting semaphore \<open>thread_limit\<close> (100) and the 20 local
    slots of \<open>local_running\<close>, as an interleaving semantics (\<open>rt_step\<close>,
    \<open>rt_reachable\<close>, \<open>rt_main\<close>) whose phases record what each thread holds.
  \<^item> \<open>Consumer\<close>: the local consumer loop \<open>local_run_dispatch\<close> that the later ED
    variants copy, as one \<open>partial_function (option)\<close> over the queue, the stop flag and
    the helper's stdin (\<open>queue_consumer\<close>).
  \<^item> \<open>Bwaj\<close>: \<open>src/ed_oms_parallel_rn50_bwaj.cpp\<close>, with its own state \<open>bw_state\<close>
    (birth and death time maps, inference times), \<open>bw_run_request\<close>, the listener
    \<open>bw_done_listener_line\<close>, the generator's stamps \<open>bw_generate\<close>, the report with the
    end-to-end average (\<open>e2e_totals\<close>), \<open>bw_main\<close>, and the fallback's image choice
    \<open>get_random_image_from_coco\<close> (a regular file of the directory or \<open>IMAGE\<close>
    whenever the distribution keeps to its range, with the \<open>size_t\<close> bound converted to
    \<open>int\<close>).
  \<^item> \<open>Sim\<close>: \<open>ed_oms_parallel_rn50_simulation_working.cpp\<close> (\<open>sim_run_request\<close>,
    \<open>sim_main\<close>), without listener or time maps.
  \<^item> \<open>Poisson\<close>: \<open>ed_oms_parallel_rn50_fallback_sequencial_poission_pi3.cpp\<close>, whose
    \<open>pp_run_request\<close> differs from \<open>run_request\<close> only in the queued image path
    (\<open>pp_run_all_erase\<close>); its listener, consumer and report reuse \<open>LocalExec\<close> and
    \<open>Stats\<close>.
  \<^item> \<open>PowerLog\<close>: \<open>read_power.cpp\<close>: \<open>std::getline\<close> (\<open>getline_split\<close>),
    \<open>std::atoi\<close>, the two loops of \<open>compute_column_average\<close> (\<open>scan_lines\<close>,
    \<open>scan_cells\<close>) against the reference \<open>column_values\<close>, and \<open>read_power_main\<close>.
  \<^item> \<open>Probe\<close>: the energy and latency probes \<open>image_energy_latency_*.cpp\<close>: the
    fixed-width framing (\<open>field\<close>, \<open>file_frames\<close>), a TCP receive \<open>sock_recv\<close> with
    explicit deliveries, the EC's \<open>ec_handle_client\<close> and \<open>ec1k_handle_client\<close>, and
    the ED's \<open>ed_send_images\<close>, \<open>ed_receive_images\<close> and get1kB client.
  \<^item> \<open>ProbeServer\<close>: the EC's \<open>main\<close> in the same files: the accept loop
    \<open>ec_serve\<close> over a list of connections, with the file system the uploads change
    (\<open>pfs\<close>: directories and files; \<open>pfs_mkdirs\<close> for \<open>create_directories\<close>,
    \<open>pfs_write\<close> for \<open>std::ofstream\<close>, \<open>pfs_listing\<close> for \<open>directory_iterator\<close>),
    \<open>apply_effect\<close> for what a handled connection leaves on disk, and the invariant
    \<open>pfs_wf\<close> with its preservation by every operation.
  \<^item> \<open>ImageTransfer\<close>: the length-prefixed transfer of \<open>src/coco_test_to_ec.cpp\<close> and
    \<open>src/coco_test_from_ed.cpp\<close>, with \<open>htonl\<close>/\<open>ntohl\<close> on \<open>32 word\<close>, the sender's
    loop (\<open>to_ec_main\<close>) and the receiver's header read, body loop
    (\<open>recv_image\<close>, a \<open>function\<close> with a measure) and accept loop.
  \<^item> This theory: \<open>ack_of_frames\<close>, what the broker's acknowledgment \<open>recv\<close> reads
    from the frames a device wrote, and the properties that span components.

  \<^bold>\<open>Concurrency.\<close> On the broker, each thread's steps are separate events because its
  critical section (the read-and-increment) and its reply are separated by unsynchronised
  work; every interleaving is covered by \<open>ec_reachable\<close>. On the device, each critical
  section of \<open>run_request\<close> either increments counters, appends to the queue, or writes
  the task's own key of a time map; these commute up to the order of the queue, so the
  workers' interleavings are covered by running whole calls in some order (the parameter
  \<open>sched\<close> of \<open>ed_main\<close>). The consumer only moves lines from the queue to the helper,
  and the listener only writes end times, so they are run after the workers.

  \<^bold>\<open>What is proved.\<close>
  \<^item> Broker: the invariant \<open>ec_inv\<close> holds in every reachable state; the counter is
    never negative and never undercounts the holders (C2); at most nine connections are
    admitted under every interleaving (C3); the rule grants exactly positions 0 to 8
    (C1); a bad acknowledgment leaks a position, and nine leaks stop all admission (C4).
  \<^item> Client: a \<open>DROP\<close> gives exactly one enqueue and one local count and no \<open>OK\<close> (C5);
    the counters stay balanced, completed = offloaded + local (C10); unrecognised
    replies, unreadable images and lost \<open>DONE\<close>s make a task vanish (C11); transport
    failures fall back without being counted (C12); the GRANT path sends request, \<open>OK\<close>
    echoing the broker's token, the whole image in 4096-byte blocks, and the shutdown (C13).
  \<^item> Local executor and listener: the consumer drains the whole queue in order once
    stopped (C7); a well-formed completion line records its end time (C8, a round trip
    through \<open>std::to_string\<close> and \<open>std::stoi\<close>/\<open>std::stol\<close>); a malformed one throws
    out of the listener (C9).
  \<^item> Statistics: the loop over the end-time map computes the sum over tokens with both
    halves (C14); the report does not depend on the workers' schedule (C6); its two
    percentages add up to 100 (C15).
  \<^item> Wire and composition: the broker reads back the device's token from the request
    (C16); the \<open>Client\<close> variant's acknowledgment is accepted (C20), while a granted
    task of the pressure variant leaks a broker position (C19).
  \<^item> Pressure variant: completed = ran and the offload counter never over-counts under
    any interleaving (C17), and from any state with two granted threads the
    interleaving that reads the counter twice before writing it back adds one where
    the serial one adds two (C18).
  \<^item> Image transfer: the receiver reconstructs the file, truncated to its length modulo
    \<open>2\<^sup>3\<^sup>2\<close> (C21); a short header read drops the image (C22); the sender's count
    includes files it could not open (C23).
  \<^item> Basic variant: the payload loses its last partial block (C24); connection
    failures are counted as completed but neither local nor offloaded (C25).
  \<^item> yolov5s variant: the effect of \<open>run_request\<close> on every counter and on the local
    queue, branch by branch: every non-GRANT reply falls back, is queued and counted as
    run on the ED; granted tasks count as offloaded even without \<open>DONE\<close> (C26).
  \<^item> Retina variant: under every interleaving at most 100 threads hold the semaphore,
    at most 20 run locally, and completed = offloaded + local (C27); once all threads
    are done both resources are back (C28); no interleaving deadlocks (C29); a failed
    \<open>recv\<close> of \<open>DONE\<close> throws \<open>std::length_error\<close> and terminates the program (C30);
    two dropped tasks run locally at the same time (\<open>rt_local_runs_overlap\<close>).
  \<^item> Power log: the loops compute the mean of the column's valid values (C32, an
    equivalence with \<open>column_values\<close>); \<open>std::getline\<close> reads lines back; a
    negative mean is not printed, like an error (C34); the column index is a wrapped
    32-bit value (\<open>cpp_atoi_bounds\<close>).
  \<^item> rn50_bwaj: the birth stamp is overwritten by the worker's (C36); any non-empty
    \<open>DONE\<close> answer counts as offloaded (C37); the fallback's image is \<open>IMAGE\<close> or one of the
    directory's regular files, every one of which the draw's range reaches (C35).
  \<^item> Simulation variant: a dropped task counts as completed locally with the latency of
    the \<open>DROP\<close> reply (C38).
  \<^item> Energy probes: the upload round-trips when each \<open>recv\<close> gets one \<open>send\<close> (C39);
    when the first \<open>recv\<close> gets more, the directory name absorbs the count and the
    framing is lost (C40). A \<open>GET\<close> of a missing directory ends the server, which serves
    no later connection (C31); the servers keep their file system well formed across any
    sequence of connections (\<open>ec_serve_wf\<close>); an upload into a new directory followed by a download
    returns the files to the ED in the server's listing order (C33).

  \<^bold>\<open>Modelling choices.\<close> The constant \<open>68.71\<close> is taken as the decimal 6871/100;
  the double product differs from it by less than \<open>10\<^sup>-\<^sup>1\<^sup>2\<close> relative, which can move
  the truncated wait by one only when \<open>p * 68.71\<close> is an integer (p a multiple of
  100) and never changes the decision, whose boundary lies between positions 8
  (549.68) and 9 (618.39). Each \<open>recv\<close> of a text frame is taken to deliver one whole
  frame, as the sources assume; the image transfer receiver, whose code handles partial
  reads, gets explicit \<open>recv\<close> sizes. \<open>std::stod\<close> is modelled on plain decimals only
  (no exponent, hexadecimal, \<open>inf\<close> or \<open>nan\<close> forms); the sources use it for arrival
  rates, whose value only sets delays that are not modelled. The ED's \<open>int\<close> and \<open>long\<close> counters are unbounded integers (a run
  would need more than \<open>2\<^sup>3\<^sup>1\<close> tasks to overflow them); the percentages are exact
  rationals. Positions in strings are \<open>size_t\<close> (\<open>64 word\<close>), where \<open>npos + 1\<close> wraps.
  Logging to stdout and files, the Python helper and the inference engines are not
  modelled: the helper is represented by the lines written to its stdin and the lines
  it writes to the FIFO.

  \<^bold>\<open>Fuel and termination.\<close> No fuel is used. The consumer loops are
  \<open>partial_function (option)\<close>s whose \<open>None\<close> is waiting forever; once \<open>stop_local\<close> is
  set they are proved to return (C7). The receiver's body loop is a \<open>function\<close>
  terminating by the measure of the bytes still expected. Interleavings are finite event
  lists, so every run of \<open>ec_run\<close>, \<open>pr_run\<close> and \<open>rt_run\<close> is structural recursion;
  the probes' body loop \<open>recv_loop\<close>, \<open>fill_payload\<close> and the parent walk \<open>dir_prefixes\<close> of
  \<open>create_directories\<close> are \<open>function\<close>s with measures; the EC's accept loop
  \<open>ec_serve\<close> recurses on the list of connections; and \<open>getline_split\<close> terminates by the length of the text;
  the waits of the semaphore and of the local slots are events enabled only when they
  succeed. C29 shows that some event is enabled while a thread is unfinished and none
  has crashed (no deadlock); fairness between the waiting threads is not claimed.

  In the probes, the bytes after a field's terminator (\<open>pad\<close>) and the bytes of a
  receive buffer that a \<open>recv\<close> did not write (\<open>junk\<close>) are unspecified and left as
  parameters; the theorems hold for all of them. In \<open>read_power.cpp\<close> doubles are exact
  rationals.

  \<^bold>\<open>Not modelled.\<close> Path normalisation of the probes' file system (\<open>.\<close>,
  \<open>..\<close> and repeated slashes are compared as written), file permissions and disk
  errors of \<open>std::ofstream\<close>, and all timing printouts; the Python helpers and the inference
  engines, which are outside the repository's C++ sources. Clocks, random delays and
  random image choices are inputs of the models.
\<close>

subsection \<open>The connection between a device and the broker\<close>

text \<open>
  What the broker's second \<open>recv\<close> on a connection reads, given the frames the device
  wrote on it: the device's second frame, or no bytes when it wrote none and closed the
  socket (\<open>recv\<close> returns 0 and \<open>ack_buf\<close> stays zeroed).
\<close>

definition ack_of_frames :: "frame list \<Rightarrow> string" where
  "ack_of_frames fs = (case fs of _ # Text ok # _ \<Rightarrow> ok | _ \<Rightarrow> [])"

subsection \<open>Properties of the whole program\<close>

lemma stop_and_drain_result:
  "stop_and_drain s = Some (s\<lparr>stop_local := True, local_queue := [], py_stdin := py_stdin s @ local_queue s\<rparr>)"
  unfolding stop_and_drain_def by (subst local_run_dispatch_stop) simp_all

lemma ed_finish_cong:
  assumes perm: "mset o1 = mset o2"
  shows "(case stop_and_drain (run_all (map (\<lambda>t. (t, envs t)) o1) ed_init) of None \<Rightarrow> Hangs
            | Some s \<Rightarrow> (case start_done_listener fifo s of Inl e \<Rightarrow> Aborted e | Inr s' \<Rightarrow> Finished (final_stats s'))) =
         (case stop_and_drain (run_all (map (\<lambda>t. (t, envs t)) o2) ed_init) of None \<Rightarrow> Hangs
            | Some s \<Rightarrow> (case start_done_listener fifo s of Inl e \<Rightarrow> Aborted e | Inr s' \<Rightarrow> Finished (final_stats s')))"
proof -
  let ?f = "\<lambda>t. (t, envs t)"
  define s1 where "s1 = run_all (map ?f o1) ed_init"
  define s2 where "s2 = run_all (map ?f o2) ed_init"
  have pm: "mset (map ?f o1) = mset (map ?f o2)" using perm by simp
  have st: "set o1 = set o2" using perm by (metis set_mset_mset)
  have c: "completed_tasks s1 = completed_tasks s2"
    unfolding s1_def s2_def run_all_completed using count_outcome_mset [OF pm] by simp
  have se: "sent_to_ec s1 = sent_to_ec s2"
    unfolding s1_def s2_def run_all_sent using count_outcome_mset [OF pm] by simp
  have r: "ran_on_ed s1 = ran_on_ed s2"
    unfolding s1_def s2_def run_all_ran using count_outcome_mset [OF pm] by simp
  have l: "total_latency_ms s1 = total_latency_ms s2"
    unfolding s1_def s2_def run_all_latency using sum_list_filter_mset [OF pm] by simp
  have m: "map_of (local_task_start_ms s1) = map_of (local_task_start_ms s2)"
    unfolding s1_def s2_def by (rule ext) (simp only: run_all_start_ms st)
  have e: "local_task_end_ms s1 = local_task_end_ms s2"
    unfolding s1_def s2_def by (simp add: run_all_end_ms)
  let ?d = "\<lambda>s. s\<lparr>stop_local := True, local_queue := [], py_stdin := py_stdin s @ local_queue s\<rparr>"
  let ?fin = "\<lambda>s. case start_done_listener fifo (?d s) of Inl e \<Rightarrow> Aborted e | Inr s' \<Rightarrow> Finished (final_stats s')"
  have fin: "?fin s1 = ?fin s2"
  proof (cases "case fifo of None \<Rightarrow> Inr (local_task_end_ms s1) | Some lines \<Rightarrow> done_listener lines (local_task_end_ms s1)")
    case (Inl x)
    then show ?thesis using e by (simp add: start_done_listener_eq sum_bind_def split: option.splits)
  next
    case (Inr x)
    then have "start_done_listener fifo (?d s1) = Inr ((?d s1)\<lparr>local_task_end_ms := x\<rparr>)"
              "start_done_listener fifo (?d s2) = Inr ((?d s2)\<lparr>local_task_end_ms := x\<rparr>)"
      using e by (simp_all add: start_done_listener_eq sum_bind_def split: option.splits)
    moreover have "final_stats ((?d s1)\<lparr>local_task_end_ms := x\<rparr>) = final_stats ((?d s2)\<lparr>local_task_end_ms := x\<rparr>)"
      by (rule final_stats_cong) (simp_all add: c se r l m)
    ultimately show ?thesis by simp
  qed
  then show ?thesis
    unfolding s1_def [symmetric] s2_def [symmetric] stop_and_drain_result by simp
qed

text \<open>
  C6: the report does not depend on the schedule. Whatever order the worker pool's calls
  of \<open>run_request\<close> take effect in, provided every generated task is run once, the
  program ends exactly as if the tasks had been run one after another in generation order:
  the same exit and, when it finishes, the same counts, percentages and average latency.
\<close>

theorem ed_main_schedule_independent:
  assumes perm: "\<And>ts. mset (sched ts) = mset ts"
  shows "ed_main argv envs sched fifo = ed_main argv envs (\<lambda>ts. ts) fifo"
  unfolding ed_main_def using ed_finish_cong [OF perm] by (simp split: sum.split)

theorem ed_main_schedule_independent_witness:
  "ed_main [''ed_oms'', ''10'', ''3''] (\<lambda>t. drop_env) rev None = ed_main [''ed_oms'', ''10'', ''3''] (\<lambda>t. drop_env) (\<lambda>ts. ts) None"
  by (rule ed_main_schedule_independent) simp

lemma ed_main_Finished:
  assumes "ed_main argv envs sched fifo = Finished r"
  shows "\<exists>s'. r = final_stats s' \<and> completed_tasks s' = sent_to_ec s' + ran_on_ed s'"
proof -
  obtain ts s' where run: "start_done_listener fifo
      ((run_all ts ed_init)\<lparr>stop_local := True, local_queue := [],
        py_stdin := py_stdin (run_all ts ed_init) @ local_queue (run_all ts ed_init)\<rparr>) = Inr s'"
    and r: "r = final_stats s'"
    using assms by (auto simp: ed_main_def stop_and_drain_result split: if_splits sum.splits option.splits)
  have "completed_tasks (run_all ts ed_init) = sent_to_ec (run_all ts ed_init) + ran_on_ed (run_all ts ed_init)"
    by (simp add: run_all_completed run_all_sent run_all_ran ed_init_def)
  moreover have "completed_tasks s' = completed_tasks (run_all ts ed_init)" "sent_to_ec s' = sent_to_ec (run_all ts ed_init)"
    "ran_on_ed s' = ran_on_ed (run_all ts ed_init)"
    using run by (auto simp: start_done_listener_eq sum_bind_def split: option.splits sum.splits)
  ultimately show ?thesis using r by auto
qed

text \<open>
  C15: the two percentages of the report add up to 100. Whenever the program finishes
  with at least one completed task, the shares run locally and offloaded sum to exactly
  100 (as rationals; the source prints doubles).
\<close>

theorem ed_main_percentages:
  assumes "ed_main argv envs sched fifo = Finished r" "rep_completed r \<noteq> 0"
  shows "rep_pct_ed r + rep_pct_ec r = 100"
proof -
  obtain s' where r: "r = final_stats s'" and bal: "completed_tasks s' = sent_to_ec s' + ran_on_ed s'"
    using ed_main_Finished [OF assms(1)] by blast
  have nz: "completed_tasks s' \<noteq> 0" using assms(2) r by (simp add: final_stats_def Let_def)
  have "rep_pct_ed r + rep_pct_ec r = 100 * (of_int (ran_on_ed s') + of_int (sent_to_ec s')) / of_int (completed_tasks s')"
    using nz r by (simp add: final_stats_def Let_def add_divide_distrib distrib_left)
  also have "\<dots> = 100"
  proof -
    have "of_int (ran_on_ed s') + of_int (sent_to_ec s') = (of_int (completed_tasks s') :: rat)"
      using bal by simp
    with nz show ?thesis by simp
  qed
  finally show ?thesis .
qed

theorem ed_main_percentages_witness:
  "\<exists>r. ed_main [''ed_oms'', ''10'', ''2''] (\<lambda>t. drop_env) (\<lambda>ts. ts) None = Finished r
     \<and> rep_completed r \<noteq> 0 \<and> rep_pct_ed r + rep_pct_ec r = 100"
proof -
  let ?s = "run_all (map (\<lambda>t. (t, drop_env)) [0, 1]) ed_init"
  have run: "ed_main [''ed_oms'', ''10'', ''2''] (\<lambda>t. drop_env) (\<lambda>ts. ts) None =
      Finished (final_stats (?s\<lparr>stop_local := True, local_queue := [], py_stdin := py_stdin ?s @ local_queue ?s\<rparr>))"
    by (simp add: ed_main_def cpp_stoi_def cpp_strtol_def is_space_def is_digit_def decimal_digits_def
          dec_val_def digit_val_def generated_tokens_def stop_and_drain_result start_done_listener_def
          upt_conv_Cons)
  moreover have "completed_tasks ?s = 2"
    by (simp add: client_effects client_outcome_def drop_env_def drop_msg_def starts_with_def ed_init_def)
  ultimately show ?thesis
    using ed_main_percentages [OF run] by (simp add: final_stats_def Let_def)
qed

text \<open>
  C19: a granted task of the pressure variant leaks a broker position. That client writes
  nothing after its request and closes the socket, so the broker's acknowledgment
  \<open>recv\<close> reads no bytes and the connection closes without \<open>queue_size--\<close>: the
  counter and the held positions are unchanged.
\<close>

theorem pressure_grant_leaks_position:
  assumes "sock_ok env" "connect_ok env" "response env = Some (grant_msg p)"
    and "conn_at s c = Some (AwaitAck p)"
  shows "\<exists>s'. ec_step s (RecvAck c (ack_of_frames (fst (snd (pr_run_request t env s0))))) = Some s'
            \<and> conns s' ! c = Closed \<and> queue_size s' = queue_size s \<and> slots s' = slots s"
proof -
  have "starts_with ''GRANT:'' (grant_msg p)" by (simp add: grant_msg_def starts_with_def)
  then have "fst (snd (pr_run_request t env s0)) = [Text (req_msg t ''resnet_50'' ''PI5'')]"
    using assms(1-3) by (simp add: pr_run_request_def Let_def)
  moreover have "\<not> starts_with ''OK:'' (cstr_of_buf [])"
    by (simp add: starts_with_def cstr_of_buf_def)
  moreover have "c < length (conns s)" using assms(4) by (simp add: conn_at_Some)
  ultimately show ?thesis
    using assms(4) by (simp add: ack_of_frames_def ec_recv_ack_def set_conn_def)
qed

theorem pressure_grant_leaks_position_witness:
  "\<exists>s'. ec_step (the (ec_run ec_init (count_round 0 @ [Decide 0])))
           (RecvAck 0 (ack_of_frames (fst (snd (pr_run_request 0 grant_env pr_init))))) = Some s'
        \<and> conns s' ! 0 = Closed
        \<and> queue_size s' = queue_size (the (ec_run ec_init (count_round 0 @ [Decide 0])))
        \<and> slots s' = slots (the (ec_run ec_init (count_round 0 @ [Decide 0])))"
proof -
  have c: "conn_at (the (ec_run ec_init (count_round 0 @ [Decide 0]))) 0 = Some (AwaitAck 0)" by code_simp
  show ?thesis
    by (rule pressure_grant_leaks_position [OF _ _ _ c]) (simp_all add: grant_env_def)
qed

text \<open>
  C20: the acknowledgment of the \<open>Client\<close> variant is accepted. Granted position
  \<open>p\<close>, that client writes \<open>OK:p:token\<close> as its second frame; when the frame fits the
  broker's 255-byte read, the broker moves the connection to inference.
\<close>

theorem client_ack_accepted:
  assumes "sock_ok env" "connect_ok env" "response env = Some (grant_msg p)"
    and "length (ok_msg (show_int p) t) \<le> 255"
    and "conn_at s c = Some (AwaitAck p)"
  shows "\<exists>s'. ec_step s (RecvAck c (ack_of_frames (snd (run_request t env s0)))) = Some s'
            \<and> conns s' ! c = Running p"
proof -
  have g: "starts_with ''GRANT:'' (grant_msg p)" "drop 6 (grant_msg p) = show_int p"
    by (simp_all add: grant_msg_def starts_with_def)
  have "ack_of_frames (snd (run_request t env s0)) = ok_msg (show_int p) t"
    using assms(1-3) g
    by (simp add: run_request_def Let_def ack_of_frames_def split: option.split)
  moreover have "cstr_of_buf (ok_msg (show_int p) t) = ok_msg (show_int p) t"
    using assms(4) by (intro cstr_of_buf_plain) (simp_all add: ok_msg_def)
  moreover have "starts_with ''OK:'' (ok_msg (show_int p) t)"
    by (simp add: ok_msg_def starts_with_def)
  moreover have "c < length (conns s)" using assms(5) by (simp add: conn_at_Some)
  ultimately show ?thesis
    using assms(5) by (simp add: ec_recv_ack_def set_conn_def)
qed

theorem client_ack_accepted_witness:
  "\<exists>s'. ec_step (the (ec_run ec_init (count_round 0 @ [Decide 0])))
           (RecvAck 0 (ack_of_frames (snd (run_request 0 (drop_env\<lparr>response := Some (grant_msg 0)\<rparr>) ed_init))))
           = Some s'
        \<and> conns s' ! 0 = Running 0"
proof -
  have c: "conn_at (the (ec_run ec_init (count_round 0 @ [Decide 0]))) 0 = Some (AwaitAck 0)" by code_simp
  show ?thesis
    by (rule client_ack_accepted [OF _ _ _ _ c])
       (simp_all add: drop_env_def ok_msg_def show_int_def show_nat.simps digit_char_def decimal_digits_def)
qed

end
